(* ===== verification/Prelude.thy ===== *)
theory Prelude
  imports Main "HOL-Library.AList" "HOL-Library.Multiset"
begin

text \<open>
  Shared vocabulary of the development: results with an exception value, Python dictionaries as
  association lists in insertion order, Python slices, and the generic list lemmas that the
  component theories use.  Everything here models the language, not the application.
\<close>

named_theorems dict_simps \<open>rewriting of dictionary lookups and updates\<close>

named_theorems run_simps \<open>unfolding of result-valued (fallible) code\<close>


section \<open>Fallible code\<close>

text \<open>
  A call that may raise returns \<open>Inl e\<close> for a raised exception \<open>e\<close> and \<open>Inr v\<close> for a normal
  return.  \<open>bind_result\<close> is sequential composition: an exception skips the rest.
\<close>

definition bind_result :: "'e + 'a \<Rightarrow> ('a \<Rightarrow> 'e + 'b) \<Rightarrow> 'e + 'b" where
  "bind_result m f = (case m of Inl e \<Rightarrow> Inl e | Inr v \<Rightarrow> f v)"

lemma bind_result_simps [simp, run_simps]:
  "bind_result (Inl e) f = Inl e"
  "bind_result (Inr v) f = f v"
  by (simp_all add: bind_result_def)

lemma bind_result_Inr_iff:
  "bind_result m f = Inr w \<longleftrightarrow> (\<exists>v. m = Inr v \<and> f v = Inr w)"
  by (cases m) simp_all

lemma bind_result_Inl_iff:
  "bind_result m f = Inl e \<longleftrightarrow> m = Inl e \<or> (\<exists>v. m = Inr v \<and> f v = Inl e)"
  by (cases m) simp_all

lemmas bind_result_iffs = bind_result_Inr_iff bind_result_Inl_iff


text \<open>Fallible code over a state: an exception keeps the changes made before it.\<close>

definition bind_state :: "('s \<Rightarrow> ('e + 'a) \<times> 's) \<Rightarrow> ('a \<Rightarrow> 's \<Rightarrow> ('e + 'b) \<times> 's) \<Rightarrow> 's \<Rightarrow> ('e + 'b) \<times> 's" where
  "bind_state m f s = (case m s of (Inl e, s') \<Rightarrow> (Inl e, s') | (Inr v, s') \<Rightarrow> f v s')"

definition return_state :: "'a \<Rightarrow> 's \<Rightarrow> ('e + 'a) \<times> 's" where
  "return_state v s = (Inr v, s)"

definition raise_state :: "'e \<Rightarrow> 's \<Rightarrow> ('e + 'a) \<times> 's" where
  "raise_state e s = (Inl e, s)"

text \<open>A computation that does not touch the state.\<close>

definition lift_result :: "'e + 'a \<Rightarrow> 's \<Rightarrow> ('e + 'a) \<times> 's" where
  "lift_result r s = (r, s)"

lemma bind_state_simps [simp, run_simps]:
  "bind_state (return_state v) f = f v"
  "bind_state (raise_state e) f s = (Inl e, s)"
  "bind_state (lift_result (Inr v)) f = f v"
  "bind_state (lift_result (Inl e)) f s = (Inl e, s)"
  by (auto simp: bind_state_def return_state_def raise_state_def lift_result_def)

lemma state_ops [run_simps]:
  "return_state v s = (Inr v, s)" "raise_state e s = (Inl e, s)" "lift_result r s = (r, s)"
  by (simp_all add: return_state_def raise_state_def lift_result_def)

lemma bind_state_Inr:
  "bind_state m f s = (Inr w, s') \<longleftrightarrow> (\<exists>v s1. m s = (Inr v, s1) \<and> f v s1 = (Inr w, s'))"
  by (auto simp: bind_state_def split: prod.splits sum.splits)

lemma bind_state_Inl:
  "bind_state m f s = (Inl e, s') \<longleftrightarrow>
     m s = (Inl e, s') \<or> (\<exists>v s1. m s = (Inr v, s1) \<and> f v s1 = (Inl e, s'))"
  by (auto simp: bind_state_def split: prod.splits sum.splits)


text \<open>A fallible list comprehension: the first exception ends it.\<close>

fun map_result :: "('a \<Rightarrow> 'e + 'b) \<Rightarrow> 'a list \<Rightarrow> 'e + 'b list" where
  "map_result f [] = Inr []"
| "map_result f (x # xs) = bind_result (f x) (\<lambda>y. bind_result (map_result f xs) (\<lambda>ys. Inr (y # ys)))"

lemma map_result_cong [fundef_cong]:
  "xs = ys \<Longrightarrow> (\<And>x. x \<in> set ys \<Longrightarrow> f x = g x) \<Longrightarrow> map_result f xs = map_result g ys"
  by (induction ys arbitrary: xs) auto

lemma map_result_Inr:
  "map_result f xs = Inr ys \<longleftrightarrow> list_all2 (\<lambda>x y. f x = Inr y) xs ys"
  by (induction xs arbitrary: ys) (auto simp: bind_result_iffs list_all2_Cons1)

lemma map_result_total:
  "(\<And>x. x \<in> set xs \<Longrightarrow> \<exists>y. f x = Inr y) \<Longrightarrow> \<exists>ys. map_result f xs = Inr ys"
  by (induction xs) (simp, fastforce)


section \<open>Dictionaries\<close>

text \<open>
  A Python dictionary keeps its keys in insertion order; assigning to a present key keeps the
  key's position.  That is \<^const>\<open>AList.update\<close> on association lists with distinct keys.
\<close>

type_synonym ('k, 'v) dict = "('k \<times> 'v) list"

abbreviation dict_get :: "('k, 'v) dict \<Rightarrow> 'k \<Rightarrow> 'v option" where
  "dict_get \<equiv> map_of"

abbreviation dict_set :: "'k \<Rightarrow> 'v \<Rightarrow> ('k, 'v) dict \<Rightarrow> ('k, 'v) dict" where
  "dict_set \<equiv> AList.update"

abbreviation dict_pop :: "'k \<Rightarrow> ('k, 'v) dict \<Rightarrow> ('k, 'v) dict" where
  "dict_pop \<equiv> AList.delete"

abbreviation dict_keys :: "('k, 'v) dict \<Rightarrow> 'k list" where
  "dict_keys d \<equiv> map fst d"

abbreviation dict_values :: "('k, 'v) dict \<Rightarrow> 'v list" where
  "dict_values d \<equiv> map snd d"

lemma dict_get_set [simp, dict_simps]:
  "dict_get (dict_set k v d) k' = (if k' = k then Some v else dict_get d k')"
  by (simp add: update_conv')

lemma dict_get_pop [simp, dict_simps]:
  "dict_get (dict_pop k d) k' = (if k' = k then None else dict_get d k')"
  by (simp add: delete_conv')

lemma dict_set_keys_distinct [simp]:
  "distinct (dict_keys d) \<Longrightarrow> distinct (dict_keys (dict_set k v d))"
  by (rule distinct_update)

lemma dict_set_new: "dict_get d k = None \<Longrightarrow> dict_set k v d = d @ [(k, v)]"
  by (induction d) (auto split: if_splits)

lemma dict_keys_set:
  "dict_keys (dict_set k v d) = (if k \<in> set (dict_keys d) then dict_keys d else dict_keys d @ [k])"
  by (simp add: update_keys)

lemma dict_entry_iff:
  "distinct (dict_keys d) \<Longrightarrow> (k, v) \<in> set d \<longleftrightarrow> dict_get d k = Some v"
  by simp

lemma dict_filter_keys_distinct:
  "distinct (dict_keys d) \<Longrightarrow> distinct (dict_keys (filter P d))"
  by (induction d) auto


section \<open>Slices\<close>

text \<open>
  \<open>xs[lo:hi]\<close>: a negative bound counts from the end, both bounds are clipped to the list, and a
  range that runs backwards is empty.
\<close>

definition slice_bound :: "int \<Rightarrow> int \<Rightarrow> int" where
  "slice_bound n i = (if i < 0 then max 0 (n + i) else min n i)"

definition py_slice :: "'a list \<Rightarrow> int \<Rightarrow> int \<Rightarrow> 'a list" where
  "py_slice xs lo hi =
     (let n = int (length xs); l = slice_bound n lo; h = slice_bound n hi
      in take (nat (h - l)) (drop (nat l) xs))"

lemma py_slice_nonneg:
  assumes "0 \<le> lo" and "0 \<le> k"
  shows "py_slice xs lo (lo + k) = take (nat k) (drop (nat lo) xs)"
proof (cases "lo \<le> int (length xs)")
  case True
  have "take (nat (min (int (length xs)) (lo + k) - lo)) (drop (nat lo) xs)
        = take (nat k) (drop (nat lo) xs)"
  proof (cases "lo + k \<le> int (length xs)")
    case True
    then show ?thesis by simp
  next
    case False
    then have "length xs - nat lo \<le> nat k"
      and "nat (int (length xs) - lo) = length xs - nat lo"
      using assms by (simp_all add: nat_diff_distrib)
    with False show ?thesis by simp
  qed
  with True assms show ?thesis by (simp add: py_slice_def slice_bound_def Let_def)
next
  case False
  then show ?thesis using assms by (simp add: py_slice_def slice_bound_def Let_def)
qed

lemma py_slice_subset: "set (py_slice xs lo hi) \<subseteq> set xs"
  unfolding py_slice_def Let_def by (meson order_trans set_drop_subset set_take_subset)


section \<open>Lists\<close>

lemma filter_eq_of_distinct_key:
  assumes "distinct (map f xs)" and "x \<in> set xs"
  shows "filter (\<lambda>y. f y = f x) xs = [x]"
  using assms by (induction xs) (auto simp: filter_empty_conv image_iff)

lemma take_drop_step:
  "take n (drop k xs) @ drop (n + k) xs = drop k xs"
  by (metis append_take_drop_id drop_drop)

lemma set_map_snd_entries: "v \<in> set (dict_values d) \<longleftrightarrow> (\<exists>k. (k, v) \<in> set d)"
  by force

lemma sorted_wrt_take_drop:
  "sorted_wrt P xs \<Longrightarrow> sorted_wrt P (take n (drop k xs))"
  by (simp add: sorted_wrt_drop sorted_wrt_take)

end
