(* ===== verification/Binary64.thy ===== *)
theory Binary64
  imports Complex_Main Prelude "HOL-Library.Log_Nat"
begin

text \<open>
  Python floats.  A finite IEEE 754 binary64 value is represented by the rational number it
  denotes, and \<open>fl\<close> rounds a rational to the nearest binary64 value, ties to even, with gradual
  underflow.  A float operation is the exact operation followed by \<open>fl\<close>.  Overflow to infinity
  is outside the model: every value the application computes this way is a price ratio, a rating,
  a score or a clock reading, far below \<open>2^1024\<close>.
\<close>

type_synonym pyfloat = rat


section \<open>Rounding to integers\<close>

definition round_half_even :: "rat \<Rightarrow> int" where
  "round_half_even x =
     (let n = \<lfloor>x\<rfloor>; r = x - of_int n
      in if r < 1/2 then n else if 1/2 < r then n + 1 else if even n then n else n + 1)"

lemma round_half_even_of_int [simp]: "round_half_even (of_int n) = n"
  by (simp add: round_half_even_def)

lemma round_half_even_numerals [simp]:
  "round_half_even 0 = 0" "round_half_even 1 = 1" "round_half_even (numeral k) = numeral k"
  using round_half_even_of_int [of 0] round_half_even_of_int [of 1]
    round_half_even_of_int [of "numeral k"] by simp_all

lemma round_half_even_bounds:
  "of_int (round_half_even x) \<le> x + 1/2" "x - 1/2 \<le> of_int (round_half_even x)"
  unfolding round_half_even_def Let_def by (auto, linarith+)

lemma round_half_even_floor: "\<lfloor>x\<rfloor> \<le> round_half_even x" "round_half_even x \<le> \<lfloor>x\<rfloor> + 1"
  unfolding round_half_even_def Let_def by auto

lemma round_half_even_mono:
  assumes "x \<le> y" shows "round_half_even x \<le> round_half_even y"
proof (cases "\<lfloor>x\<rfloor> = \<lfloor>y\<rfloor>")
  case True
  with assms show ?thesis unfolding round_half_even_def Let_def by auto
next
  case False
  with assms have "\<lfloor>x\<rfloor> + 1 \<le> \<lfloor>y\<rfloor>" by (meson floor_mono add1_zle_eq order_le_less)
  then show ?thesis using round_half_even_floor [of x] round_half_even_floor [of y] by linarith
qed

lemma round_half_even_unique:
  assumes "\<bar>x - of_int n\<bar> < 1/2" shows "round_half_even x = n"
proof -
  have "\<bar>of_int (round_half_even x) - (of_int n :: rat)\<bar> < 1"
    using assms round_half_even_bounds [of x] by linarith
  then have "\<bar>round_half_even x - n\<bar> < 1" by linarith
  then show ?thesis by linarith
qed


section \<open>Rounding to binary64\<close>

text \<open>\<open>binexp x\<close> is the exponent of \<open>x > 0\<close>: the \<open>e\<close> with \<open>2^e \<le> x < 2^(e+1)\<close>.\<close>

definition binexp :: "rat \<Rightarrow> int" where
  "binexp x =
     (let (p, q) = quotient_of x; e = bitlen p - bitlen q
      in if 2 powi e \<le> x then e else e - 1)"

lemma powi2_less_iff [simp]: "(2::rat) powi m < 2 powi n \<longleftrightarrow> m < n"
proof
  show "(2::rat) powi m < 2 powi n \<Longrightarrow> m < n"
    by (rule ccontr) (use power_int_increasing [of n m "2::rat"] in simp)
qed (simp add: power_int_strict_increasing)

lemma powi2_le_iff [simp]: "(2::rat) powi m \<le> 2 powi n \<longleftrightarrow> m \<le> n"
  by (meson not_le powi2_less_iff)

lemma powi2_split: "(2::rat) powi m = 2 powi (m - n) * 2 powi n"
  by (simp flip: power_int_add)

lemma powi2_nat: "0 \<le> n \<Longrightarrow> (2::rat) powi n = of_int (2 ^ nat n)"
  by (simp add: power_int_nonneg_exp)

lemma binexp_bounds:
  assumes "0 < x" shows "2 powi (binexp x) \<le> x \<and> x < 2 powi (binexp x + 1)"
proof -
  obtain p q where pq: "quotient_of x = (p, q)" by fastforce
  then have q: "0 < q" and x: "x = of_int p / of_int q"
    by (simp_all add: quotient_of_denom_pos quotient_of_div)
  with assms have p: "0 < p" by (simp add: zero_less_divide_iff)
  define a where "a = bitlen p" define b where "b = bitlen q"
  have ab: "1 \<le> a" "1 \<le> b"
    using p q unfolding a_def b_def by (simp_all add: bitlen_alt_def)
  have pb: "2 powi (a - 1) \<le> (of_int p :: rat)" "of_int p < (2::rat) powi a"
    using bitlen_bounds [OF p] ab unfolding a_def [symmetric]
    by (simp_all add: powi2_nat flip: of_int_le_iff of_int_less_iff)
  have qb: "2 powi (b - 1) \<le> (of_int q :: rat)" "of_int q < (2::rat) powi b"
    using bitlen_bounds [OF q] ab unfolding b_def [symmetric]
    by (simp_all add: powi2_nat flip: of_int_le_iff of_int_less_iff)
  have lo: "2 powi (a - b - 1) \<le> x"
  proof -
    have "2 powi (a - b - 1) * of_int q \<le> (2::rat) powi (a - b - 1) * 2 powi b"
      using qb by simp
    also have "\<dots> = 2 powi (a - 1)" by (simp flip: power_int_add)
    finally show ?thesis using q pb by (simp add: x pos_le_divide_eq)
  qed
  have hi: "x < 2 powi (a - b + 1)"
  proof -
    have "(2::rat) powi a = 2 powi (a - b + 1) * 2 powi (b - 1)" by (simp flip: power_int_add)
    also have "\<dots> \<le> 2 powi (a - b + 1) * of_int q" using qb by simp
    finally show ?thesis using q pb by (simp add: x pos_divide_less_eq)
  qed
  show ?thesis using lo hi by (simp add: binexp_def pq a_def b_def Let_def not_le)
qed

lemma binexp_unique:
  assumes "2 powi e \<le> x" "x < 2 powi (e + 1)" shows "binexp x = e"
proof -
  have "0 < x" using assms(1) by (rule less_le_trans [rotated]) simp
  note b = binexp_bounds [OF this]
  have "(2::rat) powi e < 2 powi (binexp x + 1)" "(2::rat) powi (binexp x) < 2 powi (e + 1)"
    using assms b by linarith+
  then show ?thesis by simp
qed

lemma binexp_mono: "0 < x \<Longrightarrow> x \<le> y \<Longrightarrow> binexp x \<le> binexp y"
  using binexp_bounds [of x] binexp_bounds [of y] powi2_less_iff [of "binexp x" "binexp y + 1"]
  by linarith

text \<open>The spacing of the binary64 grid around \<open>x > 0\<close>: 53 significant bits, at least \<open>2^-1074\<close>.\<close>

definition grid_exp :: "rat \<Rightarrow> int" where
  "grid_exp x = max (binexp x - 52) (- 1074)"

definition fl_pos :: "rat \<Rightarrow> rat" where
  "fl_pos x = of_int (round_half_even (x / 2 powi (grid_exp x))) * 2 powi (grid_exp x)"

definition fl :: "rat \<Rightarrow> pyfloat" where
  "fl x = (if x = 0 then 0 else if 0 < x then fl_pos x else - fl_pos (- x))"

lemma fl_pos_on_grid:
  assumes "x / 2 powi (grid_exp x) = of_int m" shows "fl_pos x = x"
proof -
  have "fl_pos x = x / 2 powi (grid_exp x) * 2 powi (grid_exp x)"
    by (simp add: fl_pos_def assms)
  then show ?thesis by simp
qed

lemma fl_pos_upper:
  assumes "x \<le> 2 powi k" "grid_exp x \<le> k" shows "fl_pos x \<le> 2 powi k"
proof -
  let ?e = "grid_exp x"
  have "x / 2 powi ?e \<le> 2 powi k / 2 powi ?e" using assms(1) by (simp add: divide_right_mono)
  also have "\<dots> = of_int (2 ^ nat (k - ?e))" using assms(2) by (simp add: powi2_nat flip: power_int_diff)
  finally have "round_half_even (x / 2 powi ?e) \<le> 2 ^ nat (k - ?e)"
    using round_half_even_mono round_half_even_of_int by metis
  then have "of_int (round_half_even (x / 2 powi ?e)) \<le> (of_int (2 ^ nat (k - ?e)) :: rat)"
    by (simp only: of_int_le_iff)
  then have "fl_pos x \<le> of_int (2 ^ nat (k - ?e)) * 2 powi ?e"
    unfolding fl_pos_def by (simp add: mult_right_mono)
  also have "\<dots> = 2 powi k" using assms(2) by (simp add: powi2_split [of k ?e] powi2_nat)
  finally show ?thesis .
qed

lemma fl_pos_lower:
  assumes "2 powi k \<le> x" "grid_exp x \<le> k" shows "2 powi k \<le> fl_pos x"
proof -
  let ?e = "grid_exp x"
  have "of_int (2 ^ nat (k - ?e)) = 2 powi k / (2::rat) powi ?e"
    using assms(2) by (simp add: powi2_nat flip: power_int_diff)
  also have "\<dots> \<le> x / 2 powi ?e" using assms(1) by (simp add: divide_right_mono)
  finally have "2 ^ nat (k - ?e) \<le> round_half_even (x / 2 powi ?e)"
    using round_half_even_mono round_half_even_of_int by metis
  then have "(of_int (2 ^ nat (k - ?e)) :: rat) \<le> of_int (round_half_even (x / 2 powi ?e))"
    by (simp only: of_int_le_iff)
  then have "of_int (2 ^ nat (k - ?e)) * 2 powi ?e \<le> fl_pos x"
    unfolding fl_pos_def by (simp add: mult_right_mono)
  moreover have "of_int (2 ^ nat (k - ?e)) * (2::rat) powi ?e = 2 powi k"
    using assms(2) by (simp add: powi2_split [of k ?e] powi2_nat)
  ultimately show ?thesis by simp
qed

lemma fl_pos_nonneg: "0 < x \<Longrightarrow> 0 \<le> fl_pos x"
  using round_half_even_mono [of 0 "x / 2 powi (grid_exp x)"] by (simp add: fl_pos_def)

lemma fl_pos_mono:
  assumes "0 < x" "x \<le> y" shows "fl_pos x \<le> fl_pos y"
proof (cases "grid_exp x = grid_exp y")
  case True
  then have "x / 2 powi (grid_exp x) \<le> y / 2 powi (grid_exp y)"
    using assms by (simp add: divide_right_mono)
  then have "round_half_even (x / 2 powi (grid_exp x)) \<le> round_half_even (y / 2 powi (grid_exp y))"
    by (rule round_half_even_mono)
  with True show ?thesis by (simp add: fl_pos_def mult_right_mono)
next
  case False
  from assms have "binexp x \<le> binexp y" by (rule binexp_mono)
  with False have lt: "binexp x < binexp y" and ey: "grid_exp y = binexp y - 52"
    and ex: "grid_exp x < grid_exp y" by (auto simp: grid_exp_def max_def split: if_splits)
  have y: "0 < y" using assms by simp
  have "x \<le> 2 powi (binexp y)"
    using binexp_bounds [OF assms(1)] powi2_le_iff [of "binexp x + 1" "binexp y"] lt by linarith
  then have "fl_pos x \<le> 2 powi (binexp y)" by (rule fl_pos_upper) (use ex ey in simp)
  also have "\<dots> \<le> fl_pos y" by (rule fl_pos_lower) (use binexp_bounds [OF y] ey in simp_all)
  finally show ?thesis .
qed

lemma fl_zero [simp]: "fl 0 = 0"
  by (simp add: fl_def)

lemma fl_minus: "fl (- x) = - fl x"
  by (simp add: fl_def)

lemma fl_mono: "x \<le> y \<Longrightarrow> fl x \<le> fl y"
  unfolding fl_def
  using fl_pos_nonneg [of y] fl_pos_nonneg [of "- x"] fl_pos_mono [of x y] fl_pos_mono [of "- y" "- x"]
  by auto

text \<open>A number with at most 53 significant bits is a binary64 value, so rounding keeps it.\<close>

lemma fl_pos_exact:
  assumes "x = of_int m * 2 powi k" "0 < m" "m \<le> 2 ^ 53" "- 1074 \<le> k"
  shows "fl_pos x = x"
proof (cases "grid_exp x \<le> k")
  case True
  then have "x / 2 powi (grid_exp x) = of_int (m * 2 ^ nat (k - grid_exp x))"
    by (subst assms(1), subst powi2_split [of k "grid_exp x"]) (simp add: powi2_nat)
  then show ?thesis by (rule fl_pos_on_grid)
next
  case False
  have x: "0 < x" using assms by simp
  from False assms(4) have e: "grid_exp x = binexp x - 52" "k + 53 \<le> binexp x"
    by (simp_all add: grid_exp_def max_def split: if_splits)
  have "(2::rat) powi (k + 53) \<le> of_int m * 2 powi k"
    using binexp_bounds [OF x] e powi2_le_iff [of "k + 53" "binexp x"] assms(1) by linarith
  then have "(2 ^ 53 :: rat) \<le> of_int m" by (simp add: power_int_add)
  then have "2 ^ 53 \<le> m" by (metis of_int_le_iff of_int_numeral of_int_power)
  then have m: "m = 2 ^ 53" using assms(3) by simp
  then have "x = 2 powi (k + 53)" using assms(1) by (simp add: power_int_add)
  then have "binexp x = k + 53" by (intro binexp_unique) simp_all
  with e \<open>x = 2 powi (k + 53)\<close> have "x / 2 powi (grid_exp x) = of_int (2 ^ 52)"
    by (simp flip: power_int_diff)
  then show ?thesis by (rule fl_pos_on_grid)
qed

lemma fl_exact:
  assumes "x = of_int m * 2 powi k" "\<bar>m\<bar> \<le> 2 ^ 53" "- 1074 \<le> k"
  shows "fl x = x"
proof (cases m "0::int" rule: linorder_cases)
  case less
  then have "fl_pos (- x) = - x" using assms by (intro fl_pos_exact [of _ "- m" k]) simp_all
  moreover have "x < 0" using less assms(1) by (simp add: mult_neg_pos)
  ultimately show ?thesis by (simp add: fl_def)
next
  case greater
  then have "fl_pos x = x" using assms by (intro fl_pos_exact [of _ m k]) simp_all
  with greater assms show ?thesis by (simp add: fl_def)
qed (use assms in simp)

lemma fl_of_int: "\<bar>n\<bar> \<le> 2 ^ 53 \<Longrightarrow> fl (of_int n) = of_int n"
  by (rule fl_exact [of _ n 0]) simp_all

lemma fl_one [simp]: "fl 1 = 1" and fl_half [simp]: "fl (1/2) = 1/2"
  using fl_of_int [of 1] fl_exact [of "1/2" 1 "-1"] by (simp_all add: power_int_minus)

lemma fl_eval_pos:
  assumes "2 powi e \<le> x" "x < 2 powi (e + 1)" "- 1022 \<le> e"
    and "round_half_even (x / 2 powi (e - 52)) = m"
  shows "fl x = of_int m * 2 powi (e - 52)"
proof -
  have "binexp x = e" using assms(1,2) by (rule binexp_unique)
  moreover have "0 < x" using assms(1) by (rule less_le_trans [rotated]) simp
  ultimately show ?thesis using assms(3,4) by (simp add: fl_def fl_pos_def grid_exp_def)
qed

lemma grid_bits: "0 < x \<Longrightarrow> x < of_int (2 ^ 53) * 2 powi (grid_exp x)"
proof -
  assume "0 < x"
  then have "x < 2 powi (binexp x + 1)" by (simp add: binexp_bounds)
  also have "\<dots> \<le> 2 powi (grid_exp x + 53)" by (simp add: grid_exp_def)
  also have "\<dots> = of_int (2 ^ 53) * 2 powi (grid_exp x)" by (simp add: power_int_add)
  finally show ?thesis .
qed

lemma fl_idem [simp]: "fl (fl x) = fl x"
proof -
  have pos: "fl (fl_pos y) = fl_pos y" if y: "0 < y" for y
  proof -
    let ?m = "round_half_even (y / 2 powi (grid_exp y))"
    have "y / 2 powi (grid_exp y) \<le> of_int (2 ^ 53)"
      using grid_bits [OF y] by (simp add: divide_le_eq)
    then have "?m \<le> 2 ^ 53" using round_half_even_mono round_half_even_of_int by metis
    moreover have "0 \<le> ?m" using round_half_even_mono [of 0 "y / 2 powi (grid_exp y)"] y by simp
    ultimately show ?thesis
      by (intro fl_exact [of _ ?m "grid_exp y"]) (simp_all add: fl_pos_def grid_exp_def)
  qed
  show ?thesis using pos [of x] pos [of "- x"] by (auto simp: fl_def [of x] fl_minus)
qed

text \<open>The rounding error is at most half of the grid spacing.\<close>

lemma fl_error:
  assumes "0 < x" shows "\<bar>fl x - x\<bar> \<le> 2 powi (grid_exp x) / 2"
proof -
  let ?g = "(2::rat) powi (grid_exp x)"
  have "\<bar>of_int (round_half_even (x / ?g)) - x / ?g\<bar> \<le> 1/2"
    using round_half_even_bounds [of "x / ?g"] by linarith
  then have "\<bar>of_int (round_half_even (x / ?g)) - x / ?g\<bar> * ?g \<le> 1/2 * ?g"
    by (rule mult_right_mono) simp
  moreover have "\<bar>of_int (round_half_even (x / ?g)) - x / ?g\<bar> * ?g = \<bar>fl x - x\<bar>"
    using assms by (simp add: fl_def fl_pos_def abs_mult_pos left_diff_distrib)
  ultimately show ?thesis by simp
qed


section \<open>The contract of float rounding\<close>

text \<open>
  What the ranking code needs of the float rounding, whatever its precision: it is monotone, odd
  and keeps small integers.  Every bound on a score is proved from this contract.
\<close>

locale float_rounding =
  fixes rnd :: "rat \<Rightarrow> rat"
  assumes rnd_mono: "x \<le> y \<Longrightarrow> rnd x \<le> rnd y"
    and rnd_odd: "rnd (- x) = - rnd x"
    and rnd_int: "\<bar>n\<bar> \<le> 2 ^ 53 \<Longrightarrow> rnd (of_int n) = of_int n"
    and rnd_idem: "rnd (rnd x) = rnd x"
begin

lemma rnd_0: "rnd 0 = 0" and rnd_1: "rnd 1 = 1"
  using rnd_int [of 0] rnd_int [of 1] by simp_all

lemma rnd_nonneg: "0 \<le> x \<Longrightarrow> 0 \<le> rnd x"
  using rnd_mono [of 0 x] by (simp add: rnd_0)

lemma rnd_le_int: "x \<le> of_int n \<Longrightarrow> \<bar>n\<bar> \<le> 2 ^ 53 \<Longrightarrow> rnd x \<le> of_int n"
  using rnd_mono [of x "of_int n"] by (simp add: rnd_int)

lemma rnd_unit: "0 \<le> x \<Longrightarrow> x \<le> 1 \<Longrightarrow> 0 \<le> rnd x \<and> rnd x \<le> 1"
  using rnd_le_int [of x 1] by (simp add: rnd_nonneg)

lemma rnd_ratio_unit:
  assumes "0 \<le> a" "a \<le> b" "0 < b"
  shows "0 \<le> rnd (of_int a / of_int b) \<and> rnd (of_int a / of_int b) \<le> 1"
  using assms by (intro rnd_unit) simp_all

lemma rnd_scaled:
  assumes "0 \<le> w" "0 \<le> x" "x \<le> 1"
  shows "0 \<le> rnd (rnd w * x) \<and> rnd (rnd w * x) \<le> rnd w"
proof -
  have w: "0 \<le> rnd w" using assms(1) by (rule rnd_nonneg)
  then have "rnd w * x \<le> rnd w" using assms by (simp add: mult_left_le)
  then have "rnd (rnd w * x) \<le> rnd (rnd w)" by (rule rnd_mono)
  then show ?thesis using w assms by (simp add: rnd_idem rnd_nonneg)
qed

lemma rnd_scaled_mono: "0 \<le> w \<Longrightarrow> x \<le> y \<Longrightarrow> rnd (rnd w * x) \<le> rnd (rnd w * y)"
  by (intro rnd_mono mult_left_mono rnd_nonneg) simp_all

lemma rnd_ratio_mono:
  "a \<le> b \<Longrightarrow> 0 < c \<Longrightarrow> rnd (of_int a / of_int c) \<le> rnd (of_int b / of_int c)"
  by (intro rnd_mono) (simp add: divide_right_mono)

text \<open>Rounding to \<open>d\<close> decimals keeps the order and the unit interval.\<close>

lemma rnd_decimal_mono:
  "x \<le> y \<Longrightarrow> rnd (of_int (round_half_even (x * 10 ^ d)) / 10 ^ d)
             \<le> rnd (of_int (round_half_even (y * 10 ^ d)) / 10 ^ d)"
  by (intro rnd_mono divide_right_mono) (simp_all add: round_half_even_mono mult_right_mono)

lemma rnd_decimal_unit:
  assumes "0 \<le> x" "x \<le> 1"
  shows "0 \<le> rnd (of_int (round_half_even (x * 10 ^ d)) / 10 ^ d)
         \<and> rnd (of_int (round_half_even (x * 10 ^ d)) / 10 ^ d) \<le> 1"
proof -
  have "round_half_even (of_int 0 * 10 ^ d) \<le> round_half_even (x * 10 ^ d)"
    using assms by (intro round_half_even_mono mult_right_mono) simp_all
  moreover have "round_half_even (x * 10 ^ d) \<le> round_half_even (of_int (10 ^ d))"
    using assms by (intro round_half_even_mono) (simp add: mult_le_cancel_right2)
  ultimately have "0 \<le> round_half_even (x * 10 ^ d)" "round_half_even (x * 10 ^ d) \<le> 10 ^ d"
    unfolding round_half_even_of_int by simp_all
  then have "0 \<le> (of_int (round_half_even (x * 10 ^ d)) :: rat)"
    "of_int (round_half_even (x * 10 ^ d)) \<le> (of_int (10 ^ d) :: rat)"
    by (simp_all only: of_int_le_iff of_int_0_le_iff)
  then show ?thesis by (intro rnd_unit) simp_all
qed

end

interpretation b64: float_rounding fl
  by unfold_locales (simp_all add: fl_mono fl_minus fl_of_int)


section \<open>Float operations of Python\<close>

definition fadd :: "pyfloat \<Rightarrow> pyfloat \<Rightarrow> pyfloat" where "fadd x y = fl (x + y)"
definition fsub :: "pyfloat \<Rightarrow> pyfloat \<Rightarrow> pyfloat" where "fsub x y = fl (x - y)"
definition fmul :: "pyfloat \<Rightarrow> pyfloat \<Rightarrow> pyfloat" where "fmul x y = fl (x * y)"
definition fdiv :: "pyfloat \<Rightarrow> pyfloat \<Rightarrow> pyfloat" where "fdiv x y = fl (x / y)"

text \<open>\<open>a / b\<close> on ints is correctly rounded; \<open>float(n)\<close> rounds to nearest.\<close>

definition int_truediv :: "int \<Rightarrow> int \<Rightarrow> pyfloat" where
  "int_truediv a b = fl (of_int a / of_int b)"

definition float_of_int :: "int \<Rightarrow> pyfloat" where
  "float_of_int n = fl (of_int n)"

text \<open>
  \<open>round(x, d)\<close> rounds the exact value of \<open>x\<close> to \<open>d\<close> decimals, ties to even, and returns the
  nearest float; \<open>int(x)\<close> truncates towards zero.
\<close>

definition py_round :: "nat \<Rightarrow> pyfloat \<Rightarrow> pyfloat" where
  "py_round d x = fl (of_int (round_half_even (x * 10 ^ d)) / 10 ^ d)"

definition py_trunc :: "pyfloat \<Rightarrow> int" where
  "py_trunc x = (if 0 \<le> x then \<lfloor>x\<rfloor> else \<lceil>x\<rceil>)"

lemmas float_ops = fadd_def fsub_def fmul_def fdiv_def int_truediv_def float_of_int_def py_round_def

lemma py_round_mono: "x \<le> y \<Longrightarrow> py_round d x \<le> py_round d y"
  unfolding py_round_def by (rule b64.rnd_decimal_mono)

lemma py_round_unit: "0 \<le> x \<Longrightarrow> x \<le> 1 \<Longrightarrow> 0 \<le> py_round d x \<and> py_round d x \<le> 1"
  unfolding py_round_def by (rule b64.rnd_decimal_unit)

lemma py_round_0 [simp]: "py_round d 0 = 0" and py_round_1 [simp]: "py_round d 1 = 1"
proof -
  have "round_half_even (1 * 10 ^ d) = 10 ^ d"
    using round_half_even_of_int [of "10 ^ d"] by simp
  then show "py_round d 1 = 1" by (simp add: py_round_def)
qed (simp add: py_round_def)

end
