(* ===== verification/Json_Value.thy ===== *)
theory Json_Value
  imports Binary64
begin

text \<open>
  JSON values as Python's \<^verbatim>\<open>json\<close> module reads them: besides finite numbers it accepts
  \<open>NaN\<close> and the infinities, so a number read from outside is an extended float.
\<close>

datatype xfloat = Finite pyfloat | Infinite bool \<comment> \<open>\<open>True\<close> is the positive infinity\<close> | NotANumber

datatype json =
    JNull
  | JBool bool
  | JInt int
  | JFloat xfloat
  | JStr string
  | JList "json list"
  | JObj "(string \<times> json) list"

text \<open>The truth value of a JSON value in an \<open>if\<close>, \<open>or\<close> or \<open>and\<close>.\<close>

fun truthy :: "json \<Rightarrow> bool" where
  "truthy JNull = False"
| "truthy (JBool b) = b"
| "truthy (JInt i) = (i \<noteq> 0)"
| "truthy (JFloat (Finite x)) = (x \<noteq> 0)"
| "truthy (JFloat _) = True"
| "truthy (JStr s) = (s \<noteq> [])"
| "truthy (JList xs) = (xs \<noteq> [])"
| "truthy (JObj kvs) = (kvs \<noteq> [])"

end
