(* ===== verification/Py_Text.thy ===== *)
theory Py_Text
  imports Prelude "HOL-Library.List_Lexorder" "HOL-Library.Char_ord"
begin

text \<open>
  The string operations of Python that the application uses, on ASCII text.  A Python \<open>str\<close> is a
  \<^typ>\<open>string\<close>; code points of 128 and above are outside the model, so case conversion, digits
  and white space are those of ASCII.  The decimal reader is \<open>int(s)\<close> with its sign, surrounding
  white space, single underscores and the 4300 digit limit; the printer is \<open>str(n)\<close>.
\<close>


section \<open>Case, classes, white space\<close>

abbreviation ord :: "char \<Rightarrow> nat" where
  "ord \<equiv> of_char"

definition is_upper :: "char \<Rightarrow> bool" where "is_upper c \<longleftrightarrow> 65 \<le> ord c \<and> ord c \<le> 90"
definition is_lower :: "char \<Rightarrow> bool" where "is_lower c \<longleftrightarrow> 97 \<le> ord c \<and> ord c \<le> 122"
definition is_digit :: "char \<Rightarrow> bool" where "is_digit c \<longleftrightarrow> 48 \<le> ord c \<and> ord c \<le> 57"
definition is_alpha :: "char \<Rightarrow> bool" where "is_alpha c \<longleftrightarrow> is_upper c \<or> is_lower c"

text \<open>White space as \<open>str.strip\<close> and \<open>str.isspace\<close> know it.\<close>

definition is_space :: "char \<Rightarrow> bool" where
  "is_space c \<longleftrightarrow> (9 \<le> ord c \<and> ord c \<le> 13) \<or> (28 \<le> ord c \<and> ord c \<le> 32)"

definition lower_char :: "char \<Rightarrow> char" where
  "lower_char c = (if is_upper c then char_of (ord c + 32) else c)"

definition upper_char :: "char \<Rightarrow> char" where
  "upper_char c = (if is_lower c then char_of (ord c - 32) else c)"

definition str_lower :: "string \<Rightarrow> string" where "str_lower = map lower_char"
definition str_upper :: "string \<Rightarrow> string" where "str_upper = map upper_char"

definition str_isalpha :: "string \<Rightarrow> bool" where
  "str_isalpha s \<longleftrightarrow> s \<noteq> [] \<and> list_all is_alpha s"

definition str_isdigit :: "string \<Rightarrow> bool" where
  "str_isdigit s \<longleftrightarrow> s \<noteq> [] \<and> list_all is_digit s"

definition str_strip :: "string \<Rightarrow> string" where
  "str_strip s = rev (dropWhile is_space (rev (dropWhile is_space s)))"

definition str_startswith :: "string \<Rightarrow> string \<Rightarrow> bool" where
  "str_startswith s p \<longleftrightarrow> take (length p) s = p"

text \<open>\<open>s.rstrip("/")\<close> and the like: trailing characters of a set are removed.\<close>

definition str_rstrip_char :: "char \<Rightarrow> string \<Rightarrow> string" where
  "str_rstrip_char c s = rev (dropWhile (\<lambda>d. d = c) (rev s))"

text \<open>\<open>sep.join(ts)\<close>\<close>

fun str_join :: "string \<Rightarrow> string list \<Rightarrow> string" where
  "str_join sep [] = []"
| "str_join sep [s] = s"
| "str_join sep (s # t # ts) = s @ sep @ str_join sep (t # ts)"

lemma str_rstrip_char_split:
  obtains k where "s = str_rstrip_char c s @ replicate k c"
proof -
  have "rev s = takeWhile (\<lambda>d. d = c) (rev s) @ dropWhile (\<lambda>d. d = c) (rev s)" by simp
  moreover have "takeWhile (\<lambda>d. d = c) (rev s) = replicate (length (takeWhile (\<lambda>d. d = c) (rev s))) c"
    by (rule replicate_eqI) (auto dest: set_takeWhileD)
  ultimately have "s = rev (dropWhile (\<lambda>d. d = c) (rev s))
      @ rev (replicate (length (takeWhile (\<lambda>d. d = c) (rev s))) c)"
    by (metis rev_append rev_rev_ident)
  then show thesis using that by (simp add: str_rstrip_char_def)
qed

text \<open>\<open>s.split(c)\<close> for a one-character separator: always at least one part.\<close>

fun str_split :: "char \<Rightarrow> string \<Rightarrow> string list" where
  "str_split sep [] = [[]]"
| "str_split sep (c # cs) =
     (if c = sep then [] # str_split sep cs
      else case str_split sep cs of [] \<Rightarrow> [[c]] | p # ps \<Rightarrow> (c # p) # ps)"

lemma ord_lower_char: "is_upper c \<Longrightarrow> ord (lower_char c) = ord c + 32"
  by (simp add: lower_char_def is_upper_def)

lemma ord_upper_char: "is_lower c \<Longrightarrow> ord (upper_char c) = ord c - 32"
  by (auto simp: upper_char_def is_lower_def)

lemma is_upper_lower_char [simp]: "\<not> is_upper (lower_char c)"
  by (cases "is_upper c") (auto simp: ord_lower_char is_upper_def lower_char_def)

lemma is_lower_upper_char [simp]: "\<not> is_lower (upper_char c)"
  by (cases "is_lower c") (auto simp: ord_upper_char is_lower_def upper_char_def)

lemma lower_char_idem [simp]: "lower_char (lower_char c) = lower_char c"
  by (simp add: lower_char_def [of "lower_char c"])

lemma upper_char_idem [simp]: "upper_char (upper_char c) = upper_char c"
  by (simp add: upper_char_def [of "upper_char c"])

lemma lower_char_upper_char: "lower_char (upper_char c) = lower_char c"
proof (cases "is_lower c")
  case True
  then have "is_upper (upper_char c)" by (auto simp: is_upper_def is_lower_def ord_upper_char)
  then have "ord (lower_char (upper_char c)) = ord c"
    using True by (auto simp: ord_lower_char ord_upper_char is_lower_def)
  moreover have "lower_char c = c" using True by (auto simp: lower_char_def is_upper_def is_lower_def)
  ultimately show ?thesis by simp
qed (simp add: upper_char_def)

lemma str_lower_idem [simp]: "str_lower (str_lower s) = str_lower s"
  and str_upper_idem [simp]: "str_upper (str_upper s) = str_upper s"
  and str_lower_upper [simp]: "str_lower (str_upper s) = str_lower s"
  and length_str_lower [simp]: "length (str_lower s) = length s"
  and length_str_upper [simp]: "length (str_upper s) = length s"
  by (simp_all add: str_lower_def str_upper_def lower_char_upper_char)

lemma str_split_nonempty [simp]: "str_split sep s \<noteq> []"
  by (induction s) (auto split: list.splits)

lemma str_split_no_sep: "p \<in> set (str_split sep s) \<Longrightarrow> sep \<notin> set p"
  by (induction s arbitrary: p) (fastforce split: list.splits if_splits)+

lemma str_split_append:
  "str_split sep (a @ sep # b) = str_split sep a @ str_split sep b"
proof (induction a)
  case (Cons c cs)
  then show ?case by (cases "str_split sep cs") auto
qed simp

lemma str_split_single: "sep \<notin> set s \<Longrightarrow> str_split sep s = [s]"
  by (induction s) auto


section \<open>Decimal numbers\<close>

definition dec_digit :: "nat \<Rightarrow> char" where
  "dec_digit d = char_of (48 + d)"

definition digit_val :: "char \<Rightarrow> nat" where
  "digit_val c = ord c - 48"

fun nat_str :: "nat \<Rightarrow> string" where
  "nat_str n = (if n < 10 then [dec_digit n] else nat_str (n div 10) @ [dec_digit (n mod 10)])"

declare nat_str.simps [simp del]

definition int_str :: "int \<Rightarrow> string" where
  "int_str i = (if i < 0 then CHR ''-'' # nat_str (nat (- i)) else nat_str (nat i))"

text \<open>
  The digit part of \<open>int(s)\<close>: \<open>scan_digits v n s\<close> has read a digit string of value \<open>v\<close> with \<open>n\<close>
  digits and goes on; an underscore must stand between two digits.
\<close>

fun scan_digits :: "nat \<Rightarrow> nat \<Rightarrow> string \<Rightarrow> (nat \<times> nat \<times> string) option" where
  "scan_digits v n [] = Some (v, n, [])"
| "scan_digits v n (c # cs) =
     (if is_digit c then scan_digits (10 * v + digit_val c) (Suc n) cs
      else if c = CHR ''_'' then
        (case cs of
           d # ds \<Rightarrow> if is_digit d then scan_digits (10 * v + digit_val d) (Suc n) ds else None
         | [] \<Rightarrow> None)
      else Some (v, n, c # cs))"

text \<open>The white space that \<open>int(s)\<close> skips on ASCII text.\<close>

definition is_cspace :: "char \<Rightarrow> bool" where
  "is_cspace c \<longleftrightarrow> (9 \<le> ord c \<and> ord c \<le> 13) \<or> ord c = 32"

definition max_str_digits :: nat where "max_str_digits = 4300"

definition scan_nat :: "string \<Rightarrow> nat option" where
  "scan_nat s =
     (case s of
        c # cs \<Rightarrow>
          if is_digit c then
            (case scan_digits (digit_val c) 1 cs of
               Some (v, n, rest) \<Rightarrow>
                 if list_all is_cspace rest \<and> n \<le> max_str_digits then Some v else None
             | None \<Rightarrow> None)
          else None
      | [] \<Rightarrow> None)"

definition py_int :: "string \<Rightarrow> int option" where
  "py_int s =
     (case dropWhile is_cspace s of
        [] \<Rightarrow> None
      | c # cs \<Rightarrow>
          if c = CHR ''-'' then map_option (\<lambda>n. - int n) (scan_nat cs)
          else if c = CHR ''+'' then map_option int (scan_nat cs)
          else map_option int (scan_nat (c # cs)))"

lemma ord_dec_digit [simp]: "d < 10 \<Longrightarrow> ord (dec_digit d) = 48 + d"
  by (simp add: dec_digit_def)

lemma is_digit_dec_digit [simp]: "d < 10 \<Longrightarrow> is_digit (dec_digit d)"
  by (simp add: is_digit_def)

lemma digit_val_dec_digit [simp]: "d < 10 \<Longrightarrow> digit_val (dec_digit d) = d"
  by (simp add: digit_val_def)

lemma nat_str_digits: "list_all is_digit (nat_str n)"
  by (induction n rule: nat_str.induct) (subst nat_str.simps, simp)

lemma nat_str_nonempty [simp]: "nat_str n \<noteq> []"
  by (subst nat_str.simps) simp

lemma scan_digits_nat_str:
  "scan_digits v m (nat_str n @ s)
   = scan_digits (v * 10 ^ length (nat_str n) + n) (m + length (nat_str n)) s"
proof (induction n arbitrary: v m s rule: nat_str.induct)
  case (1 n)
  show ?case
  proof (cases "n < 10")
    case True
    then show ?thesis by (simp add: nat_str.simps [of n] mult.commute)
  next
    case False
    then show ?thesis
      using 1 [of v m "dec_digit (n mod 10) # s"]
      by (simp add: nat_str.simps [of n] add.commute mult.left_commute)
  qed
qed

lemma length_nat_str: "n < 10 ^ k \<Longrightarrow> 0 < k \<Longrightarrow> length (nat_str n) \<le> k"
proof (induction n arbitrary: k rule: nat_str.induct)
  case (1 n)
  show ?case
  proof (cases "n < 10")
    case True
    then show ?thesis using 1 by (simp add: nat_str.simps [of n])
  next
    case False
    obtain j where j: "k = Suc j" using 1 by (cases k) auto
    with False 1 have "0 < j" by (cases j) auto
    moreover have "n div 10 < 10 ^ j" using 1 j by (simp add: less_mult_imp_div_less mult.commute)
    ultimately have "length (nat_str (n div 10)) \<le> j" using 1 False by blast
    then show ?thesis using False j by (simp add: nat_str.simps [of n])
  qed
qed

lemma nat_str_Cons:
  obtains c cs where "nat_str n = c # cs" and "is_digit c"
  using nat_str_digits [of n] nat_str_nonempty [of n] by (cases "nat_str n") auto

lemma scan_nat_nat_str:
  assumes "n < 10 ^ max_str_digits" shows "scan_nat (nat_str n) = Some n"
proof -
  obtain c cs where c: "nat_str n = c # cs" "is_digit c" by (rule nat_str_Cons)
  have "scan_digits 0 0 (nat_str n @ []) = Some (n, length (nat_str n), [])"
    by (subst scan_digits_nat_str) simp
  then have "scan_digits (digit_val c) 1 cs = Some (n, length (nat_str n), [])"
    using c by simp
  moreover have "length (nat_str n) \<le> max_str_digits"
    using assms by (rule length_nat_str) (simp add: max_str_digits_def)
  ultimately show ?thesis using c by (simp add: scan_nat_def)
qed

lemma is_digit_not_cspace: "is_digit c \<Longrightarrow> \<not> is_cspace c"
  by (auto simp: is_digit_def is_cspace_def)

lemma is_digit_not_sign: "is_digit c \<Longrightarrow> c \<noteq> CHR ''-'' \<and> c \<noteq> CHR ''+'' \<and> c \<noteq> CHR ''_''"
  by (auto simp: is_digit_def)

lemma py_int_int_str:
  assumes "\<bar>i\<bar> < 10 ^ max_str_digits" shows "py_int (int_str i) = Some i"
proof (cases "i < 0")
  case True
  then have "scan_nat (nat_str (nat (- i))) = Some (nat (- i))"
    using assms by (intro scan_nat_nat_str) (simp add: nat_less_iff)
  with True show ?thesis by (simp add: py_int_def int_str_def is_cspace_def)
next
  case False
  then have *: "scan_nat (nat_str (nat i)) = Some (nat i)"
    using assms by (intro scan_nat_nat_str) (simp add: nat_less_iff)
  obtain c cs where "nat_str (nat i) = c # cs" "is_digit c" by (rule nat_str_Cons)
  with * False show ?thesis
    by (simp add: py_int_def int_str_def is_digit_not_cspace is_digit_not_sign)
qed

lemma nat_str_inj: "nat_str m = nat_str n \<Longrightarrow> m = n"
  using scan_digits_nat_str [of 0 0 m "[]"] scan_digits_nat_str [of 0 0 n "[]"] by simp

text \<open>The value of a string of digits.\<close>

definition digits_value :: "string \<Rightarrow> nat" where
  "digits_value s = foldl (\<lambda>v c. 10 * v + digit_val c) 0 s"

lemma digits_value_nat_str [simp]: "digits_value (nat_str n) = n"
proof (induction n rule: nat_str.induct)
  case (1 n)
  then show ?case by (subst nat_str.simps) (simp add: digits_value_def)
qed

lemma nat_str_length_bounds:
  assumes "0 < n"
  shows "10 ^ (length (nat_str n) - 1) \<le> n \<and> n < 10 ^ length (nat_str n)"
  using assms
proof (induction n rule: nat_str.induct)
  case (1 n)
  show ?case
  proof (cases "n < 10")
    case False
    let ?k = "length (nat_str (n div 10))"
    have "10 ^ (?k - 1) \<le> n div 10" "n div 10 < 10 ^ ?k" using 1 False by simp_all
    moreover have "Suc (?k - 1) = ?k" by (simp add: Suc_leI)
    then have "(10::nat) ^ ?k = 10 * 10 ^ (?k - 1)" using power_Suc [of "10::nat" "?k - 1"] by simp
    ultimately have "10 ^ ?k \<le> n" "n < 10 * 10 ^ ?k" by linarith+
    with False show ?thesis by (simp add: nat_str.simps [of n])
  qed (use 1 in \<open>simp add: nat_str.simps [of n]\<close>)
qed

lemma hd_nat_str: "0 < n \<Longrightarrow> hd (nat_str n) \<noteq> CHR ''0''"
proof (induction n rule: nat_str.induct)
  case (1 n)
  have "dec_digit n \<noteq> CHR ''0''" if "0 < n" "n < 10"
    using ord_dec_digit [OF that(2)] that(1) by auto
  with 1 show ?case by (subst nat_str.simps) (auto simp: hd_append)
qed

lemma digits_value_append: "digits_value (a @ b) = digits_value a * 10 ^ length b + digits_value b"
  by (induction b rule: rev_induct) (simp_all add: digits_value_def)

lemma digits_value_zeros [simp]: "digits_value (replicate k (CHR ''0'')) = 0"
  by (induction k) (simp_all add: digits_value_def digit_val_def)

lemma digits_value_zero_Cons [simp]: "digits_value (CHR ''0'' # s) = digits_value s"
  by (simp add: digits_value_def digit_val_def)

lemma takeWhile_digits [simp]:
  "list_all is_digit s \<Longrightarrow> takeWhile is_digit (s @ t) = s @ takeWhile is_digit t"
  "list_all is_digit s \<Longrightarrow> dropWhile is_digit (s @ t) = dropWhile is_digit t"
  by (simp_all add: list_all_iff)

lemma digit_val_less: "is_digit c \<Longrightarrow> digit_val c < 10"
  by (auto simp: is_digit_def digit_val_def)

lemma scan_digits_bound: "scan_digits v n s = Some (v', n', rest) \<Longrightarrow> v < 10 ^ n \<Longrightarrow> v' < 10 ^ n'"
proof (induction v n s rule: scan_digits.induct)
  case (2 v n c cs)
  have step: "10 * v + digit_val d < 10 ^ Suc n" if "is_digit d" for d
    using digit_val_less [OF that] 2(4) by simp
  then show ?case using 2 by (auto split: if_splits list.splits)
qed simp

lemma scan_nat_bound: assumes "scan_nat s = Some v" shows "v < 10 ^ max_str_digits"
proof -
  obtain c cs n rest where "is_digit c" "scan_digits (digit_val c) 1 cs = Some (v, n, rest)" "n \<le> max_str_digits"
    using assms by (auto simp: scan_nat_def split: list.splits if_splits option.splits prod.splits)
  then have "v < 10 ^ n" using digit_val_less [of c] scan_digits_bound [of "digit_val c" 1 cs v n rest] by simp
  also have "(10::nat) ^ n \<le> 10 ^ max_str_digits" using \<open>n \<le> max_str_digits\<close> by (rule power_increasing) simp
  finally show ?thesis .
qed

lemma py_int_bound: assumes "py_int s = Some i" shows "\<bar>i\<bar> < 10 ^ max_str_digits"
proof -
  obtain t n where "scan_nat t = Some n" "\<bar>i\<bar> = int n"
    using assms by (auto simp: py_int_def split: list.splits if_splits)
  then show ?thesis using scan_nat_bound [of t n] by (metis of_nat_less_iff of_nat_numeral of_nat_power)
qed


section \<open>Hexadecimal numbers\<close>

definition is_hex_digit :: "char \<Rightarrow> bool" where
  "is_hex_digit c \<longleftrightarrow> is_digit c \<or> (97 \<le> ord c \<and> ord c \<le> 102) \<or> (65 \<le> ord c \<and> ord c \<le> 70)"

definition hex_val :: "char \<Rightarrow> nat" where
  "hex_val c = (if is_digit c then ord c - 48 else if 97 \<le> ord c then ord c - 87 else ord c - 55)"

definition hex_digit :: "nat \<Rightarrow> char" where
  "hex_digit d = char_of (if d < 10 then 48 + d else 87 + d)"

fun hex_digits :: "nat \<Rightarrow> nat \<Rightarrow> string" where
  "hex_digits 0 n = []"
| "hex_digits (Suc k) n = hex_digits k (n div 16) @ [hex_digit (n mod 16)]"

definition hex_value :: "string \<Rightarrow> nat" where
  "hex_value s = foldl (\<lambda>v c. 16 * v + hex_val c) 0 s"

lemma ord_hex_digit: "d < 16 \<Longrightarrow> ord (hex_digit d) = (if d < 10 then 48 + d else 87 + d)"
  by (simp add: hex_digit_def)

lemma hex_digit_ok:
  assumes "d < 16"
  shows "is_hex_digit (hex_digit d)" "hex_val (hex_digit d) = d"
  using assms by (auto simp: is_hex_digit_def hex_val_def is_digit_def ord_hex_digit)

lemma length_hex_digits [simp]: "length (hex_digits k n) = k"
  by (induction k arbitrary: n) auto

lemma hex_digits_hex: "list_all is_hex_digit (hex_digits k n)"
  by (induction k arbitrary: n) (auto simp: hex_digit_ok)

lemma hex_value_digits: "n < 16 ^ k \<Longrightarrow> hex_value (hex_digits k n) = n"
proof (induction k arbitrary: n)
  case (Suc k)
  then have "n div 16 < 16 ^ k" by (simp add: less_mult_imp_div_less mult.commute)
  then show ?case using Suc.IH by (simp add: hex_value_def hex_digit_ok)
qed (simp add: hex_value_def)

end
