(* ===== verification/App_Errors.thy ===== *)
theory App_Errors
  imports Json_Value Py_Text
begin

text \<open>
  The error vocabulary of \<^verbatim>\<open>app/core/errors.py\<close>: the client-facing \<open>AppError\<close> hierarchy,
  the other exceptions that travel through the modelled code, and the RFC 7807 responses that the
  registered exception handlers render.
\<close>


section \<open>Exceptions\<close>

datatype app_error_class =
  AppError | NotFoundError | ConflictError | AuthenticationError | PermissionDeniedError
  | RateLimitedError | ProviderUnavailableError

fun status_code :: "app_error_class \<Rightarrow> int" where
  "status_code AppError = 400"
| "status_code NotFoundError = 404"
| "status_code ConflictError = 409"
| "status_code AuthenticationError = 401"
| "status_code PermissionDeniedError = 403"
| "status_code RateLimitedError = 429"
| "status_code ProviderUnavailableError = 503"

fun error_code :: "app_error_class \<Rightarrow> string" where
  "error_code AppError = ''bad_request''"
| "error_code NotFoundError = ''not_found''"
| "error_code ConflictError = ''conflict''"
| "error_code AuthenticationError = ''unauthorized''"
| "error_code PermissionDeniedError = ''forbidden''"
| "error_code RateLimitedError = ''rate_limited''"
| "error_code ProviderUnavailableError = ''provider_unavailable''"

fun error_title :: "app_error_class \<Rightarrow> string" where
  "error_title AppError = ''Bad Request''"
| "error_title NotFoundError = ''Resource Not Found''"
| "error_title ConflictError = ''Conflict''"
| "error_title AuthenticationError = ''Authentication Failed''"
| "error_title PermissionDeniedError = ''Permission Denied''"
| "error_title RateLimitedError = ''Too Many Requests''"
| "error_title ProviderUnavailableError = ''Upstream Provider Unavailable''"

record app_error_value =
  err_class :: app_error_class
  err_detail :: string
  err_extra :: "(string, json) dict"

text \<open>
  Exceptions of the modelled code.  \<open>PyError c m\<close> stands for an exception of the class named \<open>c\<close>
  that no handler of the application treats specially.
\<close>

datatype exn =
    AppExn app_error_value
  | RequestValidationError "(string list option \<times> string option) list"
      \<comment> \<open>the \<open>loc\<close> and \<open>msg\<close> entries of each error, \<open>None\<close> when the key is absent\<close>
  | HTTPException int string
  | TokenError string
  | CircuitBreakerOpen string
  | TransportError string
  | HTTPStatusError int
  | ValueError string
  | TypeError string
  | PyError string string

type_synonym 'a result = "exn + 'a"

abbreviation app_error :: "app_error_class \<Rightarrow> string \<Rightarrow> exn" where
  "app_error c d \<equiv> AppExn \<lparr>err_class = c, err_detail = d, err_extra = []\<rparr>"


section \<open>Problem responses\<close>

record problem_response =
  problem_status :: int
  problem_body :: "(string, json) dict"
  problem_media_type :: string

definition PROBLEM_CONTENT_TYPE :: string where
  "PROBLEM_CONTENT_TYPE = ''application/problem+json''"

text \<open>\<open>body.update(extra)\<close>\<close>

definition dict_update :: "('k, 'v) dict \<Rightarrow> ('k, 'v) dict \<Rightarrow> ('k, 'v) dict" where
  "dict_update d e = foldl (\<lambda>d (k, v). dict_set k v d) d e"

definition json_opt_str :: "string option \<Rightarrow> json" where
  "json_opt_str s = (case s of None \<Rightarrow> JNull | Some t \<Rightarrow> JStr t)"

definition problem ::
  "int \<Rightarrow> string \<Rightarrow> string \<Rightarrow> string \<Rightarrow> (string, json) dict \<Rightarrow> string option \<Rightarrow> problem_response" where
  "problem status code title detail extra trace_id =
     \<lparr>problem_status = status,
      problem_body =
        dict_update
          [(''type'', JStr (''https://smarttravel.dev/errors/'' @ code)), (''title'', JStr title),
           (''status'', JInt status), (''code'', JStr code), (''detail'', JStr detail),
           (''trace_id'', json_opt_str trace_id)]
          extra,
      problem_media_type = PROBLEM_CONTENT_TYPE\<rparr>"

definition clean_validation_errors :: "(string list option \<times> string option) list \<Rightarrow> json" where
  "clean_validation_errors errors =
     JList (map (\<lambda>(loc, msg).
       let parts = filter (\<lambda>p. p \<noteq> ''body'') (case loc of None \<Rightarrow> [] | Some l \<Rightarrow> l);
           path = str_join ''.'' parts
       in JObj [(''field'', JStr (if path = [] then ''body'' else path)),
                (''message'', JStr (case msg of None \<Rightarrow> ''invalid value'' | Some m \<Rightarrow> m))]) errors)"

text \<open>
  The handler that \<open>register_exception_handlers\<close> installs for the class of the exception; an
  \<open>AppError\<close> subclass and a \<open>StarletteHTTPException\<close> go to their own handlers, everything else to
  the generic one.
\<close>

definition handle_exception :: "string option \<Rightarrow> exn \<Rightarrow> problem_response" where
  "handle_exception trace_id e =
     (case e of
        AppExn a \<Rightarrow> problem (status_code (err_class a)) (error_code (err_class a))
                      (error_title (err_class a)) (err_detail a) (err_extra a) trace_id
      | RequestValidationError errors \<Rightarrow>
          problem 422 ''validation_error'' ''Request Validation Failed''
            ''One or more fields are invalid.'' [(''errors'', clean_validation_errors errors)] trace_id
      | HTTPException status detail \<Rightarrow> problem status ''http_error'' ''HTTP Error'' detail [] trace_id
      | _ \<Rightarrow> problem 500 ''internal_error'' ''Internal Server Error''
              ''An unexpected error occurred. The incident has been logged.'' [] trace_id)"

lemma dict_update_Nil [simp]: "dict_update d [] = d"
  by (simp add: dict_update_def)

lemma dict_get_update:
  "dict_get (dict_update d e) k
   = (case dict_get (rev e) k of None \<Rightarrow> dict_get d k | Some v \<Rightarrow> Some v)"
proof (induction e rule: rev_induct)
  case (snoc kv e)
  obtain k' v where "kv = (k', v)" by fastforce
  with snoc show ?case by (simp add: dict_update_def)
qed (simp add: dict_update_def)

lemma problem_field:
  "dict_get (rev extra) k = None \<Longrightarrow>
   dict_get (problem_body (problem status code title detail extra trace)) k
   = dict_get [(''type'', JStr (''https://smarttravel.dev/errors/'' @ code)), (''title'', JStr title),
       (''status'', JInt status), (''code'', JStr code), (''detail'', JStr detail),
       (''trace_id'', json_opt_str trace)] k"
  by (simp add: problem_def dict_get_update)

text \<open>A client-facing error is never rendered as a server fault other than 503.\<close>

lemma status_code_range: "400 \<le> status_code c \<and> (status_code c < 500 \<or> status_code c = 503)"
  by (cases c) simp_all

lemma error_code_inj: "error_code a = error_code b \<Longrightarrow> a = b"
  by (cases a; cases b) simp_all

end
