(* ===== verification/Py_Random.thy ===== *)
theory Py_Random
  imports App_Errors
begin

text \<open>
  The methods of \<open>random.Random\<close> that the sample providers call, over its two primitives
  \<open>getrandbits\<close> and \<open>random\<close>.  A drawing computation takes the generator and returns \<open>None\<close> when a rejection
  loop never ends, and otherwise a result and the advanced generator.  \<open>yields P m\<close> is total correctness: from every
  generator \<open>m\<close> ends without an exception and its value satisfies \<open>P\<close>.
\<close>

named_theorems yields_rules \<open>total correctness of drawing computations\<close>

section \<open>Drawing computations\<close>

type_synonym ('g, 'a) gen = "'g \<Rightarrow> ('a result \<times> 'g) option"

definition gen_return :: "'a \<Rightarrow> ('g, 'a) gen" where
  "gen_return x g = Some (Inr x, g)"

definition gen_raise :: "exn \<Rightarrow> ('g, 'a) gen" where
  "gen_raise e g = Some (Inl e, g)"

definition gen_bind :: "('g, 'a) gen \<Rightarrow> ('a \<Rightarrow> ('g, 'b) gen) \<Rightarrow> ('g, 'b) gen" where
  "gen_bind m f g =
     (case m g of
        None \<Rightarrow> None
      | Some (Inl e, g') \<Rightarrow> Some (Inl e, g')
      | Some (Inr x, g') \<Rightarrow> f x g')"

definition yields :: "('a \<Rightarrow> bool) \<Rightarrow> ('g, 'a) gen \<Rightarrow> bool" where
  "yields P m \<longleftrightarrow> (\<forall>g. \<exists>x g'. m g = Some (Inr x, g') \<and> P x)"

lemma yields_return [yields_rules]: "P x \<Longrightarrow> yields P (gen_return x)"
  by (simp add: yields_def gen_return_def)

lemma yields_bind:
  assumes "yields P m" "\<And>x. P x \<Longrightarrow> yields Q (f x)" shows "yields Q (gen_bind m f)"
  unfolding yields_def
proof
  fix g
  obtain x g' where "m g = Some (Inr x, g')" "P x" using assms(1) unfolding yields_def by blast
  then show "\<exists>y g''. gen_bind m f g = Some (Inr y, g'') \<and> Q y"
    using assms(2) [of x] by (auto simp: yields_def gen_bind_def)
qed

lemma yields_weaken: "yields P m \<Longrightarrow> (\<And>x. P x \<Longrightarrow> Q x) \<Longrightarrow> yields Q m"
  unfolding yields_def by blast

lemma yieldsD: "yields P m \<Longrightarrow> \<exists>x g'. m g = Some (Inr x, g') \<and> P x"
  by (simp add: yields_def)


section \<open>The generator\<close>

record 'g rng =
  rng_seed :: "nat \<Rightarrow> 'g"
  rng_getrandbits :: "nat \<Rightarrow> 'g \<Rightarrow> nat \<times> 'g"
  rng_random :: "'g \<Rightarrow> pyfloat \<times> 'g"

text \<open>The generator after \<open>k\<close> further draws of \<open>b\<close> bits.\<close>

definition advance :: "'g rng \<Rightarrow> nat \<Rightarrow> nat \<Rightarrow> 'g \<Rightarrow> 'g" where
  "advance rng b k g = ((\<lambda>g. snd (rng_getrandbits rng b g)) ^^ k) g"

text \<open>
  What the documentation promises: \<open>getrandbits(b)\<close> is below \<open>2^b\<close>, \<open>random()\<close> lies in \<open>[0, 1)\<close>, and the bits are
  not stuck: below every positive bound that \<open>b\<close> bits can exceed there is eventually a draw.
\<close>

definition rng_documented :: "'g rng \<Rightarrow> bool" where
  "rng_documented rng \<longleftrightarrow>
     (\<forall>b g. fst (rng_getrandbits rng b g) < 2 ^ b)
     \<and> (\<forall>g. 0 \<le> fst (rng_random rng g) \<and> fst (rng_random rng g) < 1)
     \<and> (\<forall>b n g. 0 < n \<longrightarrow> (\<exists>k. fst (rng_getrandbits rng b (advance rng b k g)) < n))"

fun bit_length :: "nat \<Rightarrow> nat" where
  "bit_length n = (if n = 0 then 0 else Suc (bit_length (n div 2)))"

declare bit_length.simps [simp del]

text \<open>The loop of \<open>_randbelow_with_getrandbits\<close>: draw until the value is below the bound.\<close>

partial_function (option) reject_loop :: "'g rng \<Rightarrow> nat \<Rightarrow> nat \<Rightarrow> 'g \<Rightarrow> (nat result \<times> 'g) option" where
  "reject_loop rng b n g =
     (case rng_getrandbits rng b g of
        (r, g') \<Rightarrow> if n \<le> r then reject_loop rng b n g' else Some (Inr r, g'))"

definition randbelow :: "'g rng \<Rightarrow> nat \<Rightarrow> ('g, nat) gen" where
  "randbelow rng n = reject_loop rng (bit_length n) n"

definition randint :: "'g rng \<Rightarrow> int \<Rightarrow> int \<Rightarrow> ('g, int) gen" where
  "randint rng a b =
     (if b < a then gen_raise (ValueError ''empty range in randrange'')
      else gen_bind (randbelow rng (nat (b + 1 - a))) (\<lambda>r. gen_return (a + int r)))"

definition choice :: "'g rng \<Rightarrow> 'a list \<Rightarrow> ('g, 'a) gen" where
  "choice rng xs =
     (if xs = [] then gen_raise (PyError ''IndexError'' ''Cannot choose from an empty sequence'')
      else gen_bind (randbelow rng (length xs)) (\<lambda>i. gen_return (xs ! i)))"

definition random_float :: "'g rng \<Rightarrow> ('g, pyfloat) gen" where
  "random_float rng g = (case rng_random rng g of (x, g') \<Rightarrow> Some (Inr x, g'))"

definition uniform :: "'g rng \<Rightarrow> pyfloat \<Rightarrow> pyfloat \<Rightarrow> ('g, pyfloat) gen" where
  "uniform rng a b = gen_bind (random_float rng) (\<lambda>x. gen_return (fadd a (fmul (fsub b a) x)))"

text \<open>\<open>choices(population, weights=...)[0]\<close>: bisection of the running totals, never past the last entry.\<close>

fun running_totals :: "int \<Rightarrow> int list \<Rightarrow> int list" where
  "running_totals acc [] = []"
| "running_totals acc (w # ws) = (acc + w) # running_totals (acc + w) ws"

definition choices_first :: "'g rng \<Rightarrow> 'a list \<Rightarrow> int list \<Rightarrow> ('g, 'a) gen" where
  "choices_first rng population weights =
     (let cum = running_totals 0 weights; grand = float_of_int (last cum); hi = length population - 1
      in gen_bind (random_float rng) (\<lambda>x.
           let y = fmul x grand; i = length (takeWhile (\<lambda>c. of_int c \<le> y) (take hi cum))
           in gen_return (population ! i)))"

text \<open>\<open>sample(population, k)\<close> of at most 21 elements: repeated draws from a shrinking pool.\<close>

fun sample_pool :: "'g rng \<Rightarrow> 'a list \<Rightarrow> nat \<Rightarrow> ('g, 'a list) gen" where
  "sample_pool rng pool 0 = gen_return []"
| "sample_pool rng pool (Suc k) =
     gen_bind (randbelow rng (length pool)) (\<lambda>j.
     gen_bind (sample_pool rng (butlast (pool[j := last pool])) k) (\<lambda>rest.
       gen_return (pool ! j # rest)))"

definition sample :: "'g rng \<Rightarrow> 'a list \<Rightarrow> int \<Rightarrow> ('g, 'a list) gen" where
  "sample rng population k =
     (if k < 0 \<or> int (length population) < k
      then gen_raise (ValueError ''Sample larger than population or is negative'')
      else sample_pool rng population (nat k))"


section \<open>Total correctness\<close>

lemma bit_length_pos: "n < 2 ^ bit_length n"
proof (induction n rule: bit_length.induct)
  case (1 n)
  then show ?case by (subst bit_length.simps) auto
qed

lemma reject_loop_returns:
  assumes "fst (rng_getrandbits rng b (advance rng b k g)) < n"
  shows "\<exists>r g'. reject_loop rng b n g = Some (Inr r, g') \<and> r < n"
  using assms
proof (induction k arbitrary: g)
  case 0
  then show ?case by (subst reject_loop.simps) (auto simp: advance_def split: prod.split)
next
  case (Suc k)
  obtain r g' where d: "rng_getrandbits rng b g = (r, g')" by fastforce
  show ?case
  proof (cases "n \<le> r")
    case True
    have "advance rng b (Suc k) g = advance rng b k g'" using d by (simp add: advance_def funpow_Suc_right del: funpow.simps)
    then have "\<exists>r g''. reject_loop rng b n g' = Some (Inr r, g'') \<and> r < n" using Suc by simp
    with True d show ?thesis by (subst reject_loop.simps) simp
  next
    case False
    with d show ?thesis by (subst reject_loop.simps) simp
  qed
qed

lemma yields_randbelow [yields_rules]:
  assumes "rng_documented rng" "0 < n" shows "yields (\<lambda>r. r < n) (randbelow rng n)"
  unfolding yields_def randbelow_def
proof
  fix g
  obtain k where "fst (rng_getrandbits rng (bit_length n) (advance rng (bit_length n) k g)) < n"
    using assms unfolding rng_documented_def by blast
  then show "\<exists>x g'. reject_loop rng (bit_length n) n g = Some (Inr x, g') \<and> x < n" by (rule reject_loop_returns)
qed

lemma yields_randint [yields_rules]:
  assumes "rng_documented rng" "a \<le> b" shows "yields (\<lambda>r. a \<le> r \<and> r \<le> b) (randint rng a b)"
proof -
  have "yields (\<lambda>r. a \<le> r \<and> r \<le> b) (gen_bind (randbelow rng (nat (b + 1 - a))) (\<lambda>r. gen_return (a + int r)))"
    by (rule yields_bind [OF yields_randbelow [OF assms(1)]]) (use assms(2) in \<open>auto intro: yields_return\<close>)
  then show ?thesis using assms(2) by (simp add: randint_def)
qed

lemma yields_choice [yields_rules]:
  assumes "rng_documented rng" "xs \<noteq> []" shows "yields (\<lambda>x. x \<in> set xs) (choice rng xs)"
proof -
  have "yields (\<lambda>x. x \<in> set xs) (gen_bind (randbelow rng (length xs)) (\<lambda>i. gen_return (xs ! i)))"
    by (rule yields_bind [OF yields_randbelow [OF assms(1)]]) (use assms(2) in \<open>auto intro: yields_return\<close>)
  then show ?thesis using assms(2) by (simp add: choice_def)
qed

lemma yields_random [yields_rules]:
  "rng_documented rng \<Longrightarrow> yields (\<lambda>x. 0 \<le> x \<and> x < 1) (random_float rng)"
  by (auto simp: rng_documented_def yields_def random_float_def split: prod.split) (metis fst_conv)+

lemma yields_uniform [yields_rules]:
  assumes "rng_documented rng" "\<bar>a\<bar> \<le> 2 ^ 53" "\<bar>b\<bar> \<le> 2 ^ 53" "a \<le> b" "\<bar>b - a\<bar> \<le> 2 ^ 53"
  shows "yields (\<lambda>x. of_int a \<le> x \<and> x \<le> of_int b) (uniform rng (of_int a) (of_int b))"
  unfolding uniform_def
proof (rule yields_bind [OF yields_random [OF assms(1)]], rule yields_return)
  fix x :: pyfloat assume x: "0 \<le> x \<and> x < 1"
  have d: "fsub (of_int b) (of_int a) = of_int (b - a)"
    using fl_of_int [OF assms(5)] by (simp add: fsub_def)
  have p: "0 \<le> of_int (b - a) * x" "of_int (b - a) * x \<le> of_int (b - a)"
    using x assms(4) by (simp_all add: mult_left_le)
  then have "0 \<le> fmul (of_int (b - a)) x" "fmul (of_int (b - a)) x \<le> of_int (b - a)"
    using b64.rnd_nonneg [OF p(1)] b64.rnd_le_int [OF p(2) assms(5)] by (simp_all add: fmul_def)
  then have "of_int a \<le> of_int a + fmul (of_int (b - a)) x" "of_int a + fmul (of_int (b - a)) x \<le> of_int b" by simp_all
  then show "of_int a \<le> fadd (of_int a) (fmul (fsub (of_int b) (of_int a)) x)
      \<and> fadd (of_int a) (fmul (fsub (of_int b) (of_int a)) x) \<le> of_int b"
    using fl_mono [of "of_int a"] b64.rnd_le_int [of _ b] fl_of_int [OF assms(2)] assms(3) unfolding d fadd_def by metis
qed

lemma yields_choices [yields_rules]:
  assumes "rng_documented rng" "population \<noteq> []"
  shows "yields (\<lambda>x. x \<in> set population) (choices_first rng population weights)"
  unfolding choices_first_def Let_def
proof (rule yields_bind [OF yields_random [OF assms(1)]], rule yields_return)
  fix x :: pyfloat
  let ?t = "take (length population - 1) (running_totals 0 weights)"
  let ?i = "length (takeWhile (\<lambda>c. of_int c \<le> fmul x (float_of_int (last (running_totals 0 weights)))) ?t)"
  have "?i \<le> length population - 1" by (metis length_take length_takeWhile_le min.bounded_iff)
  then have "?i < length population" using assms(2) by (cases population) auto
  then show "population ! ?i \<in> set population" by (rule nth_mem)
qed

lemma mset_pool_step:
  assumes "j < length pool"
  shows "add_mset (pool ! j) (mset (butlast (pool[j := last pool]))) = mset pool"
proof (cases pool rule: rev_cases)
  case (snoc xs x)
  show ?thesis
  proof (cases "j = length xs")
    case True
    then show ?thesis using snoc by simp
  next
    case False
    then have j: "j < length xs" using assms snoc by simp
    then have "butlast (pool[j := last pool]) = xs[j := x]" "pool ! j = xs ! j"
      using snoc by (simp_all add: list_update_append nth_append)
    then show ?thesis using snoc j mset_update [OF j, of x] by (simp add: insert_DiffM)
  qed
qed (use assms in simp)

text \<open>A sample has the requested size and takes each element of the population at most once.\<close>

lemma yields_sample_pool:
  "rng_documented rng \<Longrightarrow> k \<le> length pool \<Longrightarrow> yields (\<lambda>r. length r = k \<and> mset r \<subseteq># mset pool) (sample_pool rng pool k)"
proof (induction rng pool k rule: sample_pool.induct)
  case (2 rng pool k)
  have "0 < length pool" using 2(3) by linarith
  show ?case unfolding sample_pool.simps
  proof (rule yields_bind [OF yields_randbelow [OF 2(2) \<open>0 < length pool\<close>]])
    fix j assume j: "j < length pool"
    let ?p = "butlast (pool[j := last pool])"
    have "yields (\<lambda>r. length r = k \<and> mset r \<subseteq># mset ?p) (sample_pool rng ?p k)" using 2 by (intro 2(1)) auto
    then show "yields (\<lambda>r. length r = Suc k \<and> mset r \<subseteq># mset pool)
        (gen_bind (sample_pool rng ?p k) (\<lambda>rest. gen_return (pool ! j # rest)))"
      using mset_pool_step [OF j] by (elim yields_bind) (auto intro!: yields_return simp flip: mset_pool_step [OF j])
  qed
qed (simp add: yields_return)

lemma yields_sample [yields_rules]:
  assumes "rng_documented rng" "0 \<le> k" "k \<le> int (length pool)"
  shows "yields (\<lambda>r. int (length r) = k \<and> mset r \<subseteq># mset pool) (sample rng pool k)"
proof -
  have "yields (\<lambda>r. length r = nat k \<and> mset r \<subseteq># mset pool) (sample_pool rng pool (nat k))"
    using assms by (intro yields_sample_pool) auto
  then show ?thesis using assms(2,3) unfolding sample_def by (auto elim!: yields_weaken)
qed

end
