(* ===== verification/Py_Sha256.thy ===== *)
theory Py_Sha256
  imports Py_Text "HOL-Library.Word"
begin

text \<open>
  \<open>hashlib.sha256(raw.encode()).hexdigest()\<close> on ASCII text: SHA-256 of FIPS 180-4 on 32-bit words,
  whose addition wraps around.
\<close>

unbundle bit_operations_syntax

type_synonym word32 = "32 word"

definition Ch :: "word32 \<Rightarrow> word32 \<Rightarrow> word32 \<Rightarrow> word32" where
  "Ch x y z = (x AND y) XOR (NOT x AND z)"

definition Maj :: "word32 \<Rightarrow> word32 \<Rightarrow> word32 \<Rightarrow> word32" where
  "Maj x y z = (x AND y) XOR (x AND z) XOR (y AND z)"

definition big_sigma0 :: "word32 \<Rightarrow> word32" where
  "big_sigma0 x = word_rotr 2 x XOR word_rotr 13 x XOR word_rotr 22 x"

definition big_sigma1 :: "word32 \<Rightarrow> word32" where
  "big_sigma1 x = word_rotr 6 x XOR word_rotr 11 x XOR word_rotr 25 x"

definition sigma0 :: "word32 \<Rightarrow> word32" where
  "sigma0 x = word_rotr 7 x XOR word_rotr 18 x XOR drop_bit 3 x"

definition sigma1 :: "word32 \<Rightarrow> word32" where
  "sigma1 x = word_rotr 17 x XOR word_rotr 19 x XOR drop_bit 10 x"

text \<open>
  The constants as the standard defines them: the first 32 bits of the fractional parts of the cube roots of the
  first 64 primes, and of the square roots of the first 8 primes.  \<open>root_bits\<close> finds the bits of a root from the top.
\<close>

fun root_bits :: "nat \<Rightarrow> nat \<Rightarrow> nat \<Rightarrow> nat \<Rightarrow> nat" where
  "root_bits k 0 n r = r"
| "root_bits k (Suc b) n r = root_bits k b n (if (r + 2 ^ b) ^ k \<le> n then r + 2 ^ b else r)"

definition first_primes :: "nat list" where
  "first_primes =
     [2, 3, 5, 7, 11, 13, 17, 19, 23, 29, 31, 37, 41, 43, 47, 53, 59, 61, 67, 71, 73, 79,
      83, 89, 97, 101, 103, 107, 109, 113, 127, 131, 137, 139, 149, 151, 157, 163, 167, 173, 179, 181, 191, 193,
      197, 199, 211, 223, 227, 229, 233, 239, 241, 251, 257, 263, 269, 271, 277, 281, 283, 293, 307, 311]"

definition root_fraction :: "nat \<Rightarrow> nat \<Rightarrow> word32" where
  "root_fraction k p = of_nat (root_bits k 35 (p * 2 ^ (32 * k)) 0)"

definition K256 :: "word32 list" where
  "K256 = map (root_fraction 3) first_primes"

definition H256 :: "word32 list" where
  "H256 = map (root_fraction 2) (take 8 first_primes)"

lemma root_bits_exact:
  "r ^ k \<le> n \<Longrightarrow> n < (r + 2 ^ b) ^ k \<Longrightarrow> root_bits k b n r ^ k \<le> n \<and> n < (root_bits k b n r + 1) ^ k"
proof (induction b arbitrary: r)
  case (Suc b)
  show ?case
  proof (cases "(r + 2 ^ b) ^ k \<le> n")
    case True
    have "n < (r + 2 ^ b + 2 ^ b) ^ k" using Suc.prems(2) by (simp add: mult_2 add.assoc)
    then show ?thesis using Suc.IH [OF True] True by simp
  next
    case False
    then show ?thesis using Suc.IH [of r] Suc.prems(1) by (simp add: not_le)
  qed
qed simp

text \<open>A constant is the integer part of \<open>2 ^ 32\<close> times the root of the prime, modulo \<open>2 ^ 32\<close>.\<close>

lemma root_fraction_eqI:
  assumes "r ^ k \<le> p * 2 ^ (32 * k)" "p * 2 ^ (32 * k) < (r + 1) ^ k" "0 < k" "p < 2 ^ (3 * k)"
  shows "root_fraction k p = of_nat r"
proof -
  have "p * 2 ^ (32 * k) < 2 ^ (3 * k) * 2 ^ (32 * k)" using assms(4) by simp
  also have "\<dots> = 2 ^ (35 * k)" by (simp add: power_add [symmetric])
  also have "\<dots> = (0 + 2 ^ 35) ^ k" by (simp add: power_mult)
  finally have "root_bits k 35 (p * 2 ^ (32 * k)) 0 ^ k \<le> p * 2 ^ (32 * k)
      \<and> p * 2 ^ (32 * k) < (root_bits k 35 (p * 2 ^ (32 * k)) 0 + 1) ^ k"
    using assms(3) by (intro root_bits_exact) (simp_all add: zero_power)
  then have "root_bits k 35 (p * 2 ^ (32 * k)) 0 ^ k < (r + 1) ^ k" "r ^ k < (root_bits k 35 (p * 2 ^ (32 * k)) 0 + 1) ^ k"
    using assms(1,2) by linarith+
  then have "root_bits k 35 (p * 2 ^ (32 * k)) 0 < r + 1" "r < root_bits k 35 (p * 2 ^ (32 * k)) 0 + 1"
    using power_less_imp_less_base by blast+
  then have "root_bits k 35 (p * 2 ^ (32 * k)) 0 = r" by simp
  then show ?thesis by (simp add: root_fraction_def)
qed

lemma length_H256: "length H256 = 8" by (simp add: H256_def first_primes_def)

lemma constants_ends:
  "hd K256 = 0x428a2f98" "last K256 = 0xc67178f2" "hd H256 = 0x6a09e667" "last H256 = 0x5be0cd19"
proof -
  have "root_fraction 3 2 = of_nat 0x1428a2f98" "root_fraction 3 311 = of_nat 0x6c67178f2"
    "root_fraction 2 2 = of_nat 0x16a09e667" "root_fraction 2 19 = of_nat 0x45be0cd19"
    by (rule root_fraction_eqI; simp)+
  then show "hd K256 = 0x428a2f98" "last K256 = 0xc67178f2" "hd H256 = 0x6a09e667" "last H256 = 0x5be0cd19"
    by (simp_all add: K256_def H256_def first_primes_def)
qed

fun be_bytes :: "nat \<Rightarrow> nat \<Rightarrow> nat list" where
  "be_bytes 0 n = []"
| "be_bytes (Suc k) n = be_bytes k (n div 256) @ [n mod 256]"

text \<open>The padding to a multiple of 64 bytes: a one bit, zeros, and the length in bits on 8 bytes.\<close>

definition pad_message :: "nat list \<Rightarrow> nat list" where
  "pad_message m = m @ [128] @ replicate ((119 - length m mod 64) mod 64) 0 @ be_bytes 8 (8 * length m)"

fun words_of_bytes :: "nat list \<Rightarrow> word32 list" where
  "words_of_bytes (a # b # c # d # rest) = of_nat (((a * 256 + b) * 256 + c) * 256 + d) # words_of_bytes rest"
| "words_of_bytes _ = []"

definition schedule_step :: "word32 list \<Rightarrow> nat \<Rightarrow> word32 list" where
  "schedule_step w t = w @ [sigma1 (w ! (t - 2)) + w ! (t - 7) + sigma0 (w ! (t - 15)) + w ! (t - 16)]"

definition message_schedule :: "word32 list \<Rightarrow> word32 list" where
  "message_schedule block = foldl schedule_step block [16..<64]"

definition compress_round :: "word32 list \<Rightarrow> word32 \<times> word32 \<Rightarrow> word32 list" where
  "compress_round v kw =
     (case v of
        [a, b, c, d, e, f, g, h] \<Rightarrow>
          let t1 = h + big_sigma1 e + Ch e f g + fst kw + snd kw;
              t2 = big_sigma0 a + Maj a b c
          in [t1 + t2, a, b, c, d + t1, e, f, g]
      | _ \<Rightarrow> v)"

definition hash_block :: "word32 list \<Rightarrow> word32 list \<Rightarrow> word32 list" where
  "hash_block h block = map2 (+) h (foldl compress_round h (zip K256 (message_schedule block)))"

fun hash_blocks :: "nat \<Rightarrow> word32 list \<Rightarrow> word32 list \<Rightarrow> word32 list" where
  "hash_blocks 0 h ws = h"
| "hash_blocks (Suc n) h ws = hash_blocks n (hash_block h (take 16 ws)) (drop 16 ws)"

definition sha256_words :: "string \<Rightarrow> word32 list" where
  "sha256_words s =
     (let ws = words_of_bytes (pad_message (map ord s)) in hash_blocks (length ws div 16) H256 ws)"

definition sha256_hex :: "string \<Rightarrow> string" where
  "sha256_hex s = concat (map (\<lambda>w. hex_digits 8 (unat w)) (sha256_words s))"

text \<open>\<open>int(digest, 16)\<close>: the digest as one number.\<close>

definition sha256_int :: "string \<Rightarrow> nat" where
  "sha256_int s = foldl (\<lambda>n w. n * 2 ^ 32 + unat w) 0 (sha256_words s)"

lemma length_compress_round: "length v = 8 \<Longrightarrow> length (compress_round v kw) = 8"
  by (auto simp: compress_round_def Let_def length_Suc_conv numeral_eq_Suc)

lemma length_hash_block: "length h = 8 \<Longrightarrow> length (hash_block h b) = 8"
proof -
  assume h: "length h = 8"
  have "length (foldl compress_round v kws) = 8" if "length v = 8" for v kws
    using that by (induction kws arbitrary: v) (simp_all add: length_compress_round)
  then show ?thesis using h by (simp add: hash_block_def)
qed

lemma length_sha256_words: "length (sha256_words s) = 8"
proof -
  have "length (hash_blocks n h ws) = 8" if "length h = 8" for n h ws
    using that by (induction n h ws rule: hash_blocks.induct) (simp_all add: length_hash_block)
  then show ?thesis by (simp add: sha256_words_def Let_def length_H256)
qed

text \<open>A digest is 64 hexadecimal digits, so its prefixes have the length the callers cut.\<close>

lemma length_sha256_hex: "length (sha256_hex s) = 64"
proof -
  have "length (concat (map (\<lambda>w. hex_digits 8 (unat w)) ws)) = 8 * length ws" for ws :: "word32 list"
    by (induction ws) simp_all
  then show ?thesis by (simp add: sha256_hex_def length_sha256_words)
qed

end
