(* ===== verification/Py_Time.thy ===== *)
theory Py_Time
  imports Py_Text
begin

text \<open>
  Dates and datetimes of the Python standard library, as far as the application uses them:
  ordering, differences in days, the ISO 8601 printer, the reader of \<open>YYYY-MM-DD\<close> and the instant
  that two aware datetimes are compared by.  A time zone is a fixed offset in whole seconds;
  \<open>None\<close> is a naive datetime.
\<close>


section \<open>Dates\<close>

datatype date = Date (year: nat) (month: nat) (day: nat)

instantiation date :: linorder
begin

definition less_eq_date :: "date \<Rightarrow> date \<Rightarrow> bool" where
  "a \<le> b \<longleftrightarrow> year a < year b \<or> year a = year b \<and>
     (month a < month b \<or> month a = month b \<and> day a \<le> day b)"

definition less_date :: "date \<Rightarrow> date \<Rightarrow> bool" where
  "a < b \<longleftrightarrow> a \<le> b \<and> \<not> b \<le> (a::date)"

instance
  by standard (auto simp: less_eq_date_def less_date_def date.expand)

end

definition is_leap :: "nat \<Rightarrow> bool" where
  "is_leap y \<longleftrightarrow> y mod 4 = 0 \<and> (y mod 100 \<noteq> 0 \<or> y mod 400 = 0)"

definition days_in_month :: "nat \<Rightarrow> nat \<Rightarrow> nat" where
  "days_in_month y m =
     (if m = 2 then (if is_leap y then 29 else 28) else if m \<in> {4, 6, 9, 11} then 30 else 31)"

definition valid_date :: "date \<Rightarrow> bool" where
  "valid_date d \<longleftrightarrow> 1 \<le> year d \<and> year d \<le> 9999 \<and> 1 \<le> month d \<and> month d \<le> 12
     \<and> 1 \<le> day d \<and> day d \<le> days_in_month (year d) (month d)"

definition days_before_year :: "nat \<Rightarrow> nat" where
  "days_before_year y = (let p = y - 1 in p * 365 + p div 4 - p div 100 + p div 400)"

fun days_before_month :: "nat \<Rightarrow> nat \<Rightarrow> nat" where
  "days_before_month y 0 = 0"
| "days_before_month y (Suc m) = (if m = 0 then 0 else days_before_month y m + days_in_month y m)"

definition toordinal :: "date \<Rightarrow> int" where
  "toordinal d = int (days_before_year (year d) + days_before_month (year d) (month d) + day d)"

text \<open>\<open>(b - a).days\<close>\<close>

definition days_between :: "date \<Rightarrow> date \<Rightarrow> int" where
  "days_between a b = toordinal b - toordinal a"

definition zero_pad :: "nat \<Rightarrow> nat \<Rightarrow> string" where
  "zero_pad w n = replicate (w - length (nat_str n)) (CHR ''0'') @ nat_str n"

definition date_isoformat :: "date \<Rightarrow> string" where
  "date_isoformat d = zero_pad 4 (year d) @ ''-'' @ zero_pad 2 (month d) @ ''-'' @ zero_pad 2 (day d)"

text \<open>
  \<open>date.fromisoformat\<close> on the calendar form \<open>YYYY-MM-DD\<close>; \<open>None\<close> is \<open>ValueError\<close>.  The basic and
  the week forms that newer interpreters also read are not modelled: the only writer of the
  strings that are parsed is the price alert endpoint, whose schema admits \<open>YYYY-MM-DD\<close> alone.
\<close>

definition is_iso_date_shape :: "string \<Rightarrow> bool" where
  "is_iso_date_shape s \<longleftrightarrow>
     length s = 10 \<and> list_all is_digit (take 4 s) \<and> s ! 4 = CHR ''-''
     \<and> list_all is_digit (take 2 (drop 5 s)) \<and> s ! 7 = CHR ''-'' \<and> list_all is_digit (drop 8 s)"

definition date_fromisoformat :: "string \<Rightarrow> date option" where
  "date_fromisoformat s =
     (if is_iso_date_shape s then
        let d = Date (digits_value (take 4 s)) (digits_value (take 2 (drop 5 s))) (digits_value (drop 8 s))
        in if valid_date d then Some d else None
      else None)"

lemma days_in_month_pos: "28 \<le> days_in_month y m" "days_in_month y m \<le> 31"
  by (auto simp: days_in_month_def)

lemma days_before_month_mono:
  "m < n \<Longrightarrow> 1 \<le> m \<Longrightarrow> days_before_month y m + days_in_month y m \<le> days_before_month y n"
proof (induction n)
  case (Suc n)
  then show ?case by (cases "m = n") auto
qed simp

lemma days_before_month_12:
  "days_before_month y 12 = (if is_leap y then 335 else 334)"
  by (simp add: numeral_eq_Suc days_in_month_def)

lemma days_before_year_Suc:
  assumes "1 \<le> y"
  shows "days_before_year (Suc y) = days_before_year y + (if is_leap y then 366 else 365)"
proof -
  obtain p where y: "y = Suc p" using assms by (cases y) auto
  have *: "Suc p div k = p div k + (if Suc p mod k = 0 then 1 else 0)" for k
    by (simp add: div_Suc)
  obtain q where q: "p div 4 = p div 100 + q"
    using div_le_mono2 [of 4 100 p] le_Suc_ex by auto
  have 4: "Suc p mod 400 = 0 \<Longrightarrow> Suc p mod 100 = 0" "Suc p mod 100 = 0 \<Longrightarrow> Suc p mod 4 = 0"
    using dvd_trans [of 100 400 "Suc p"] dvd_trans [of 4 100 "Suc p"]
    by (simp_all only: mod_eq_0_iff_dvd) simp_all
  show ?thesis
  proof (cases "Suc p mod 4 = 0")
    case True
    then show ?thesis using 4
      unfolding is_leap_def days_before_year_def Let_def y
      by (simp add: * [of 4] * [of 100] * [of 400] q)
  next
    case False
    then have "Suc p mod 100 \<noteq> 0" "Suc p mod 400 \<noteq> 0" using 4 by metis+
    with False show ?thesis
      unfolding is_leap_def days_before_year_def Let_def y
      by (simp add: * [of 4] * [of 100] * [of 400] q)
  qed
qed

lemma days_before_year_mono: "y < z \<Longrightarrow> 1 \<le> y \<Longrightarrow>
   days_before_year y + (if is_leap y then 366 else 365) \<le> days_before_year z"
proof (induction z)
  case (Suc z)
  then show ?case by (cases "y = z") (auto simp: days_before_year_Suc)
qed simp

lemma day_of_year_bound:
  assumes "valid_date d"
  shows "days_before_month (year d) (month d) + day d \<le> (if is_leap (year d) then 366 else 365)"
proof (cases "month d = 12")
  case True
  with assms have "day d \<le> 31" by (auto simp: valid_date_def days_in_month_def)
  with True show ?thesis by (simp add: days_before_month_12)
next
  case False
  with assms have "month d < 12" "1 \<le> month d" "day d \<le> days_in_month (year d) (month d)"
    by (auto simp: valid_date_def)
  then show ?thesis
    using days_before_month_mono [of "month d" 12 "year d"]
    by (auto simp: days_before_month_12 split: if_splits)
qed

text \<open>The calendar order of valid dates is the order of their ordinals.\<close>

lemma toordinal_strict_mono:
  assumes "valid_date a" "valid_date b" "a < b"
  shows "toordinal a < toordinal b"
proof -
  have pos: "1 \<le> day b" "1 \<le> year a" "1 \<le> month a" using assms by (simp_all add: valid_date_def)
  consider "year a < year b" | "year a = year b" "month a < month b"
    | "year a = year b" "month a = month b" "day a < day b"
    using assms(3) by (auto simp: less_date_def less_eq_date_def)
  then show ?thesis
  proof cases
    case 1
    then show ?thesis
      using day_of_year_bound [OF assms(1)] days_before_year_mono [OF 1] pos
      by (simp add: toordinal_def)
  next
    case 2
    have "day a \<le> days_in_month (year a) (month a)" using assms by (simp add: valid_date_def)
    with 2 show ?thesis
      using days_before_month_mono [OF 2(2), of "year a"] pos by (simp add: toordinal_def)
  qed (simp add: toordinal_def)
qed

lemma days_between_pos: "valid_date a \<Longrightarrow> valid_date b \<Longrightarrow> a < b \<Longrightarrow> 1 \<le> days_between a b"
  using toordinal_strict_mono [of a b] by (simp add: days_between_def)

lemma length_zero_pad: "n < 10 ^ w \<Longrightarrow> 0 < w \<Longrightarrow> length (zero_pad w n) = w"
  using length_nat_str [of n w] by (simp add: zero_pad_def)

lemma digits_value_replicate_0 [simp]: "digits_value (replicate k (CHR ''0'') @ s) = digits_value s"
  by (induction k) (simp_all add: digits_value_def digit_val_def)

lemma digits_value_zero_pad [simp]: "digits_value (zero_pad w n) = n"
  by (simp add: zero_pad_def)

lemma zero_pad_digits: "list_all is_digit (zero_pad w n)"
  by (simp add: zero_pad_def nat_str_digits list_all_iff is_digit_def)
     (use nat_str_digits [of n] in \<open>auto simp: list_all_iff is_digit_def\<close>)

lemma date_round_trip:
  assumes "valid_date d" shows "date_fromisoformat (date_isoformat d) = Some d"
proof -
  have "day d \<le> 31" using assms days_in_month_pos [of "year d" "month d"]
    by (simp add: valid_date_def)
  with assms have len: "length (zero_pad 4 (year d)) = 4" "length (zero_pad 2 (month d)) = 2"
      "length (zero_pad 2 (day d)) = 2"
    by (simp_all add: valid_date_def length_zero_pad)
  define a b c where "a = zero_pad 4 (year d)" and "b = zero_pad 2 (month d)" and "c = zero_pad 2 (day d)"
  have abc: "date_isoformat d = a @ ''-'' @ b @ ''-'' @ c"
    by (simp add: date_isoformat_def a_def b_def c_def)
  have "is_iso_date_shape (a @ ''-'' @ b @ ''-'' @ c)"
    using len zero_pad_digits [of 4 "year d"] zero_pad_digits [of 2 "month d"] zero_pad_digits [of 2 "day d"]
    unfolding a_def [symmetric] b_def [symmetric] c_def [symmetric]
    by (simp add: is_iso_date_shape_def nth_append)
  then show ?thesis
    using len assms unfolding abc a_def [symmetric] b_def [symmetric] c_def [symmetric]
    by (simp add: date_fromisoformat_def) (simp add: a_def b_def c_def)
qed


section \<open>Datetimes\<close>

datatype datetime = Datetime (dt_date: date) (hour: nat) (minute: nat) (second: nat)
  (microsecond: nat) (utcoffset: "int option")

definition is_aware :: "datetime \<Rightarrow> bool" where
  "is_aware t \<longleftrightarrow> utcoffset t \<noteq> None"

text \<open>Microseconds since the day before 0001-01-01, on the UTC clock for an aware datetime.\<close>

definition instant :: "datetime \<Rightarrow> int" where
  "instant t =
     ((toordinal (dt_date t) * 86400 + int (hour t * 3600 + minute t * 60 + second t)
       - (case utcoffset t of None \<Rightarrow> 0 | Some o' \<Rightarrow> o')) * 1000000 + int (microsecond t))"

definition offset_isoformat :: "int \<Rightarrow> string" where
  "offset_isoformat s =
     (let a = nat \<bar>s\<bar>
      in (if s < 0 then ''-'' else ''+'') @ zero_pad 2 (a div 3600) @ '':'' @ zero_pad 2 (a div 60 mod 60)
         @ (if a mod 60 = 0 then [] else '':'' @ zero_pad 2 (a mod 60)))"

definition datetime_isoformat :: "datetime \<Rightarrow> string" where
  "datetime_isoformat t =
     date_isoformat (dt_date t) @ ''T'' @ zero_pad 2 (hour t) @ '':'' @ zero_pad 2 (minute t)
     @ '':'' @ zero_pad 2 (second t)
     @ (if microsecond t = 0 then [] else ''.'' @ zero_pad 6 (microsecond t))
     @ (case utcoffset t of None \<Rightarrow> [] | Some o' \<Rightarrow> offset_isoformat o')"


section \<open>Adding minutes\<close>

text \<open>The day after, within the years that \<open>date\<close> can hold.\<close>

definition next_day :: "date \<Rightarrow> date option" where
  "next_day d =
     (if day d < days_in_month (year d) (month d) then Some (Date (year d) (month d) (day d + 1))
      else if month d < 12 then Some (Date (year d) (month d + 1) 1)
      else if year d < 9999 then Some (Date (year d + 1) 1 1)
      else None)"

fun add_days :: "nat \<Rightarrow> date \<Rightarrow> date option" where
  "add_days 0 d = Some d"
| "add_days (Suc n) d = (case next_day d of None \<Rightarrow> None | Some d' \<Rightarrow> add_days n d')"

text \<open>\<open>t + timedelta(minutes=n)\<close>; \<open>None\<close> is \<open>OverflowError\<close>.\<close>

definition add_minutes :: "nat \<Rightarrow> datetime \<Rightarrow> datetime option" where
  "add_minutes n t =
     (let total = hour t * 60 + minute t + n
      in map_option
           (\<lambda>d. Datetime d (total mod 1440 div 60) (total mod 60) (second t) (microsecond t) (utcoffset t))
           (add_days (total div 1440) (dt_date t)))"

lemma next_day_ordinal:
  assumes "valid_date d" "next_day d = Some d'"
  shows "valid_date d' \<and> toordinal d' = toordinal d + 1"
proof -
  consider "day d < days_in_month (year d) (month d)" "d' = Date (year d) (month d) (day d + 1)"
    | "day d = days_in_month (year d) (month d)" "month d < 12" "d' = Date (year d) (month d + 1) 1"
    | "day d = days_in_month (year d) (month d)" "month d = 12" "year d < 9999" "d' = Date (year d + 1) 1 1"
    using assms by (auto simp: next_day_def valid_date_def split: if_splits)
  then show ?thesis
  proof cases
    case 1
    then show ?thesis using assms(1) by (auto simp: valid_date_def toordinal_def)
  next
    case 2
    then have "days_before_month (year d) (month d + 1) = days_before_month (year d) (month d) + days_in_month (year d) (month d)"
      using assms(1) by (simp add: valid_date_def)
    then show ?thesis using 2 assms(1) days_in_month_pos(1) [of "year d" "month d + 1"]
      by (auto simp: valid_date_def toordinal_def)
  next
    case 3
    have d: "day d = 31" using 3 by (simp add: days_in_month_def)
    have "days_before_year (year d + 1) = days_before_year (year d) + (if is_leap (year d) then 366 else 365)"
      using days_before_year_Suc [of "year d"] assms(1) by (simp add: valid_date_def)
    moreover have "days_in_month (year d + 1) 1 = 31" by (simp add: days_in_month_def)
    ultimately show ?thesis
      using 3 d assms(1) days_before_month_12 [of "year d"] by (auto simp: valid_date_def toordinal_def)
  qed
qed

lemma add_days_ordinal:
  "valid_date d \<Longrightarrow> add_days n d = Some d' \<Longrightarrow> valid_date d' \<and> toordinal d' = toordinal d + int n"
proof (induction n arbitrary: d)
  case (Suc n)
  then obtain e where e: "next_day d = Some e" "add_days n e = Some d'" by (auto split: option.splits)
  then show ?case using Suc.IH next_day_ordinal [OF Suc.prems(1) e(1)] by auto
qed simp

lemma add_minutes_instant:
  assumes "valid_date (dt_date t)" "add_minutes n t = Some t'"
  shows "instant t' = instant t + int n * 60000000 \<and> utcoffset t' = utcoffset t"
proof -
  let ?total = "hour t * 60 + minute t + n"
  obtain d where d: "add_days (?total div 1440) (dt_date t) = Some d"
    and t': "t' = Datetime d (?total mod 1440 div 60) (?total mod 60) (second t) (microsecond t) (utcoffset t)"
    using assms(2) by (auto simp: add_minutes_def Let_def)
  have o: "toordinal d = toordinal (dt_date t) + int (?total div 1440)"
    using add_days_ordinal [OF assms(1) d] by simp
  have "?total mod 60 = ?total mod 1440 mod 60" by (simp add: mod_mod_cancel)
  then have "(?total mod 1440 div 60) * 60 + ?total mod 60 = ?total mod 1440"
    by (metis div_mult_mod_eq)
  then have "?total div 1440 * 1440 + ((?total mod 1440 div 60) * 60 + ?total mod 60) = ?total"
    by (metis div_mult_mod_eq)
  then have "int (?total div 1440) * 86400 + int ((?total mod 1440 div 60) * 3600 + ?total mod 60 * 60)
      = int (hour t * 3600 + minute t * 60) + int n * 60"
    by linarith
  then show ?thesis by (simp add: t' instant_def o algebra_simps)
qed

text \<open>Less than two days from a date before the last two of the calendar is in range.\<close>

lemma add_days_before_9999:
  assumes "year d < 9999" "n \<le> 1" shows "\<exists>d'. add_days n d = Some d'"
  using assms by (cases n) (auto simp: next_day_def)

end
