(* ===== verification/Domain.thy ===== *)
theory Domain
  imports App_Errors Py_Time
begin

text \<open>
  The domain layer: \<^verbatim>\<open>app/domain/money.py\<close>, the normalized offers of
  \<^verbatim>\<open>app/domain/dto.py\<close> and the queries and provider ports of
  \<^verbatim>\<open>app/domain/ports.py\<close>.  A Pydantic model is a record; constructing one validates its
  fields and raises \<open>ValidationError\<close> (a \<open>ValueError\<close>) when a constraint fails.
\<close>


section \<open>Money\<close>

record money =
  amount_minor :: int
  currency :: string

definition ISO_4217_LEN :: nat where "ISO_4217_LEN = 3"

definition upper_currency :: "string \<Rightarrow> string result" where
  "upper_currency value =
     (if str_isalpha value then Inr (str_upper value)
      else Inl (ValueError ''currency must be a 3-letter ISO-4217 code''))"

definition Money :: "int \<Rightarrow> string \<Rightarrow> money result" where
  "Money amount cur =
     (if amount < 0 then Inl (ValueError ''amount_minor'')
      else if length cur \<noteq> ISO_4217_LEN then Inl (ValueError ''currency'')
      else bind_result (upper_currency cur) (\<lambda>c. Inr \<lparr>amount_minor = amount, currency = c\<rparr>))"

definition valid_money :: "money \<Rightarrow> bool" where
  "valid_money m \<longleftrightarrow> 0 \<le> amount_minor m \<and> length (currency m) = 3 \<and> list_all is_upper (currency m)"

definition as_decimal :: "money \<Rightarrow> pyfloat" where
  "as_decimal m = int_truediv (amount_minor m) 100"

text \<open>\<open>f"{x:.2f}"\<close>: the exact value of the float rounded to \<open>d\<close> decimals, ties to even.\<close>

definition format_fixed :: "nat \<Rightarrow> pyfloat \<Rightarrow> string" where
  "format_fixed d x =
     (let n = nat (round_half_even (\<bar>x\<bar> * 10 ^ d))
      in (if x < 0 then ''-'' else []) @ nat_str (n div 10 ^ d) @ ''.'' @ zero_pad d (n mod 10 ^ d))"

definition money_str :: "money \<Rightarrow> string" where
  "money_str m = format_fixed 2 (as_decimal m) @ '' '' @ currency m"

lemma is_upper_upper_char: "is_alpha c \<Longrightarrow> is_upper (upper_char c)"
  by (cases "is_lower c")
     (auto simp: is_alpha_def is_upper_def is_lower_def ord_upper_char upper_char_def)

lemma Money_valid: "Money a c = Inr m \<Longrightarrow> valid_money m"
  by (auto simp: Money_def upper_currency_def valid_money_def ISO_4217_LEN_def str_isalpha_def
      str_upper_def list_all_iff is_upper_upper_char split: if_splits)

lemma Money_accepts:
  "(\<exists>m. Money a c = Inr m) \<longleftrightarrow> 0 \<le> a \<and> length c = 3 \<and> str_isalpha c"
  by (auto simp: Money_def upper_currency_def ISO_4217_LEN_def)

text \<open>
  Printing goes through a float, but below \<open>2^52\<close> minor units the float is close enough to
  the exact amount for the two printed decimals to be the amount's own.
\<close>

lemma grid_exp_le:
  assumes "0 < x" "x < 2 powi k" "- 1021 \<le> k" shows "grid_exp x \<le> k - 53"
proof -
  have "(2::rat) powi (binexp x) < 2 powi k" using binexp_bounds [OF assms(1)] assms(2) by linarith
  then show ?thesis using assms(3) by (simp add: grid_exp_def)
qed

lemma round_cents:
  assumes "0 \<le> n" "n < 2 ^ 52"
  shows "round_half_even (int_truediv n 100 * 10 ^ 2) = n"
proof (cases "n = 0")
  case False
  define x :: rat where "x = of_int n / 100"
  have x: "0 < x" using False assms by (simp add: x_def)
  have "(of_int n :: rat) < 2 ^ 52" using assms(2) by (metis of_int_less_iff of_int_numeral of_int_power)
  then have "x < 2 powi 46" by (simp add: x_def)
  then have "grid_exp x \<le> - 7" using grid_exp_le [OF x, of 46] by simp
  then have "(2::rat) powi (grid_exp x) \<le> 2 powi (- 7)" by (simp only: powi2_le_iff)
  then have "\<bar>fl x - x\<bar> \<le> 1 / 256"
    using fl_error [OF x] by (simp add: power_int_minus)
  moreover have "of_int n = x * 100" by (simp add: x_def)
  ultimately have "\<bar>fl x * 100 - of_int n\<bar> < 1 / 2" by linarith
  then show ?thesis by (intro round_half_even_unique) (simp add: int_truediv_def x_def)
qed (simp add: int_truediv_def)

lemma format_cents:
  assumes "0 \<le> n" "n < 2 ^ 52"
  shows "format_fixed 2 (int_truediv n 100)
         = nat_str (nat n div 100) @ ''.'' @ zero_pad 2 (nat n mod 100)"
proof -
  have "0 \<le> int_truediv n 100" using assms by (simp add: int_truediv_def b64.rnd_nonneg)
  then show ?thesis using round_cents [OF assms] by (simp add: format_fixed_def Let_def)
qed


section \<open>Normalized offers\<close>

record NormalizedFlight =
  flight_id :: string
  flight_provider :: string
  airline :: string
  origin :: string
  destination :: string
  departure_time :: datetime
  arrival_time :: datetime
  duration_minutes :: int
  stops :: int
  cabin_class :: string
  price :: money

definition is_direct :: "NormalizedFlight \<Rightarrow> bool" where
  "is_direct f \<longleftrightarrow> stops f = 0"

definition valid_flight :: "NormalizedFlight \<Rightarrow> bool" where
  "valid_flight f \<longleftrightarrow>
     length (origin f) = 3 \<and> length (destination f) = 3 \<and> 0 < duration_minutes f
     \<and> 0 \<le> stops f \<and> valid_money (price f)"

text \<open>The Pydantic constructor of \<open>NormalizedFlight\<close> on fields of the right types.\<close>

definition validate_flight :: "NormalizedFlight \<Rightarrow> NormalizedFlight result" where
  "validate_flight f =
     (if length (origin f) \<noteq> 3 then Inl (ValueError ''origin'')
      else if length (destination f) \<noteq> 3 then Inl (ValueError ''destination'')
      else if \<not> 0 < duration_minutes f then Inl (ValueError ''duration_minutes'')
      else if \<not> 0 \<le> stops f then Inl (ValueError ''stops'')
      else Inr f)"

record NormalizedHotel =
  hotel_id :: string
  hotel_provider :: string
  hotel_name :: string
  city :: string
  rating :: pyfloat
  reviews_count :: int
  price_per_night :: money
  amenities :: "string list"

definition valid_hotel :: "NormalizedHotel \<Rightarrow> bool" where
  "valid_hotel h \<longleftrightarrow>
     0 \<le> rating h \<and> rating h \<le> 5 \<and> fl (rating h) = rating h \<and> 0 \<le> reviews_count h
     \<and> valid_money (price_per_night h)"

definition validate_hotel :: "NormalizedHotel \<Rightarrow> NormalizedHotel result" where
  "validate_hotel h =
     (if \<not> 0 \<le> rating h \<or> \<not> rating h \<le> 5 then Inl (ValueError ''rating'')
      else if \<not> 0 \<le> reviews_count h then Inl (ValueError ''reviews_count'')
      else Inr h)"

lemma validate_flight_valid:
  "validate_flight f = Inr g \<Longrightarrow> valid_money (price f) \<Longrightarrow> g = f \<and> valid_flight f"
  by (auto simp: validate_flight_def valid_flight_def split: if_splits)

lemma validate_hotel_valid:
  "validate_hotel h = Inr g \<Longrightarrow> valid_money (price_per_night h) \<Longrightarrow> fl (rating h) = rating h \<Longrightarrow>
   g = h \<and> valid_hotel h"
  by (auto simp: validate_hotel_def valid_hotel_def split: if_splits)


section \<open>Queries and provider ports\<close>

record FlightSearchQuery =
  q_origin :: string
  q_destination :: string
  q_departure_date :: date
  q_adults :: int
  q_cabin_class :: string

record HotelSearchQuery =
  q_city :: string
  q_check_in :: date
  q_check_out :: date
  q_guests :: int

definition nights :: "HotelSearchQuery \<Rightarrow> int" where
  "nights q = max 1 (days_between (q_check_in q) (q_check_out q))"

text \<open>A provider answers a query with its offers or raises.\<close>

record FlightProvider =
  fp_name :: string
  fp_search :: "FlightSearchQuery \<Rightarrow> NormalizedFlight list result"

record HotelProvider =
  hp_name :: string
  hp_search :: "HotelSearchQuery \<Rightarrow> NormalizedHotel list result"

end
