(* ===== verification/Sample_Providers.thy ===== *)
theory Sample_Providers
  imports Py_Random Py_Sha256 Domain
begin

text \<open>
  The sample providers that the shipped container uses: \<^verbatim>\<open>app/providers/sample_flights.py\<close> and
  \<^verbatim>\<open>app/providers/sample_hotels.py\<close>.  Their offers are drawn from a generator that is seeded with a
  hash of the query; every draw is made in the order of the code.
\<close>

definition gen_lift :: "'a result \<Rightarrow> ('g, 'a) gen" where
  "gen_lift r g = Some (r, g)"

lemma yields_lift [yields_rules]: "P x \<Longrightarrow> yields P (gen_lift (Inr x))"
  by (simp add: yields_def gen_lift_def)

text \<open>A loop over \<open>range(n)\<close> that appends one offer per index.\<close>

fun gen_each :: "(nat \<Rightarrow> ('g, 'a) gen) \<Rightarrow> nat list \<Rightarrow> ('g, 'a list) gen" where
  "gen_each f [] = gen_return []"
| "gen_each f (i # is) = gen_bind (f i) (\<lambda>x. gen_bind (gen_each f is) (\<lambda>xs. gen_return (x # xs)))"

lemma yields_each:
  assumes "\<And>i. yields (P i) (f i)"
  shows "yields (\<lambda>xs. list_all2 P is xs) (gen_each f is)"
proof (induction "is")
  case (Cons i "is")
  show ?case unfolding gen_each.simps
    by (rule yields_bind [OF assms [of i]], rule yields_bind [OF Cons], rule yields_return) simp
qed (simp add: yields_return)


section \<open>Flights\<close>

record SampleFlightProvider =
  sf_name :: string
  sf_airlines :: "string list"
  sf_base_price :: int

definition CABIN_MULTIPLIER :: "(string, pyfloat) dict" where
  "CABIN_MULTIPLIER = [(''economy'', 1), (''premium'', fl (8 / 5)), (''business'', fl (14 / 5)), (''first'', 9 / 2)]"

definition cabin_factor :: "string \<Rightarrow> pyfloat" where
  "cabin_factor cabin = (case dict_get CABIN_MULTIPLIER cabin of None \<Rightarrow> 1 | Some x \<Rightarrow> x)"

definition flight_seed :: "SampleFlightProvider \<Rightarrow> FlightSearchQuery \<Rightarrow> nat" where
  "flight_seed p q =
     sha256_int (sf_name p @ '':'' @ q_origin q @ '':'' @ q_destination q @ '':''
       @ date_isoformat (q_departure_date q) @ '':'' @ q_cabin_class q) mod 2 ^ 32"

definition flight_offer_id :: "SampleFlightProvider \<Rightarrow> FlightSearchQuery \<Rightarrow> nat \<Rightarrow> string" where
  "flight_offer_id p q index =
     ''fl_'' @ take 16 (sha256_hex (sf_name p @ '':'' @ q_origin q @ q_destination q @ '':''
       @ date_isoformat (q_departure_date q) @ '':'' @ nat_str index))"

definition sample_price :: "int \<Rightarrow> int \<Rightarrow> int \<Rightarrow> pyfloat \<Rightarrow> int" where
  "sample_price base duration n_stops factor =
     py_trunc (fmul (float_of_int (base + duration * 20 + n_stops * 1500)) factor)"

definition flight_offer ::
  "SampleFlightProvider \<Rightarrow> FlightSearchQuery \<Rightarrow> nat \<Rightarrow> string \<Rightarrow> int \<Rightarrow> int \<Rightarrow> datetime \<Rightarrow> datetime \<Rightarrow> int
   \<Rightarrow> NormalizedFlight result" where
  "flight_offer p q index air n_stops duration departure arrival extra =
     bind_result
       (Money (sample_price (sf_base_price p) duration n_stops (cabin_factor (q_cabin_class q)) + extra * q_adults q) ''USD'')
       (\<lambda>m. validate_flight
          \<lparr>flight_id = flight_offer_id p q index, flight_provider = sf_name p, airline = air,
           origin = q_origin q, destination = q_destination q, departure_time = departure,
           arrival_time = arrival, duration_minutes = duration, stops = n_stops,
           cabin_class = q_cabin_class q, price = m\<rparr>)"

definition sample_flight :: "'g rng \<Rightarrow> SampleFlightProvider \<Rightarrow> FlightSearchQuery \<Rightarrow> nat \<Rightarrow> ('g, NormalizedFlight) gen" where
  "sample_flight rng p q index =
     gen_bind (choice rng (sf_airlines p)) (\<lambda>air.
     gen_bind (choices_first rng [0, 1, 2] [6, 3, 1]) (\<lambda>n_stops.
     gen_bind (randint rng 5 21) (\<lambda>depart_hour.
     gen_bind (randint rng 90 240) (\<lambda>base_minutes.
     gen_bind (randint rng 45 120) (\<lambda>stop_minutes.
     gen_bind (choice rng [0, 15, 30, 45]) (\<lambda>mins.
       let duration = base_minutes + n_stops * stop_minutes;
           departure = Datetime (q_departure_date q) (nat depart_hour) mins 0 0 (Some 0)
       in case add_minutes (nat duration) departure of
            None \<Rightarrow> gen_raise (PyError ''OverflowError'' ''date value out of range'')
          | Some arrival \<Rightarrow>
              gen_bind (randint rng 0 4000) (\<lambda>extra.
                gen_lift (flight_offer p q index air n_stops duration departure arrival extra))))))))"

definition sample_flights :: "'g rng \<Rightarrow> SampleFlightProvider \<Rightarrow> FlightSearchQuery \<Rightarrow> ('g, NormalizedFlight list) gen" where
  "sample_flights rng p q =
     gen_bind (randint rng 3 6) (\<lambda>n. gen_each (sample_flight rng p q) [0..<nat n])"

text \<open>\<open>search\<close>; \<open>None\<close> when a rejection loop of the generator never ends.\<close>

definition sample_flight_search ::
  "'g rng \<Rightarrow> SampleFlightProvider \<Rightarrow> FlightSearchQuery \<Rightarrow> NormalizedFlight list result option" where
  "sample_flight_search rng p q = map_option fst (sample_flights rng p q (rng_seed rng (flight_seed p q)))"


section \<open>Hotels\<close>

record SampleHotelProvider =
  sh_name :: string
  sh_base_price :: int

definition NAMES :: "string list" where
  "NAMES = [''Grand'', ''Central'', ''Riverside'', ''Park'', ''Royal'', ''Harbor'', ''Old Town'', ''Skyline'']"

definition KINDS :: "string list" where
  "KINDS = [''Hotel'', ''Suites'', ''Inn'', ''Residence'', ''Boutique'']"

definition AMENITIES :: "string list" where
  "AMENITIES = [''wifi'', ''breakfast'', ''parking'', ''pool'', ''gym'', ''spa'', ''airport_shuttle'']"

definition hotel_seed :: "SampleHotelProvider \<Rightarrow> HotelSearchQuery \<Rightarrow> nat" where
  "hotel_seed p q =
     sha256_int (sh_name p @ '':'' @ q_city q @ '':'' @ date_isoformat (q_check_in q) @ '':''
       @ date_isoformat (q_check_out q) @ '':'' @ int_str (q_guests q)) mod 2 ^ 32"

definition hotel_offer_id :: "SampleHotelProvider \<Rightarrow> HotelSearchQuery \<Rightarrow> nat \<Rightarrow> string" where
  "hotel_offer_id p q index =
     ''ho_'' @ take 16 (sha256_hex (sh_name p @ '':'' @ q_city q @ '':'' @ date_isoformat (q_check_in q)
       @ '':'' @ nat_str index))"

definition hotel_offer ::
  "SampleHotelProvider \<Rightarrow> HotelSearchQuery \<Rightarrow> nat \<Rightarrow> pyfloat \<Rightarrow> int \<Rightarrow> int \<Rightarrow> string list \<Rightarrow> string \<Rightarrow> string \<Rightarrow> int
   \<Rightarrow> NormalizedHotel result" where
  "hotel_offer p q index stars extra per_guest chosen nm kind reviews =
     (let per_night = py_trunc (fadd (fadd (float_of_int (sh_base_price p)) (fmul stars 1200)) (float_of_int extra))
            + (q_guests q - 1) * per_guest
      in bind_result (Money per_night ''USD'') (\<lambda>m.
           validate_hotel
             \<lparr>hotel_id = hotel_offer_id p q index, hotel_provider = sh_name p, hotel_name = nm @ '' '' @ kind,
              city = q_city q, rating = stars, reviews_count = reviews, price_per_night = m,
              amenities = sort chosen\<rparr>))"

definition sample_hotel :: "'g rng \<Rightarrow> SampleHotelProvider \<Rightarrow> HotelSearchQuery \<Rightarrow> nat \<Rightarrow> ('g, NormalizedHotel) gen" where
  "sample_hotel rng p q index =
     gen_bind (uniform rng 3 5) (\<lambda>x.
     gen_bind (randint rng 0 5000) (\<lambda>extra.
     gen_bind (randint rng 500 1500) (\<lambda>per_guest.
     gen_bind (randint rng 2 5) (\<lambda>k.
     gen_bind (sample rng AMENITIES k) (\<lambda>chosen.
     gen_bind (choice rng NAMES) (\<lambda>nm.
     gen_bind (choice rng KINDS) (\<lambda>kind.
     gen_bind (randint rng 40 4000) (\<lambda>reviews.
       gen_lift (hotel_offer p q index (py_round 1 x) extra per_guest chosen nm kind reviews)))))))))"

definition sample_hotels :: "'g rng \<Rightarrow> SampleHotelProvider \<Rightarrow> HotelSearchQuery \<Rightarrow> ('g, NormalizedHotel list) gen" where
  "sample_hotels rng p q =
     gen_bind (randint rng 4 7) (\<lambda>n. gen_each (sample_hotel rng p q) [0..<nat n])"

definition sample_hotel_search ::
  "'g rng \<Rightarrow> SampleHotelProvider \<Rightarrow> HotelSearchQuery \<Rightarrow> NormalizedHotel list result option" where
  "sample_hotel_search rng p q = map_option fst (sample_hotels rng p q (rng_seed rng (hotel_seed p q)))"


section \<open>Prices\<close>

lemma one_le_cabin_factor: "1 \<le> cabin_factor cabin"
proof -
  have "1 \<le> fl (8 / 5)" "1 \<le> fl (14 / 5)" using fl_mono [of 1 "8 / 5"] fl_mono [of 1 "14 / 5"] by simp_all
  then show ?thesis by (auto simp: cabin_factor_def CABIN_MULTIPLIER_def)
qed

lemma py_trunc_ge: "of_int n \<le> x \<Longrightarrow> 0 \<le> n \<Longrightarrow> n \<le> py_trunc x"
  by (simp add: py_trunc_def le_floor_iff)

text \<open>The cabin never makes a fare cheaper than the undiscounted amount, float rounding included.\<close>

lemma sample_price_ge:
  assumes "0 \<le> base + duration * 20 + n * 1500" "base + duration * 20 + n * 1500 \<le> 2 ^ 53" "1 \<le> factor"
  shows "base + duration * 20 + n * 1500 \<le> sample_price base duration n factor"
proof -
  let ?n = "base + duration * 20 + n * 1500"
  have n: "float_of_int ?n = of_int ?n" using assms(1,2) unfolding float_of_int_def by (intro fl_of_int) simp
  have "(of_int ?n :: rat) \<le> of_int ?n * factor" using assms(1,3)
    by (metis mult.right_neutral mult_left_mono of_int_0_le_iff)
  then have "fl (of_int ?n) \<le> fl (of_int ?n * factor)" by (rule fl_mono)
  moreover have "fl (of_int ?n) = of_int ?n" using n by (simp only: float_of_int_def)
  ultimately show ?thesis unfolding sample_price_def n fmul_def by (intro py_trunc_ge assms(1)) simp
qed


section \<open>Properties\<close>

text \<open>What the query and the provider must be for the offers to be well formed.\<close>

definition bookable :: "SampleFlightProvider \<Rightarrow> FlightSearchQuery \<Rightarrow> bool" where
  "bookable p q \<longleftrightarrow> sf_airlines p \<noteq> [] \<and> 0 \<le> sf_base_price p \<and> sf_base_price p \<le> 10 ^ 9
     \<and> valid_date (q_departure_date q) \<and> year (q_departure_date q) < 9999
     \<and> length (q_origin q) = 3 \<and> length (q_destination q) = 3 \<and> 0 \<le> q_adults q"

definition sample_offer :: "SampleFlightProvider \<Rightarrow> FlightSearchQuery \<Rightarrow> nat \<Rightarrow> NormalizedFlight \<Rightarrow> bool" where
  "sample_offer p q i f \<longleftrightarrow>
     valid_flight f \<and> flight_id f = flight_offer_id p q i \<and> flight_provider f = sf_name p
     \<and> airline f \<in> set (sf_airlines p) \<and> origin f = q_origin q \<and> destination f = q_destination q
     \<and> cabin_class f = q_cabin_class q \<and> stops f \<in> {0, 1, 2} \<and> 90 \<le> duration_minutes f \<and> duration_minutes f \<le> 480
     \<and> dt_date (departure_time f) = q_departure_date q \<and> is_aware (departure_time f)
     \<and> instant (arrival_time f) = instant (departure_time f) + duration_minutes f * 60000000
     \<and> sf_base_price p + 20 * duration_minutes f \<le> amount_minor (price f)"

lemma yields_sample_flight:
  assumes rng: "rng_documented rng" and ok: "bookable p q"
  shows "yields (sample_offer p q i) (sample_flight rng p q i)"
  unfolding sample_flight_def
proof (intro yields_bind [OF yields_choice [OF rng]] yields_bind [OF yields_choices [OF rng]] yields_bind [OF yields_randint [OF rng]])
  fix air and n_stops :: int and h base_minutes stop_minutes :: int and mins :: nat
  assume air: "air \<in> set (sf_airlines p)" and n: "n_stops \<in> set [0, 1, 2]" and h: "5 \<le> h \<and> h \<le> 21"
    and b: "90 \<le> base_minutes \<and> base_minutes \<le> 240" and s: "45 \<le> stop_minutes \<and> stop_minutes \<le> 120"
    and m: "mins \<in> set [0, 15, 30, 45]"
  define duration where "duration = base_minutes + n_stops * stop_minutes"
  define departure where "departure = Datetime (q_departure_date q) (nat h) mins 0 0 (Some 0)"
  have d: "90 \<le> duration" "duration \<le> 480" using n b s by (auto simp: duration_def)
  have "nat h * 60 + mins + nat duration < 2880" using h m d by auto
  then have "(nat h * 60 + mins + nat duration) div 1440 \<le> 1" by linarith
  then obtain d' where "add_days ((nat h * 60 + mins + nat duration) div 1440) (q_departure_date q) = Some d'"
    using ok add_days_before_9999 [of "q_departure_date q"] unfolding bookable_def by blast
  then obtain arrival where a: "add_minutes (nat duration) departure = Some arrival"
    by (simp add: add_minutes_def departure_def Let_def)
  have arr: "instant arrival = instant departure + duration * 60000000"
    using add_minutes_instant [OF _ a] ok d by (simp add: departure_def bookable_def)
  let ?price = "\<lambda>extra. sample_price (sf_base_price p) duration n_stops (cabin_factor (q_cabin_class q)) + extra * q_adults q"
  have price: "sf_base_price p + 20 * duration \<le> ?price extra" if "0 \<le> extra" for extra
  proof -
    have "0 \<le> extra * q_adults q" using that ok by (simp add: bookable_def)
    moreover have "sf_base_price p + duration * 20 + n_stops * 1500
        \<le> sample_price (sf_base_price p) duration n_stops (cabin_factor (q_cabin_class q))"
      using ok d n by (intro sample_price_ge one_le_cabin_factor) (auto simp: bookable_def)
    moreover have "0 \<le> n_stops" using n by auto
    ultimately show ?thesis by linarith
  qed
  have offer: "yields (sample_offer p q i) (gen_lift (flight_offer p q i air n_stops duration departure arrival extra))"
    if "0 \<le> extra \<and> extra \<le> 4000" for extra
  proof -
    have p: "sf_base_price p + 20 * duration \<le> ?price extra" using that price by blast
    then have "0 \<le> ?price extra" using ok d by (simp add: bookable_def)
    then obtain mo where mo: "Money (?price extra) ''USD'' = Inr mo" "amount_minor mo = ?price extra"
      by (auto simp: Money_def upper_currency_def ISO_4217_LEN_def str_isalpha_def is_alpha_def is_upper_def)
    then show ?thesis
      using Money_valid [OF mo(1)] p ok d n air arr
      by (auto intro!: yields_lift simp: flight_offer_def validate_flight_def sample_offer_def valid_flight_def
          bookable_def departure_def is_aware_def)
  qed
  have "yields (sample_offer p q i) (gen_bind (randint rng 0 4000)
      (\<lambda>extra. gen_lift (flight_offer p q i air n_stops duration departure arrival extra)))"
    by (rule yields_bind [OF yields_randint [OF rng]]) (simp_all add: offer)
  then show "yields (sample_offer p q i)
     (let duration = base_minutes + n_stops * stop_minutes; departure = Datetime (q_departure_date q) (nat h) mins 0 0 (Some 0)
      in case add_minutes (nat duration) departure of None \<Rightarrow> gen_raise (PyError ''OverflowError'' ''date value out of range'')
       | Some arrival \<Rightarrow> gen_bind (randint rng 0 4000) (\<lambda>extra.
           gen_lift (flight_offer p q i air n_stops duration departure arrival extra)))"
    unfolding Let_def duration_def [symmetric] departure_def [symmetric] a option.case .
qed (use ok in \<open>simp_all add: bookable_def\<close>)

lemma sample_flight_search_ok:
  assumes "rng_documented rng" "bookable p q"
  shows "\<exists>fs. sample_flight_search rng p q = Some (Inr fs) \<and> 3 \<le> length fs \<and> length fs \<le> 6
    \<and> (\<forall>i < length fs. sample_offer p q i (fs ! i))"
proof -
  have "yields (\<lambda>fs. 3 \<le> length fs \<and> length fs \<le> 6 \<and> (\<forall>i < length fs. sample_offer p q i (fs ! i))) (sample_flights rng p q)"
    unfolding sample_flights_def
  proof (rule yields_bind [OF yields_randint [OF assms(1)]])
    fix n :: int assume n: "3 \<le> n \<and> n \<le> 6"
    show "yields (\<lambda>fs. 3 \<le> length fs \<and> length fs \<le> 6 \<and> (\<forall>i < length fs. sample_offer p q i (fs ! i)))
        (gen_each (sample_flight rng p q) [0..<nat n])"
      by (rule yields_weaken [OF yields_each [OF yields_sample_flight [OF assms]]])
         (use n in \<open>auto simp: list_all2_conv_all_nth\<close>)
  qed simp
  from yieldsD [OF this, of "rng_seed rng (flight_seed p q)"] show ?thesis
    by (auto simp: sample_flight_search_def)
qed


definition zero_rng :: "unit rng" where
  "zero_rng = \<lparr>rng_seed = (\<lambda>_. ()), rng_getrandbits = (\<lambda>b g. (0, g)), rng_random = (\<lambda>g. (0, g))\<rparr>"

lemma zero_rng_documented: "rng_documented zero_rng"
  by (simp add: rng_documented_def zero_rng_def)

definition skyfare :: SampleFlightProvider where
  "skyfare = \<lparr>sf_name = ''skyfare'', sf_airlines = [''Lufthansa'', ''KLM'', ''Emirates''], sf_base_price = 12000\<rparr>"

definition sample_query :: FlightSearchQuery where
  "sample_query = \<lparr>q_origin = ''THR'', q_destination = ''IST'', q_departure_date = Date 2026 8 10, q_adults = 1,
     q_cabin_class = ''economy''\<rparr>"

lemma sample_query_bookable: "bookable skyfare sample_query"
  by (simp add: bookable_def skyfare_def sample_query_def valid_date_def days_in_month_def)



section \<open>Hotel offers\<close>

definition sample_stay :: "SampleHotelProvider \<Rightarrow> HotelSearchQuery \<Rightarrow> nat \<Rightarrow> NormalizedHotel \<Rightarrow> bool" where
  "sample_stay p q i h \<longleftrightarrow>
     valid_hotel h \<and> hotel_id h = hotel_offer_id p q i \<and> hotel_provider h = sh_name p \<and> city h = q_city q
     \<and> 3 \<le> rating h \<and> 40 \<le> reviews_count h \<and> reviews_count h \<le> 4000
     \<and> sorted (amenities h) \<and> distinct (amenities h) \<and> set (amenities h) \<subseteq> set AMENITIES
     \<and> 2 \<le> length (amenities h) \<and> length (amenities h) \<le> 5"

lemma stars_range:
  assumes "3 \<le> x" "x \<le> 5" shows "3 \<le> py_round 1 x \<and> py_round 1 x \<le> 5 \<and> fl (py_round 1 x) = py_round 1 x"
proof -
  have "py_round 1 3 = 3" "py_round 1 5 = 5"
    using fl_of_int [of 3] fl_of_int [of 5] by (simp_all add: py_round_def)
  moreover have "py_round 1 3 \<le> py_round 1 x" "py_round 1 x \<le> py_round 1 5"
    using assms b64.rnd_decimal_mono [of 3 x 1] b64.rnd_decimal_mono [of x 5 1] by (simp_all only: py_round_def)
  ultimately show ?thesis by (simp add: py_round_def)
qed

lemma py_trunc_nonneg: "0 \<le> x \<Longrightarrow> 0 \<le> py_trunc x"
  by (simp add: py_trunc_def)

lemma sub_mset_distinct: "mset xs \<subseteq># mset ys \<Longrightarrow> distinct ys \<Longrightarrow> distinct xs \<and> set xs \<subseteq> set ys"
proof -
  assume sub: "mset xs \<subseteq># mset ys" and d: "distinct ys"
  have "count (mset xs) a \<le> (if a \<in> set ys then 1 else 0)" for a
    using mset_subset_eq_count [OF sub, of a] d by (simp add: distinct_count_atmost_1)
  then have "count (mset xs) a = (if a \<in> set xs then 1 else 0)" for a
    by (metis count_eq_zero_iff count_greater_zero_iff le_antisym le_zero_eq less_one not_less set_mset_mset)
  moreover have "set xs \<subseteq> set ys" using set_mset_mono [OF sub] by simp
  ultimately show ?thesis by (simp add: distinct_count_atmost_1)
qed

lemma hotel_offer_ok:
  assumes "0 \<le> sh_base_price p" "1 \<le> q_guests q" and st: "3 \<le> stars" "stars \<le> 5" "fl stars = stars"
    and "0 \<le> extra" "0 \<le> per_guest" and "2 \<le> length chosen" "length chosen \<le> 5" "mset chosen \<subseteq># mset AMENITIES"
    and "40 \<le> reviews" "reviews \<le> 4000"
  shows "\<exists>h. hotel_offer p q i stars extra per_guest chosen nm kind reviews = Inr h \<and> sample_stay p q i h"
proof -
  let ?price = "py_trunc (fadd (fadd (float_of_int (sh_base_price p)) (fmul stars 1200)) (float_of_int extra))
      + (q_guests q - 1) * per_guest"
  have "0 \<le> float_of_int (sh_base_price p)" "0 \<le> float_of_int extra" "0 \<le> fmul stars 1200"
    using assms by (simp_all add: float_of_int_def fmul_def b64.rnd_nonneg)
  then have "0 \<le> fadd (fadd (float_of_int (sh_base_price p)) (fmul stars 1200)) (float_of_int extra)"
    by (simp add: fadd_def b64.rnd_nonneg)
  then have "0 \<le> ?price" using assms(2,7) py_trunc_nonneg by simp
  then obtain mo where mo: "Money ?price ''USD'' = Inr mo"
    by (auto simp: Money_def upper_currency_def ISO_4217_LEN_def str_isalpha_def is_alpha_def is_upper_def)
  have "distinct AMENITIES" by code_simp
  then show ?thesis
    using mo Money_valid [OF mo] assms sub_mset_distinct [OF assms(10)]
    by (simp add: hotel_offer_def Let_def validate_hotel_def sample_stay_def valid_hotel_def)
qed

lemma yields_sample_hotel:
  assumes rng: "rng_documented rng" and ok: "0 \<le> sh_base_price p" "1 \<le> q_guests q"
  shows "yields (sample_stay p q i) (sample_hotel rng p q i)"
  unfolding sample_hotel_def
proof (intro yields_bind [OF yields_uniform [OF rng, of 3 5, simplified]] yields_bind [OF yields_sample [OF rng]]
    yields_bind [OF yields_choice [OF rng]] yields_bind [OF yields_randint [OF rng]])
  fix x :: pyfloat and extra per_guest k :: int and chosen nm kind reviews
  assume "3 \<le> x \<and> x \<le> 5" and "0 \<le> extra \<and> extra \<le> 5000" "500 \<le> per_guest \<and> per_guest \<le> 1500" "2 \<le> k \<and> k \<le> 5"
    "int (length chosen) = k \<and> mset chosen \<subseteq># mset AMENITIES" "40 \<le> reviews \<and> reviews \<le> (4000 :: int)"
  then show "yields (sample_stay p q i)
      (gen_lift (hotel_offer p q i (py_round 1 x) extra per_guest chosen nm kind reviews))"
    using hotel_offer_ok [OF ok, of "py_round 1 x" extra per_guest chosen reviews i nm kind] stars_range [of x]
    by (auto intro: yields_lift)
qed (simp_all add: AMENITIES_def NAMES_def KINDS_def)

text \<open>
  A sample hotel search ends and never raises either: four to seven stays in the city asked for, each
  meeting the constraints of the DTO, rated at least three, with two to five different known amenities in
  sorted order.
\<close>

lemma sample_hotel_search_returns:
  assumes "rng_documented rng" and "0 \<le> sh_base_price p" and "1 \<le> q_guests q"
  shows "\<exists>hs. sample_hotel_search rng p q = Some (Inr hs) \<and> 4 \<le> length hs \<and> length hs \<le> 7
    \<and> (\<forall>i < length hs. sample_stay p q i (hs ! i))"
proof -
  have "yields (\<lambda>hs. 4 \<le> length hs \<and> length hs \<le> 7 \<and> (\<forall>i < length hs. sample_stay p q i (hs ! i))) (sample_hotels rng p q)"
    unfolding sample_hotels_def
  proof (rule yields_bind [OF yields_randint [OF assms(1)]])
    fix n :: int assume n: "4 \<le> n \<and> n \<le> 7"
    show "yields (\<lambda>hs. 4 \<le> length hs \<and> length hs \<le> 7 \<and> (\<forall>i < length hs. sample_stay p q i (hs ! i)))
        (gen_each (sample_hotel rng p q) [0..<nat n])"
      by (rule yields_weaken [OF yields_each [OF yields_sample_hotel [OF assms]]])
         (use n in \<open>auto simp: list_all2_conv_all_nth\<close>)
  qed simp
  from yieldsD [OF this, of "rng_seed rng (hotel_seed p q)"] show ?thesis
    by (auto simp: sample_hotel_search_def)
qed

lemma sample_hotel_search_returns_example:
  "\<exists>hs. sample_hotel_search zero_rng \<lparr>sh_name = ''roomhub'', sh_base_price = 6500\<rparr>
      \<lparr>q_city = ''Rome'', q_check_in = Date 2026 8 10, q_check_out = Date 2026 8 12, q_guests = 2\<rparr> = Some (Inr hs)
    \<and> 4 \<le> length hs"
  using sample_hotel_search_returns [OF zero_rng_documented, of "\<lparr>sh_name = ''roomhub'', sh_base_price = 6500\<rparr>"
      "\<lparr>q_city = ''Rome'', q_check_in = Date 2026 8 10, q_check_out = Date 2026 8 12, q_guests = 2\<rparr>"] by auto

end
