(* ===== verification/Pagination.thy ===== *)
theory Pagination
  imports Py_Text
begin

text \<open>
  The opaque cursors of \<^verbatim>\<open>app/services/pagination.py\<close>: an offset printed in decimal and
  encoded in the URL-safe base64 alphabet.  The decoder follows \<open>binascii.a2b_base64\<close> in its
  non-strict mode, which skips characters outside the alphabet and stops at a complete padding;
  then \<open>bytes.decode\<close> and \<open>int\<close>.  Decoded bytes of 128 and above are read as a decoding error
  (text is ASCII in this development).
\<close>


section \<open>Base64\<close>

definition b64_char :: "nat \<Rightarrow> char" where
  "b64_char v =
     (if v < 26 then char_of (65 + v)
      else if v < 52 then char_of (71 + v)
      else if v < 62 then char_of (v - 4)
      else if v = 62 then CHR ''-'' else CHR ''_'')"

text \<open>The value of a character after the translation of \<open>-_\<close> to \<open>+/\<close>.\<close>

definition b64_val :: "char \<Rightarrow> nat option" where
  "b64_val c =
     (if is_upper c then Some (ord c - 65)
      else if is_lower c then Some (ord c - 71)
      else if is_digit c then Some (ord c + 4)
      else if c = CHR ''-'' \<or> c = CHR ''+'' then Some 62
      else if c = CHR ''_'' \<or> c = CHR ''/'' then Some 63
      else None)"

fun urlsafe_b64encode :: "nat list \<Rightarrow> string" where
  "urlsafe_b64encode (x # y # z # bs) =
     b64_char (x div 4) # b64_char (x mod 4 * 16 + y div 16)
     # b64_char (y mod 16 * 4 + z div 64) # b64_char (z mod 64) # urlsafe_b64encode bs"
| "urlsafe_b64encode [x, y] =
     [b64_char (x div 4), b64_char (x mod 4 * 16 + y div 16), b64_char (y mod 16 * 4), CHR ''='']"
| "urlsafe_b64encode [x] = [b64_char (x div 4), b64_char (x mod 4 * 16), CHR ''='', CHR ''='']"
| "urlsafe_b64encode [] = []"

text \<open>
  \<open>a2b quad left pads s\<close>: \<open>quad\<close> characters of the current group were read, \<open>left\<close> holds the bits
  not yet emitted, \<open>pads\<close> counts consecutive padding characters.  \<open>None\<close> is \<open>binascii.Error\<close>.
\<close>

fun a2b :: "nat \<Rightarrow> nat \<Rightarrow> nat \<Rightarrow> string \<Rightarrow> nat list option" where
  "a2b quad left pads [] = (if quad = 0 then Some [] else None)"
| "a2b quad left pads (c # cs) =
     (if c = CHR ''='' then
        (if 2 \<le> quad then
           (if 4 \<le> quad + Suc pads then Some [] else a2b quad left (Suc pads) cs)
         else a2b quad left pads cs)
      else case b64_val c of
        None \<Rightarrow> a2b quad left pads cs
      | Some v \<Rightarrow>
          if quad = 0 then a2b 1 v 0 cs
          else if quad = 1 then map_option ((#) (left * 4 + v div 16)) (a2b 2 (v mod 16) 0 cs)
          else if quad = 2 then map_option ((#) (left * 16 + v div 4)) (a2b 3 (v mod 4) 0 cs)
          else map_option ((#) (left * 64 + v)) (a2b 0 0 0 cs))"

definition urlsafe_b64decode :: "string \<Rightarrow> nat list option" where
  "urlsafe_b64decode s = a2b 0 0 0 s"

definition ascii_encode :: "string \<Rightarrow> nat list" where
  "ascii_encode s = map ord s"

definition ascii_decode :: "nat list \<Rightarrow> string option" where
  "ascii_decode bs = (if list_all (\<lambda>b. b < 128) bs then Some (map char_of bs) else None)"


section \<open>Cursors\<close>

definition encode_cursor :: "int \<Rightarrow> string" where
  "encode_cursor offset = urlsafe_b64encode (ascii_encode (int_str offset))"

definition decode_cursor :: "string option \<Rightarrow> int" where
  "decode_cursor cursor =
     (case cursor of
        None \<Rightarrow> 0
      | Some c \<Rightarrow>
          if c = [] then 0
          else (case Option.bind (Option.bind (urlsafe_b64decode c) ascii_decode) py_int of
                  None \<Rightarrow> 0
                | Some offset \<Rightarrow> max 0 offset))"

lemma b64_val_char [simp]: "v < 64 \<Longrightarrow> b64_val (b64_char v) = Some v"
  by (auto simp: b64_char_def b64_val_def is_upper_def is_lower_def is_digit_def)

lemma b64_char_not_pad [simp]: "v < 64 \<Longrightarrow> b64_char v \<noteq> CHR ''=''"
  using b64_val_char [of v] by (auto simp: b64_val_def is_upper_def is_lower_def is_digit_def)

lemma a2b_encode:
  "list_all (\<lambda>b. b < 256) bs \<Longrightarrow> a2b 0 0 0 (urlsafe_b64encode bs) = Some bs"
proof (induction bs rule: urlsafe_b64encode.induct)
  case (1 x y z bs)
  then have "x div 4 < 64" "x mod 4 * 16 + y div 16 < 64" "y mod 16 * 4 + z div 64 < 64" "z mod 64 < 64"
    and "y div 16 < 16" "z div 64 < 4"
    by auto
  with 1 show ?case by simp
next
  case (2 x y)
  then have "x div 4 < 64" "x mod 4 * 16 + y div 16 < 64" "y mod 16 * 4 < 64" "y div 16 < 16" by auto
  with 2 show ?case by simp
next
  case (3 x)
  then have "x div 4 < 64" "x mod 4 * 16 < 64" by auto
  with 3 show ?case by simp
qed simp

lemma int_str_ascii: "list_all (\<lambda>c. ord c < 128) (int_str i)"
proof -
  have "list_all (\<lambda>c. ord c < 128) (nat_str n)" for n
    using nat_str_digits [of n] by (rule list.pred_mono_strong) (simp add: is_digit_def)
  then show ?thesis by (simp add: int_str_def)
qed

lemma ascii_round_trip:
  "list_all (\<lambda>c. ord c < 128) s \<Longrightarrow> ascii_decode (ascii_encode s) = Some s"
  by (simp add: ascii_decode_def ascii_encode_def list.pred_map comp_def)

lemma urlsafe_b64_round_trip:
  "list_all (\<lambda>b. b < 256) bs \<Longrightarrow> urlsafe_b64decode (urlsafe_b64encode bs) = Some bs"
  by (simp add: urlsafe_b64decode_def a2b_encode)

lemma urlsafe_b64encode_nonempty: "bs \<noteq> [] \<Longrightarrow> urlsafe_b64encode bs \<noteq> []"
  by (induction bs rule: urlsafe_b64encode.induct) auto

lemma encode_cursor_nonempty [simp]: "encode_cursor n \<noteq> []"
  by (simp add: encode_cursor_def urlsafe_b64encode_nonempty ascii_encode_def int_str_def)

lemma cursor_payload:
  "Option.bind (urlsafe_b64decode (encode_cursor n)) ascii_decode = Some (int_str n)"
proof -
  have "list_all (\<lambda>b. b < 256) (ascii_encode (int_str n))"
    using int_str_ascii [of n] by (auto simp: ascii_encode_def list_all_iff)
  then show ?thesis
    by (simp add: encode_cursor_def urlsafe_b64_round_trip ascii_round_trip int_str_ascii)
qed

lemma decode_encode_cursor:
  "\<bar>n\<bar> < 10 ^ max_str_digits \<Longrightarrow> decode_cursor (Some (encode_cursor n)) = max 0 n"
  by (simp add: decode_cursor_def cursor_payload py_int_int_str)

lemma decode_cursor_nonneg: "0 \<le> decode_cursor c"
  by (simp add: decode_cursor_def split: option.split)

lemma decode_cursor_default [simp]: "decode_cursor None = 0" "decode_cursor (Some []) = 0"
  by (simp_all add: decode_cursor_def)


section \<open>Properties\<close>

text \<open>
  C7: the cursor of an offset decodes to that offset, and decoding is total: a missing, empty or
  arbitrary cursor string gives some offset that is never negative.
\<close>

theorem cursor_round_trip:
  assumes "0 \<le> n" and "n < 10 ^ max_str_digits"
  shows "decode_cursor (Some (encode_cursor n)) = n \<and> 0 \<le> decode_cursor c \<and> decode_cursor None = 0"
  using assms decode_encode_cursor [of n] decode_cursor_nonneg [of c] by simp

theorem cursor_round_trip_witness: "decode_cursor (Some (encode_cursor 20)) = 20"
proof -
  have "(20::int) < 10 ^ 2" by simp
  also have "(10::int) ^ 2 \<le> 10 ^ max_str_digits"
    by (rule power_increasing) (simp_all add: max_str_digits_def)
  finally show ?thesis using cursor_round_trip [of 20] by simp
qed

end
