(* ===== verification/Aggregation_Core.thy ===== *)
theory Aggregation_Core
  imports Domain Pagination
begin

text \<open>
  What the flight and the hotel aggregation share: merging the answers of the providers,
  keeping the cheapest offer of each key, and cutting one page out of the ordered result.  The
  two services contain the same loops over different records, so their common facts are proved
  here once, in the locale \<open>cheapest_offer\<close> and in the locale \<open>cursor_codec\<close>.
\<close>

record SearchMeta =
  degraded :: bool
  providers_ok :: int
  providers_failed :: int
  total :: int


section \<open>Merging provider answers\<close>

text \<open>
  The loop over the gathered results: an exception counts as a failed provider, an answer as
  a successful one, and its offers are appended.
\<close>

definition merge_step :: "'a list \<times> int \<times> int \<Rightarrow> 'a list result \<Rightarrow> 'a list \<times> int \<times> int" where
  "merge_step acc r =
     (case acc of (offers, ok, failed) \<Rightarrow>
        (case r of Inl e \<Rightarrow> (offers, ok, failed + 1) | Inr xs \<Rightarrow> (offers @ xs, ok + 1, failed)))"

definition merge_results :: "'a list result list \<Rightarrow> 'a list \<times> int \<times> int" where
  "merge_results rs = foldl merge_step ([], 0, 0) rs"

definition is_failure :: "'a result \<Rightarrow> bool" where
  "is_failure r = (case r of Inl _ \<Rightarrow> True | Inr _ \<Rightarrow> False)"

definition answer :: "'a list result \<Rightarrow> 'a list" where
  "answer r = (case r of Inl _ \<Rightarrow> [] | Inr xs \<Rightarrow> xs)"

lemma merge_results_eq:
  "merge_results rs =
     (concat (map answer rs), int (length (filter (\<lambda>r. \<not> is_failure r) rs)),
      int (length (filter is_failure rs)))"
proof -
  have "foldl merge_step (xs, ok, failed) rs =
     (xs @ concat (map answer rs), ok + int (length (filter (\<lambda>r. \<not> is_failure r) rs)),
      failed + int (length (filter is_failure rs)))" for xs ok failed
    by (induction rs arbitrary: xs ok failed)
       (auto simp: merge_step_def is_failure_def answer_def split: sum.split)
  from this [of "[]" 0 0] show ?thesis by (simp add: merge_results_def)
qed

lemma merge_results_counts:
  assumes "merge_results rs = (offers, ok, failed)"
  shows "ok + failed = int (length rs)" "0 \<le> ok" "0 \<le> failed"
    and "0 < failed \<longleftrightarrow> (\<exists>r \<in> set rs. is_failure r)"
proof -
  have "length (filter (\<lambda>r. \<not> is_failure r) rs) + length (filter is_failure rs) = length rs"
    by (induction rs) auto
  then show "ok + failed = int (length rs)"
    using assms by (auto simp: merge_results_eq simp flip: of_nat_add)
  show "0 \<le> ok" "0 \<le> failed" "0 < failed \<longleftrightarrow> (\<exists>r \<in> set rs. is_failure r)"
    using assms by (auto simp: merge_results_eq filter_empty_conv)
qed


section \<open>Keeping the cheapest offer\<close>

text \<open>The distinct elements of a list in the order of their first occurrence.\<close>

definition first_occurrences :: "'a list \<Rightarrow> 'a list" where
  "first_occurrences xs = rev (remdups (rev xs))"

lemma first_occurrences_Nil [simp]: "first_occurrences [] = []"
  by (simp add: first_occurrences_def)

lemma first_occurrences_snoc:
  "first_occurrences (xs @ [x])
   = (if x \<in> set xs then first_occurrences xs else first_occurrences xs @ [x])"
  by (simp add: first_occurrences_def)

lemma set_first_occurrences [simp]: "set (first_occurrences xs) = set xs"
  and distinct_first_occurrences [simp]: "distinct (first_occurrences xs)"
  by (simp_all add: first_occurrences_def)

text \<open>The first offer of least cost.\<close>

definition first_cheapest :: "('a \<Rightarrow> int) \<Rightarrow> 'a list \<Rightarrow> 'a" where
  "first_cheapest cost xs = foldl (\<lambda>m y. if cost y < cost m then y else m) (hd xs) (tl xs)"

lemma first_cheapest_single [simp]: "first_cheapest cost [x] = x"
  by (simp add: first_cheapest_def)

lemma first_cheapest_snoc:
  "xs \<noteq> [] \<Longrightarrow> first_cheapest cost (xs @ [y])
     = (if cost y < cost (first_cheapest cost xs) then y else first_cheapest cost xs)"
  by (simp add: first_cheapest_def)

lemma first_cheapest_least:
  "xs \<noteq> [] \<Longrightarrow> first_cheapest cost xs \<in> set xs \<and> (\<forall>x \<in> set xs. cost (first_cheapest cost xs) \<le> cost x)"
proof (induction xs rule: rev_induct)
  case (snoc y ys)
  then show ?case by (cases "ys = []") (auto simp: first_cheapest_snoc)
qed simp

text \<open>
  The contract of the de-duplication loop: it goes through the offers with a dictionary from keys
  to the best offer so far.
\<close>

locale cheapest_offer =
  fixes key :: "'a \<Rightarrow> 'k" and cost :: "'a \<Rightarrow> int"
    and step :: "('k, 'a) dict \<Rightarrow> 'a \<Rightarrow> ('k, 'a) dict"
    and dedupe :: "'a list \<Rightarrow> 'a list"
  assumes step_new: "dict_get best (key x) = None \<Longrightarrow> step best x = dict_set (key x) x best"
    and step_cheaper: "dict_get best (key x) = Some e \<Longrightarrow> cost x < cost e \<Longrightarrow>
           step best x = dict_set (key x) x best"
    and step_keep: "dict_get best (key x) = Some e \<Longrightarrow> \<not> cost x < cost e \<Longrightarrow> step best x = best"
    and dedupe_loop: "dedupe xs = dict_values (foldl step [] xs)"
begin

lemma loop_invariant:
  "dict_keys (foldl step [] xs) = first_occurrences (map key xs)
   \<and> (\<forall>k \<in> key ` set xs. dict_get (foldl step [] xs) k
        = Some (first_cheapest cost (filter (\<lambda>x. key x = k) xs)))"
proof (induction xs rule: rev_induct)
  case (snoc x xs)
  let ?best = "foldl step [] xs" and ?same = "filter (\<lambda>y. key y = key x) xs"
  from snoc have keys: "dict_keys ?best = first_occurrences (map key xs)"
    and vals: "\<And>k. k \<in> key ` set xs \<Longrightarrow>
      dict_get ?best k = Some (first_cheapest cost (filter (\<lambda>x. key x = k) xs))" by auto
  show ?case
  proof (cases "key x \<in> key ` set xs")
    case False
    then have none: "dict_get ?best (key x) = None"
      using keys by (simp add: map_of_eq_None_iff flip: set_map)
    have empty: "?same = []" using False by (intro filter_False) (metis imageI)
    have "key x \<notin> set (dict_keys ?best)" using False by (simp add: keys)
    then show ?thesis
      using none keys False empty by (auto simp: step_new dict_keys_set first_occurrences_snoc vals)
  next
    case True
    then have some: "dict_get ?best (key x) = Some (first_cheapest cost ?same)" by (rule vals)
    have ne: "?same \<noteq> []" using True by (auto simp: filter_empty_conv)
    define m where "m = first_cheapest cost ?same"
    have step: "step ?best x = (if cost x < cost m then dict_set (key x) x ?best else ?best)"
      using some by (simp add: step_cheaper step_keep m_def)
    have "key x \<in> set (dict_keys ?best)" using True by (simp add: keys)
    then have "dict_keys (step ?best x) = first_occurrences (map key (xs @ [x]))"
      using True by (simp add: step dict_keys_set first_occurrences_snoc keys)
    moreover have "dict_get (step ?best x) k
        = Some (first_cheapest cost (filter (\<lambda>y. key y = k) (xs @ [x])))"
      if "k \<in> key ` set (xs @ [x])" for k
    proof (cases "k = key x")
      case True
      with some show ?thesis
        using ne by (simp add: step first_cheapest_snoc flip: m_def)
    next
      case False
      then show ?thesis using that vals [of k] by (auto simp: step)
    qed
    ultimately show ?thesis by simp
  qed
qed simp

text \<open>
  The loop computes, for every key in the order of its first offer, the first cheapest offer.
\<close>

lemma dedupe_eq:
  "dedupe xs = map (\<lambda>k. first_cheapest cost (filter (\<lambda>x. key x = k) xs)) (first_occurrences (map key xs))"
proof -
  let ?best = "foldl step [] xs"
  have keys: "dict_keys ?best = first_occurrences (map key xs)"
    and vals: "\<And>k. k \<in> key ` set xs \<Longrightarrow>
      dict_get ?best k = Some (first_cheapest cost (filter (\<lambda>x. key x = k) xs))"
    using loop_invariant [of xs] by auto
  have dist: "distinct (dict_keys ?best)" by (simp add: keys)
  have "snd kv = first_cheapest cost (filter (\<lambda>x. key x = fst kv) xs)" if "kv \<in> set ?best" for kv
  proof -
    have "fst kv \<in> set (dict_keys ?best)" using that by simp
    then have "fst kv \<in> key ` set xs" by (simp only: keys set_first_occurrences set_map)
    moreover have "dict_get ?best (fst kv) = Some (snd kv)"
      using that dist by (simp add: map_of_eq_Some_iff)
    ultimately show ?thesis using vals by simp
  qed
  then have "dict_values ?best
             = map (\<lambda>k. first_cheapest cost (filter (\<lambda>x. key x = k) xs)) (dict_keys ?best)"
    by simp
  then show ?thesis by (simp only: dedupe_loop keys)
qed

lemma same_key_nonempty: "k \<in> key ` set xs \<Longrightarrow> filter (\<lambda>x. key x = k) xs \<noteq> []"
  by (auto simp: filter_empty_conv)

lemma dedupe_least:
  assumes "y \<in> set (dedupe xs)"
  shows "y \<in> set xs" and "x \<in> set xs \<Longrightarrow> key x = key y \<Longrightarrow> cost y \<le> cost x"
proof -
  from assms obtain k where k: "k \<in> key ` set xs"
    and y: "y = first_cheapest cost (filter (\<lambda>x. key x = k) xs)" by (auto simp: dedupe_eq)
  note least = first_cheapest_least [OF same_key_nonempty [OF k], of cost]
  show "y \<in> set xs" using least y by auto
  show "x \<in> set xs \<Longrightarrow> key x = key y \<Longrightarrow> cost y \<le> cost x" using least y by auto
qed

lemma key_first_cheapest:
  "k \<in> key ` set xs \<Longrightarrow> key (first_cheapest cost (filter (\<lambda>x. key x = k) xs)) = k"
  using first_cheapest_least [OF same_key_nonempty, of k xs cost] by auto

lemma dedupe_keys: "map key (dedupe xs) = first_occurrences (map key xs)"
  by (simp add: dedupe_eq) (rule map_idI, simp add: key_first_cheapest)

lemma dedupe_distinct: "distinct (map key (dedupe xs))"
  by (simp add: dedupe_keys)

lemma dedupe_covers: "x \<in> set xs \<Longrightarrow> \<exists>y \<in> set (dedupe xs). key y = key x \<and> cost y \<le> cost x"
proof -
  assume x: "x \<in> set xs"
  then have "key x \<in> set (map key (dedupe xs))" by (simp add: dedupe_keys)
  then obtain y where "y \<in> set (dedupe xs)" "key y = key x" by auto
  with x show ?thesis using dedupe_least(2) [of y xs x] by auto
qed

lemma dedupe_idem: "distinct (map key xs) \<Longrightarrow> dedupe xs = xs"
proof -
  assume d: "distinct (map key xs)"
  then have "first_occurrences (map key xs) = map key xs"
    by (simp add: first_occurrences_def distinct_remdups_id)
  moreover have "first_cheapest cost (filter (\<lambda>y. key y = key x) xs) = x" if "x \<in> set xs" for x
    using filter_eq_of_distinct_key [OF d that] by simp
  ultimately show ?thesis by (simp add: dedupe_eq map_idI)
qed

end


section \<open>Pages\<close>

text \<open>
  The end of both \<open>search\<close> methods: the cursor gives the offset of the page, and the next cursor
  is issued when the ordered list goes on after it.  \<open>enc\<close> and \<open>dec\<close> are the cursor functions.
\<close>

definition paginate_with ::
  "(int \<Rightarrow> string) \<Rightarrow> (string option \<Rightarrow> int) \<Rightarrow> 'a list \<Rightarrow> int \<Rightarrow> string option
   \<Rightarrow> 'a list \<times> string option \<times> bool" where
  "paginate_with enc dec ordered limit cursor =
     (let offset = dec cursor;
          page = py_slice ordered offset (offset + limit);
          has_more = offset + limit < int (length ordered);
          next_cursor = (if has_more then Some (enc (offset + limit)) else None)
      in (page, next_cursor, has_more))"

definition paginate :: "'a list \<Rightarrow> int \<Rightarrow> string option \<Rightarrow> 'a list \<times> string option \<times> bool" where
  "paginate = paginate_with encode_cursor decode_cursor"

text \<open>A client that follows the cursors from \<open>cursor\<close> on, for at most \<open>n\<close> pages.\<close>

fun follow_pages ::
  "(string option \<Rightarrow> 'a list \<times> string option \<times> bool) \<Rightarrow> nat \<Rightarrow> string option \<Rightarrow> 'a list list" where
  "follow_pages fetch 0 cursor = []"
| "follow_pages fetch (Suc n) cursor =
     (case fetch cursor of (page, next_cursor, has_more) \<Rightarrow>
        page # (if has_more then follow_pages fetch n next_cursor else []))"

text \<open>What a cursor codec promises: offsets in range survive the round trip, no cursor is 0.\<close>

locale cursor_codec =
  fixes enc :: "int \<Rightarrow> string" and dec :: "string option \<Rightarrow> int" and bound :: int
  assumes dec_enc: "0 \<le> n \<Longrightarrow> n < bound \<Longrightarrow> dec (Some (enc n)) = n"
    and dec_none: "dec None = 0"
    and dec_nonneg: "0 \<le> dec c"
begin

lemma page_eq:
  assumes "1 \<le> limit"
  shows "paginate_with enc dec xs limit c =
    (take (nat limit) (drop (nat (dec c)) xs),
     (if dec c + limit < int (length xs) then Some (enc (dec c + limit)) else None),
     dec c + limit < int (length xs))"
  using assms py_slice_nonneg [of "dec c" limit xs] by (simp add: paginate_with_def Let_def dec_nonneg)

lemma follow_from:
  assumes "1 \<le> limit" "int (length xs) \<le> bound" "length xs < nat (dec c) + n" "0 < n"
  shows "concat (follow_pages (paginate_with enc dec xs limit) n c) = drop (nat (dec c)) xs"
  using assms(3,4)
proof (induction n arbitrary: c)
  case (Suc n)
  define off where "off = nat (dec c)"
  have off: "dec c = int off" using dec_nonneg [of c] by (simp add: off_def)
  show ?case
  proof (cases "dec c + limit < int (length xs)")
    case True
    let ?c' = "Some (enc (dec c + limit))"
    have c': "dec ?c' = dec c + limit" using True assms dec_nonneg [of c] by (intro dec_enc) simp_all
    have n': "nat (dec c + limit) = nat limit + off" using off assms by simp
    have "length xs < nat (dec ?c') + n" "0 < n"
      using Suc.prems True assms c' n' off by auto
    then have IH: "concat (follow_pages (paginate_with enc dec xs limit) n ?c')
        = drop (nat limit + off) xs" using Suc.IH c' n' by simp
    show ?thesis
      using True IH by (simp add: page_eq [OF assms(1), of xs c] take_drop_step flip: off_def)
  next
    case False
    then have "length (drop off xs) \<le> nat limit" using off assms by simp
    with False show ?thesis by (simp add: page_eq [OF assms(1), of xs c] flip: off_def)
  qed
qed simp

text \<open>Following the cursors from the first page returns every element once, in order.\<close>

lemma follow_all:
  "1 \<le> limit \<Longrightarrow> int (length xs) \<le> bound \<Longrightarrow> length xs < n \<Longrightarrow>
   concat (follow_pages (paginate_with enc dec xs limit) n None) = xs"
  using follow_from [of limit xs None n] by (simp add: dec_none)

end

interpretation b64_cursor: cursor_codec encode_cursor decode_cursor "10 ^ max_str_digits"
  by unfold_locales (simp_all add: decode_encode_cursor decode_cursor_nonneg)

lemma paginate_page:
  "1 \<le> limit \<Longrightarrow> fst (paginate xs limit c) = take (nat limit) (drop (nat (decode_cursor c)) xs)"
  by (simp add: paginate_def b64_cursor.page_eq)

lemma paginate_more:
  "snd (snd (paginate xs limit c)) \<longleftrightarrow> decode_cursor c + limit < int (length xs)"
  "fst (snd (paginate xs limit c)) \<noteq> None \<longleftrightarrow> snd (snd (paginate xs limit c))"
  by (simp_all add: paginate_def paginate_with_def Let_def)

lemma paginate_subset: "set (fst (paginate xs limit c)) \<subseteq> set xs"
  by (simp add: paginate_def paginate_with_def Let_def py_slice_subset)

end
