(* ===== verification/Flight_Aggregation.thy ===== *)
theory Flight_Aggregation
  imports Aggregation_Core
begin

text \<open>
  \<^verbatim>\<open>app/services/aggregation.py\<close>: the flight search.  Providers are queried, failed
  ones are dropped, identical flights are reduced to the cheapest, the rest is filtered, scored,
  sorted and cut into pages.
\<close>

datatype SortKey = BEST | PRICE | DURATION | DEPARTURE | STOPS

record FlightFilters =
  max_price_minor :: "int option"
  max_stops :: "int option"
  airlines :: "string set"
  direct_only :: bool

definition default_filters :: FlightFilters where
  "default_filters = \<lparr>max_price_minor = None, max_stops = None, airlines = {}, direct_only = False\<rparr>"

definition matches :: "FlightFilters \<Rightarrow> NormalizedFlight \<Rightarrow> bool" where
  "matches fs f =
     (if direct_only fs \<and> \<not> is_direct f then False
      else if (case max_stops fs of None \<Rightarrow> False | Some m \<Rightarrow> stops f > m) then False
      else if (case max_price_minor fs of None \<Rightarrow> False | Some m \<Rightarrow> amount_minor (price f) > m) then False
      else \<not> (airlines fs \<noteq> {} \<and> str_lower (airline f) \<notin> airlines fs))"

record RankedFlight =
  flight :: NormalizedFlight
  score :: pyfloat

record AggregationResult =
  items :: "RankedFlight list"
  meta :: SearchMeta
  next_cursor :: "string option"
  has_more :: bool


section \<open>The service\<close>

definition FlightAggregationService :: "FlightProvider list \<Rightarrow> FlightProvider list result" where
  "FlightAggregationService providers =
     (if providers = [] then Inl (ValueError ''at least one flight provider is required'')
      else Inr providers)"

definition fan_out :: "FlightProvider list \<Rightarrow> FlightSearchQuery \<Rightarrow> NormalizedFlight list \<times> int \<times> int" where
  "fan_out providers query = merge_results (map (\<lambda>p. fp_search p query) providers)"

type_synonym flight_key = "string \<times> string \<times> string \<times> string"

definition flight_key :: "NormalizedFlight \<Rightarrow> flight_key" where
  "flight_key f =
     (str_lower (airline f), origin f, destination f, datetime_isoformat (departure_time f))"

abbreviation flight_cost :: "NormalizedFlight \<Rightarrow> int" where
  "flight_cost f \<equiv> amount_minor (price f)"

definition dedupe_step ::
  "(flight_key, NormalizedFlight) dict \<Rightarrow> NormalizedFlight \<Rightarrow> (flight_key, NormalizedFlight) dict" where
  "dedupe_step best f =
     (let key = flight_key f
      in case dict_get best key of
           None \<Rightarrow> dict_set key f best
         | Some existing \<Rightarrow> if flight_cost f < flight_cost existing then dict_set key f best else best)"

definition dedupe :: "NormalizedFlight list \<Rightarrow> NormalizedFlight list" where
  "dedupe flights = dict_values (foldl dedupe_step [] flights)"

text \<open>A difference over a span, 0.0 when the span is zero.\<close>

definition span_ratio :: "int \<Rightarrow> int \<Rightarrow> pyfloat" where
  "span_ratio d width = (if width \<noteq> 0 then int_truediv d width else 0)"

text \<open>\<open>0.5 * price_norm + 0.3 * duration_norm + 0.2 * stops_norm\<close>\<close>

definition penalty :: "pyfloat \<Rightarrow> pyfloat \<Rightarrow> pyfloat \<Rightarrow> pyfloat" where
  "penalty price_norm duration_norm stops_norm = fadd (fadd (fmul (fl (1/2)) price_norm) (fmul (fl (3/10)) duration_norm)) (fmul (fl (1/5)) stops_norm)"

definition flight_score :: "int \<Rightarrow> int \<Rightarrow> int \<Rightarrow> int \<Rightarrow> int \<Rightarrow> NormalizedFlight \<Rightarrow> pyfloat" where
  "flight_score min_price price_span min_duration duration_span most_stops f =
     (let price_norm = span_ratio (flight_cost f - min_price) price_span;
          duration_norm = span_ratio (duration_minutes f - min_duration) duration_span;
          stops_norm = span_ratio (stops f) most_stops
      in py_round 3 (fsub 1 (penalty price_norm duration_norm stops_norm)))"

definition rank :: "NormalizedFlight list \<Rightarrow> RankedFlight list" where
  "rank flights =
     (if flights = [] then []
      else
        let prices = map flight_cost flights; durations = map duration_minutes flights;
            min_price = Min (set prices); min_duration = Min (set durations);
            most_stops = Max (set (map stops flights));
            price_span = Max (set prices) - min_price;
            duration_span = Max (set durations) - min_duration
        in map (\<lambda>f. \<lparr>flight = f,
                     score = flight_score min_price price_span min_duration duration_span most_stops f\<rparr>)
             flights)"

text \<open>
  \<open>sorted(ranked, key=...)\<close> is stable.  Sorting by departure compares datetimes: comparing a naive
  with an aware one raises \<open>TypeError\<close>, and a sort of a mixed list must make such a comparison.
\<close>

definition mixed_awareness :: "datetime list \<Rightarrow> bool" where
  "mixed_awareness ts \<longleftrightarrow> (\<exists>t \<in> set ts. is_aware t) \<and> (\<exists>t \<in> set ts. \<not> is_aware t)"

definition sort_flights :: "RankedFlight list \<Rightarrow> SortKey \<Rightarrow> RankedFlight list result" where
  "sort_flights ranked key =
     (case key of
        BEST \<Rightarrow> Inr (sort_key (\<lambda>r. - score r) ranked)
      | PRICE \<Rightarrow> Inr (sort_key (\<lambda>r. flight_cost (flight r)) ranked)
      | DURATION \<Rightarrow> Inr (sort_key (\<lambda>r. duration_minutes (flight r)) ranked)
      | DEPARTURE \<Rightarrow>
          if mixed_awareness (map (\<lambda>r. departure_time (flight r)) ranked)
          then Inl (TypeError ''can't compare offset-naive and offset-aware datetimes'')
          else Inr (sort_key (\<lambda>r. instant (departure_time (flight r))) ranked)
      | STOPS \<Rightarrow> Inr (sort_key (\<lambda>r. stops (flight r)) ranked))"

definition search ::
  "FlightProvider list \<Rightarrow> FlightSearchQuery \<Rightarrow> SortKey \<Rightarrow> FlightFilters option \<Rightarrow> int \<Rightarrow> string option
   \<Rightarrow> AggregationResult result" where
  "search providers query key filters limit cursor =
     (let fs = (case filters of None \<Rightarrow> default_filters | Some f \<Rightarrow> f);
          (flights, ok, failed) = fan_out providers query;
          deduped = dedupe flights;
          filtered = filter (matches fs) deduped;
          ranked = rank filtered
      in bind_result (sort_flights ranked key)
           (\<lambda>ordered.
              let (page, next, more) = paginate ordered limit cursor
              in Inr \<lparr>items = page,
                      meta = \<lparr>degraded = failed > 0, providers_ok = ok, providers_failed = failed,
                              total = int (length ordered)\<rparr>,
                      next_cursor = next, has_more = more\<rparr>))"


section \<open>De-duplication\<close>

interpretation fd: cheapest_offer flight_key flight_cost dedupe_step dedupe
  by unfold_locales (simp_all add: dedupe_step_def dedupe_def)


section \<open>Scores\<close>

text \<open>The three weights, as the floats the source's literals denote, add up to exactly 1.0.\<close>

lemma fl_weight_duration: "fl (3/10) = 5404319552844595 / 2 ^ 54"
proof -
  have "round_half_even (3 / 10 * 2 ^ 54) = 5404319552844595"
    by (rule round_half_even_unique) simp
  then have "fl (3/10) = of_int 5404319552844595 * 2 powi (- 2 - 52)"
    by (intro fl_eval_pos) (simp_all add: power_int_minus field_simps)
  then show ?thesis by (simp add: power_int_minus field_simps)
qed

lemma fl_weight_stops: "fl (1/5) = 7205759403792794 / 2 ^ 55"
proof -
  have "round_half_even (1 / 5 * 2 ^ 55) = 7205759403792794"
    by (rule round_half_even_unique) simp
  then have "fl (1/5) = of_int 7205759403792794 * 2 powi (- 3 - 52)"
    by (intro fl_eval_pos) (simp_all add: power_int_minus field_simps)
  then show ?thesis by (simp add: power_int_minus field_simps)
qed

lemma weights_sum: "fadd (fadd (fl (1/2)) (fl (3/10))) (fl (1/5)) = 1"
proof -
  define t where "t = fl (1/2 + fl (3/10))"
  have "\<lfloor>14411518807585587 / 2 :: rat\<rfloor> = 7205759403792793" by (simp add: floor_eq_iff)
  then have "round_half_even ((1/2 + fl (3/10)) * 2 ^ 53) = 7205759403792794"
    unfolding fl_weight_duration by (simp add: round_half_even_def Let_def)
  then have "t = of_int 7205759403792794 * 2 powi (- 1 - 52)" unfolding t_def
    by (intro fl_eval_pos) (simp_all add: fl_weight_duration power_int_minus field_simps)
  then have t: "t = 7205759403792794 / 2 ^ 53" by (simp add: power_int_minus field_simps)
  have "round_half_even ((t + fl (1/5)) * 2 ^ 52) = 2 ^ 52"
    unfolding t fl_weight_stops by (rule round_half_even_unique) simp
  then have "fl (t + fl (1/5)) = of_int (2 ^ 52) * 2 powi (0 - 52)"
    by (intro fl_eval_pos) (simp_all add: t fl_weight_stops power_int_minus field_simps)
  then show ?thesis by (simp add: fadd_def power_int_minus t_def)
qed

lemma penalty_mono: "p \<le> p' \<Longrightarrow> d \<le> d' \<Longrightarrow> s \<le> s' \<Longrightarrow> penalty p d s \<le> penalty p' d' s'"
  unfolding penalty_def fadd_def fmul_def
  by (intro fl_mono add_mono b64.rnd_scaled_mono) simp_all

lemma penalty_unit:
  assumes "0 \<le> p" "p \<le> 1" "0 \<le> d" "d \<le> 1" "0 \<le> s" "s \<le> 1"
  shows "0 \<le> penalty p d s \<and> penalty p d s \<le> 1"
proof -
  have "penalty 0 0 0 = 0" by (simp add: penalty_def fadd_def fmul_def)
  moreover have "penalty 1 1 1 = 1"
    using weights_sum unfolding penalty_def fmul_def by simp
  ultimately show ?thesis
    using penalty_mono [of 0 p 0 d 0 s] penalty_mono [of p 1 d 1 s 1] assms by simp
qed

lemma span_ratio_unit: "0 \<le> d \<Longrightarrow> d \<le> w \<Longrightarrow> 0 \<le> span_ratio d w \<and> span_ratio d w \<le> 1"
  by (auto simp: span_ratio_def int_truediv_def b64.rnd_ratio_unit)

lemma span_ratio_mono: "d \<le> d' \<Longrightarrow> 0 \<le> w \<Longrightarrow> span_ratio d w \<le> span_ratio d' w"
  by (auto simp: span_ratio_def int_truediv_def b64.rnd_ratio_mono)

lemma flight_score_penalty:
  "flight_score mp ps md ds ms f =
     py_round 3 (fsub 1 (penalty (span_ratio (flight_cost f - mp) ps)
       (span_ratio (duration_minutes f - md) ds) (span_ratio (stops f) ms)))"
  by (simp add: flight_score_def Let_def)

lemma map_flight_rank [simp]: "map flight (rank fs) = fs"
  by (simp add: rank_def Let_def comp_def)

lemma length_rank [simp]: "length (rank fs) = length fs"
  by (metis length_map map_flight_rank)

lemma rank_entry:
  assumes "r \<in> set (rank fs)"
  shows "flight r \<in> set fs"
    and "score r = flight_score (Min (flight_cost ` set fs))
           (Max (flight_cost ` set fs) - Min (flight_cost ` set fs))
           (Min (duration_minutes ` set fs))
           (Max (duration_minutes ` set fs) - Min (duration_minutes ` set fs))
           (Max (stops ` set fs)) (flight r)"
  using assms by (auto simp: rank_def Let_def split: if_splits)

lemma list_extremes:
  assumes "x \<in> set xs"
  shows "Min (g ` set xs) \<le> (g x :: int)" "g x \<le> Max (g ` set xs)"
  using assms by simp_all

lemma extreme_ratio_unit:
  assumes "x \<in> set xs"
  shows "0 \<le> span_ratio (g x - Min (g ` set xs)) (Max (g ` set xs) - Min (g ` set xs))"
    and "span_ratio (g x - Min (g ` set xs)) (Max (g ` set xs) - Min (g ` set xs)) \<le> 1"
  using span_ratio_unit [of "g x - Min (g ` set xs)"] list_extremes [OF assms, of g] by simp_all

lemma rank_norms_unit:
  assumes "f \<in> set fs" "0 \<le> stops f"
  shows "0 \<le> span_ratio (flight_cost f - Min (flight_cost ` set fs)) (Max (flight_cost ` set fs) - Min (flight_cost ` set fs))"
    "span_ratio (flight_cost f - Min (flight_cost ` set fs)) (Max (flight_cost ` set fs) - Min (flight_cost ` set fs)) \<le> 1"
    "0 \<le> span_ratio (duration_minutes f - Min (duration_minutes ` set fs)) (Max (duration_minutes ` set fs) - Min (duration_minutes ` set fs))"
    "span_ratio (duration_minutes f - Min (duration_minutes ` set fs)) (Max (duration_minutes ` set fs) - Min (duration_minutes ` set fs)) \<le> 1"
    "0 \<le> span_ratio (stops f) (Max (stops ` set fs))"
    "span_ratio (stops f) (Max (stops ` set fs)) \<le> 1"
  using extreme_ratio_unit [OF assms(1), of flight_cost]
    extreme_ratio_unit [OF assms(1), of duration_minutes]
    span_ratio_unit [of "stops f"] list_extremes [OF assms(1), of stops] assms(2) by simp_all

lemma rank_score_unit:
  assumes "r \<in> set (rank fs)" "0 \<le> stops (flight r)"
  shows "0 \<le> score r \<and> score r \<le> 1"
proof -
  note norms = rank_norms_unit [OF rank_entry(1) [OF assms(1)] assms(2)]
  show ?thesis
    unfolding rank_entry(2) [OF assms(1)] flight_score_penalty fsub_def
    by (intro py_round_unit; use penalty_unit [OF norms] b64.rnd_unit in simp)
qed

text \<open>A flight that is no dearer, no longer and has no more stops never scores lower.\<close>

lemma rank_score_antimono:
  assumes "r \<in> set (rank fs)" "r' \<in> set (rank fs)"
    and "flight_cost (flight r) \<le> flight_cost (flight r')"
    and "duration_minutes (flight r) \<le> duration_minutes (flight r')"
    and "stops (flight r) \<le> stops (flight r')" and "0 \<le> stops (flight r)"
  shows "score r' \<le> score r"
proof -
  have ne: "flight r \<in> set fs" using assms(1) by (rule rank_entry)
  have "0 \<le> Max (stops ` set fs)" using list_extremes(2) [OF ne, of stops] assms(6) by simp
  moreover have "Min (flight_cost ` set fs) \<le> Max (flight_cost ` set fs)"
    "Min (duration_minutes ` set fs) \<le> Max (duration_minutes ` set fs)"
    using list_extremes [OF ne] order_trans by blast+
  ultimately show ?thesis
    unfolding rank_entry(2) [OF assms(1)] rank_entry(2) [OF assms(2)] flight_score_penalty fsub_def
    using assms(3-5)
    by (intro py_round_mono fl_mono diff_left_mono penalty_mono span_ratio_mono) simp_all
qed


section \<open>Order\<close>

text \<open>The sort keys as one rational-valued measure.\<close>

definition flight_order :: "SortKey \<Rightarrow> RankedFlight \<Rightarrow> rat" where
  "flight_order key r =
     (case key of
        BEST \<Rightarrow> - score r
      | PRICE \<Rightarrow> of_int (flight_cost (flight r))
      | DURATION \<Rightarrow> of_int (duration_minutes (flight r))
      | DEPARTURE \<Rightarrow> of_int (instant (departure_time (flight r)))
      | STOPS \<Rightarrow> of_int (stops (flight r)))"

lemma sort_key_of_int: "sort_key (\<lambda>x. of_int (g x) :: rat) xs = sort_key g xs"
proof -
  have "insort_key (\<lambda>x. of_int (g x) :: rat) y ys = insort_key g y ys" for y ys
    by (induction ys) simp_all
  then show ?thesis by (induction xs) simp_all
qed

definition comparable :: "SortKey \<Rightarrow> datetime list \<Rightarrow> bool" where
  "comparable key ts \<longleftrightarrow> key = DEPARTURE \<longrightarrow> \<not> mixed_awareness ts"

lemma sort_flights_eq:
  "sort_flights ranked key =
     (if comparable key (map (\<lambda>r. departure_time (flight r)) ranked)
      then Inr (sort_key (flight_order key) ranked)
      else Inl (TypeError ''can't compare offset-naive and offset-aware datetimes''))"
  unfolding sort_flights_def comparable_def
  by (cases key) (simp_all add: flight_order_def [abs_def] sort_key_of_int)

lemma comparable_subset: "comparable key ts \<Longrightarrow> set us \<subseteq> set ts \<Longrightarrow> comparable key us"
  by (auto simp: comparable_def mixed_awareness_def)


section \<open>The whole search\<close>

text \<open>What the answering providers offer, in provider order.\<close>

definition offers :: "FlightProvider list \<Rightarrow> FlightSearchQuery \<Rightarrow> NormalizedFlight list" where
  "offers providers query = concat (map (\<lambda>p. answer (fp_search p query)) providers)"

definition effective_filters :: "FlightFilters option \<Rightarrow> FlightFilters" where
  "effective_filters fo = (case fo of None \<Rightarrow> default_filters | Some f \<Rightarrow> f)"

definition ranked_offers ::
  "FlightProvider list \<Rightarrow> FlightSearchQuery \<Rightarrow> FlightFilters option \<Rightarrow> RankedFlight list" where
  "ranked_offers providers query fo =
     rank (filter (matches (effective_filters fo)) (dedupe (offers providers query)))"

lemma fan_out_eq:
  "fan_out providers query =
     (offers providers query,
      int (length (filter (\<lambda>p. \<not> is_failure (fp_search p query)) providers)),
      int (length (filter (\<lambda>p. is_failure (fp_search p query)) providers)))"
  by (simp add: fan_out_def merge_results_eq offers_def filter_map comp_def)

lemma ranked_offers_departures:
  "comparable key (map departure_time (offers providers query)) \<Longrightarrow>
   comparable key (map (\<lambda>r. departure_time (flight r)) (ranked_offers providers query fo))"
proof (erule comparable_subset)
  have "flight ` set (ranked_offers providers query fo) \<subseteq> set (offers providers query)"
    using rank_entry(1) fd.dedupe_least(1) by (fastforce simp: ranked_offers_def)
  then show "set (map (\<lambda>r. departure_time (flight r)) (ranked_offers providers query fo))
    \<subseteq> set (map departure_time (offers providers query))" by auto
qed

lemma search_eq:
  "search providers query key fo limit cursor =
     bind_result (sort_flights (ranked_offers providers query fo) key)
       (\<lambda>ordered. Inr \<lparr>items = fst (paginate ordered limit cursor),
          meta = \<lparr>degraded = \<exists>p \<in> set providers. is_failure (fp_search p query),
                  providers_ok = int (length (filter (\<lambda>p. \<not> is_failure (fp_search p query)) providers)),
                  providers_failed = int (length (filter (\<lambda>p. is_failure (fp_search p query)) providers)),
                  total = int (length ordered)\<rparr>,
          next_cursor = fst (snd (paginate ordered limit cursor)),
          has_more = snd (snd (paginate ordered limit cursor))\<rparr>)"
proof -
  have "0 < length (filter (\<lambda>p. is_failure (fp_search p query)) providers)
        \<longleftrightarrow> (\<exists>p \<in> set providers. is_failure (fp_search p query))"
    by (auto simp: filter_empty_conv)
  then show ?thesis
    by (simp add: search_def fan_out_eq ranked_offers_def effective_filters_def Let_def
        case_prod_beta bind_result_def split: sum.split)
qed

lemma search_ok:
  assumes "comparable key (map departure_time (offers providers query))"
  shows "search providers query key fo limit cursor =
     (let ordered = sort_key (flight_order key) (ranked_offers providers query fo)
      in Inr \<lparr>items = fst (paginate ordered limit cursor),
          meta = \<lparr>degraded = \<exists>p \<in> set providers. is_failure (fp_search p query),
                  providers_ok = int (length (filter (\<lambda>p. \<not> is_failure (fp_search p query)) providers)),
                  providers_failed = int (length (filter (\<lambda>p. is_failure (fp_search p query)) providers)),
                  total = int (length ordered)\<rparr>,
          next_cursor = fst (snd (paginate ordered limit cursor)),
          has_more = snd (snd (paginate ordered limit cursor))\<rparr>)"
  using ranked_offers_departures [OF assms]
  by (simp add: search_eq sort_flights_eq Let_def)

lemma search_Inr_items:
  assumes "search providers query key fo limit cursor = Inr res" "r \<in> set (items res)"
  shows "r \<in> set (ranked_offers providers query fo)"
proof -
  obtain ordered where "sort_flights (ranked_offers providers query fo) key = Inr ordered"
    and "items res = fst (paginate ordered limit cursor)"
    using assms(1) by (auto simp: search_eq bind_result_Inr_iff)
  then show ?thesis
    using assms(2) paginate_subset [of ordered limit cursor]
    by (auto simp: sort_flights_eq split: if_splits)
qed

text \<open>One page as a client sees it; an exception ends the walk.\<close>

definition search_page ::
  "FlightProvider list \<Rightarrow> FlightSearchQuery \<Rightarrow> SortKey \<Rightarrow> FlightFilters option \<Rightarrow> int \<Rightarrow> string option
   \<Rightarrow> RankedFlight list \<times> string option \<times> bool" where
  "search_page providers query key fo limit cursor =
     (case search providers query key fo limit cursor of
        Inl e \<Rightarrow> ([], None, False)
      | Inr res \<Rightarrow> (items res, next_cursor res, has_more res))"

lemma search_page_ok:
  assumes "comparable key (map departure_time (offers providers query))"
  shows "search_page providers query key fo limit
         = paginate (sort_key (flight_order key) (ranked_offers providers query fo)) limit"
  by (rule ext) (simp add: search_page_def search_ok [OF assms] Let_def)

lemma length_ranked_offers: "length (ranked_offers providers query fo) \<le> length (offers providers query)"
proof -
  have "length (dedupe xs) \<le> length xs" for xs
    using length_remdups_leq [of "rev (map flight_key xs)"]
    by (simp add: fd.dedupe_eq first_occurrences_def)
  then show ?thesis
    unfolding ranked_offers_def length_rank by (meson length_filter_le order_trans)
qed


section \<open>Properties of the flight search\<close>

text \<open>Example data for the witnesses.\<close>

definition example_flight :: "string \<Rightarrow> string \<Rightarrow> int \<Rightarrow> int \<Rightarrow> NormalizedFlight" where
  "example_flight ident air amount n =
     \<lparr>flight_id = ident, flight_provider = ''a'', airline = air, origin = ''THR'', destination = ''IST'',
      departure_time = Datetime (Date 2026 8 10) 8 0 0 0 (Some 0),
      arrival_time = Datetime (Date 2026 8 10) 10 0 0 0 (Some 0),
      duration_minutes = 120, stops = n, cabin_class = ''economy'',
      price = \<lparr>amount_minor = amount, currency = ''USD''\<rparr>\<rparr>"

definition example_query :: FlightSearchQuery where
  "example_query = \<lparr>q_origin = ''THR'', q_destination = ''IST'', q_departure_date = Date 2026 8 10,
     q_adults = 1, q_cabin_class = ''economy''\<rparr>"

definition example_providers :: "FlightProvider list" where
  "example_providers =
     [\<lparr>fp_name = ''a'', fp_search = \<lambda>_. Inr [example_flight ''a1'' ''KLM'' 20000 0, example_flight ''a2'' ''LH'' 9000 1]\<rparr>,
      \<lparr>fp_name = ''broken'', fp_search = \<lambda>_. Inl (PyError ''RuntimeError'' ''provider exploded'')\<rparr>,
      \<lparr>fp_name = ''b'', fp_search = \<lambda>_. Inr [example_flight ''b1'' ''klm'' 14000 0]\<rparr>]"

lemma offers_example:
  "offers example_providers example_query =
     [example_flight ''a1'' ''KLM'' 20000 0, example_flight ''a2'' ''LH'' 9000 1, example_flight ''b1'' ''klm'' 14000 0]"
  by (simp add: offers_def example_providers_def answer_def)

lemma comparable_example: "comparable key (map departure_time (offers example_providers example_query))"
  by (simp add: offers_example comparable_def mixed_awareness_def is_aware_def example_flight_def)

lemma matches_iff:
  "matches fs f \<longleftrightarrow>
     (direct_only fs \<longrightarrow> stops f = 0)
     \<and> (\<forall>m. max_stops fs = Some m \<longrightarrow> stops f \<le> m)
     \<and> (\<forall>m. max_price_minor fs = Some m \<longrightarrow> flight_cost f \<le> m)
     \<and> (airlines fs \<noteq> {} \<longrightarrow> str_lower (airline f) \<in> airlines fs)"
  by (auto simp: matches_def is_direct_def split: option.splits if_splits)

text \<open>
  C3: \<open>_dedupe\<close> returns, for each flight identity (airline ignoring case, route, departure) in the
  order in which it is first offered, the first offer of least price.
\<close>

theorem dedupe_refines_spec:
  "dedupe flights =
     map (\<lambda>k. first_cheapest flight_cost (filter (\<lambda>f. flight_key f = k) flights))
       (first_occurrences (map flight_key flights))"
  by (rule fd.dedupe_eq)

text \<open>
  C2: every flight on a returned page was offered by a provider that answered, obeys each filter that
  is set (direct only, number of stops, price, airline), is at most as dear as every other offer of the same flight, and has a score between 0 and 1.
\<close>

theorem search_items_sound:
  assumes "search providers query key fo limit cursor = Inr res" and "r \<in> set (items res)"
    and "\<forall>f \<in> set (offers providers query). 0 \<le> stops f"
  shows "(\<exists>p \<in> set providers. \<exists>fs. fp_search p query = Inr fs \<and> flight r \<in> set fs)
    \<and> (\<forall>fs. fo = Some fs \<longrightarrow>
         (direct_only fs \<longrightarrow> stops (flight r) = 0)
         \<and> (\<forall>m. max_stops fs = Some m \<longrightarrow> stops (flight r) \<le> m)
         \<and> (\<forall>m. max_price_minor fs = Some m \<longrightarrow> flight_cost (flight r) \<le> m)
         \<and> (airlines fs \<noteq> {} \<longrightarrow> str_lower (airline (flight r)) \<in> airlines fs))
    \<and> (\<forall>f \<in> set (offers providers query). flight_key f = flight_key (flight r) \<longrightarrow>
         flight_cost (flight r) \<le> flight_cost f)
    \<and> 0 \<le> score r \<and> score r \<le> 1"
proof -
  have r: "r \<in> set (ranked_offers providers query fo)" using assms(1,2) by (rule search_Inr_items)
  then have d: "flight r \<in> set (dedupe (offers providers query))"
    and m: "matches (effective_filters fo) (flight r)"
    using rank_entry(1) unfolding ranked_offers_def by fastforce+
  have o: "flight r \<in> set (offers providers query)" using d by (rule fd.dedupe_least)
  then obtain p where "p \<in> set providers" "flight r \<in> set (answer (fp_search p query))"
    by (auto simp: offers_def)
  then have "\<exists>p \<in> set providers. \<exists>fs. fp_search p query = Inr fs \<and> flight r \<in> set fs"
    by (cases "fp_search p query") (auto simp: answer_def)
  moreover have "0 \<le> score r \<and> score r \<le> 1"
    using r o assms(3) unfolding ranked_offers_def by (intro rank_score_unit) auto
  moreover have "matches fs (flight r)" if "fo = Some fs" for fs
    using m that by (simp add: effective_filters_def)
  ultimately show ?thesis using fd.dedupe_least(2) [OF d] by (simp add: matches_iff)
qed

theorem search_items_sound_witness:
  "\<exists>res r. search example_providers example_query PRICE None 1 None = Inr res \<and> r \<in> set (items res)
     \<and> 0 \<le> score r \<and> score r \<le> 1"
proof -
  define ordered where
    "ordered = sort_key (flight_order PRICE) (ranked_offers example_providers example_query None)"
  have "example_flight ''a2'' ''LH'' 9000 1 \<in> set (offers example_providers example_query)"
    by (simp add: offers_example)
  then have ne: "dedupe (offers example_providers example_query) \<noteq> []"
    using fd.dedupe_covers by fastforce
  have "matches default_filters = (\<lambda>_. True)"
    by (rule ext) (simp add: default_filters_def matches_def)
  then have "length ordered = length (dedupe (offers example_providers example_query))"
    by (simp add: ordered_def ranked_offers_def effective_filters_def)
  with ne have "ordered \<noteq> []" by auto
  then obtain x xs where o: "ordered = x # xs" by (cases ordered) auto
  obtain res where res: "search example_providers example_query PRICE None 1 None = Inr res"
    and it: "items res = fst (paginate ordered 1 None)"
    using search_ok [OF comparable_example, of PRICE None 1 None] by (simp add: ordered_def Let_def)
  have "x \<in> set (items res)" by (simp add: it o paginate_page)
  moreover have "\<forall>f \<in> set (offers example_providers example_query). 0 \<le> stops f"
    by (simp add: offers_example example_flight_def)
  ultimately show ?thesis using search_items_sound [OF res] res by blast
qed

text \<open>
  C1: a client that follows the cursors of a search gets, page by page, every filtered and
  de-duplicated flight exactly once, in the requested order, whatever the page size.
\<close>

theorem search_pages_complete:
  assumes "comparable key (map departure_time (offers providers query))" and "1 \<le> limit"
    and "length (offers providers query) < n" and "int n \<le> 10 ^ max_str_digits"
  shows "let pages = concat (follow_pages (search_page providers query key fo limit) n None)
    in mset (map flight pages) = mset (filter (matches (effective_filters fo)) (dedupe (offers providers query)))
    \<and> sorted (map (flight_order key) pages)
    \<and> pages = sort_key (flight_order key) (ranked_offers providers query fo)"
proof -
  let ?all = "sort_key (flight_order key) (ranked_offers providers query fo)"
  have "length ?all < n" using length_ranked_offers [of providers query fo] assms(3) by simp
  moreover from this have "int (length ?all) \<le> 10 ^ max_str_digits" using assms(4) by linarith
  ultimately have all: "concat (follow_pages (search_page providers query key fo limit) n None) = ?all"
    unfolding search_page_ok [OF assms(1)] paginate_def
    by (intro b64_cursor.follow_all assms(2))
  moreover have "mset (map flight ?all)
      = mset (filter (matches (effective_filters fo)) (dedupe (offers providers query)))"
    by (metis map_flight_rank mset_map mset_sort ranked_offers_def)
  ultimately show ?thesis by (simp add: Let_def)
qed

lemma small_bound: "n \<le> 10 \<Longrightarrow> int n \<le> 10 ^ max_str_digits"
proof -
  assume "n \<le> 10"
  then have "int n \<le> 10 ^ 1" by simp
  also have "(10::int) ^ 1 \<le> 10 ^ max_str_digits"
    by (rule power_increasing) (simp_all add: max_str_digits_def)
  finally show ?thesis .
qed

theorem search_pages_complete_witness:
  "sorted (map (flight_order PRICE)
     (concat (follow_pages (search_page example_providers example_query PRICE None 1) 5 None)))"
  using search_pages_complete [OF comparable_example, of 1 5 PRICE None] small_bound [of 5]
  by (simp add: offers_example Let_def)



text \<open>
  C5: ranking respects dominance.  Of two flights in the same result, the one that is no dearer, no
  longer and has no more stops has at least the other's score; all float roundings included.
\<close>

theorem score_respects_dominance:
  assumes "r \<in> set (rank fs)" and "r' \<in> set (rank fs)"
    and "flight_cost (flight r) \<le> flight_cost (flight r')"
    and "duration_minutes (flight r) \<le> duration_minutes (flight r')"
    and "stops (flight r) \<le> stops (flight r')" and "0 \<le> stops (flight r)"
  shows "score r' \<le> score r"
  using assms by (rule rank_score_antimono)

theorem score_respects_dominance_witness:
  "\<exists>r r'. set (rank [example_flight ''1'' ''A'' 10000 0, example_flight ''2'' ''B'' 30000 2]) = {r, r'}
     \<and> score r' \<le> score r"
proof -
  let ?fs = "[example_flight ''1'' ''A'' 10000 0, example_flight ''2'' ''B'' 30000 2]"
  have "length (rank ?fs) = Suc (Suc 0)" by simp
  then obtain r r' where rk: "rank ?fs = [r, r']" by (auto simp only: length_Suc_conv length_0_conv)
  then have "flight r = ?fs ! 0" "flight r' = ?fs ! 1" using map_flight_rank [of ?fs] by simp_all
  with rk have "score r' \<le> score r"
    by (intro score_respects_dominance [of r ?fs r']) (simp_all add: example_flight_def)
  with rk show ?thesis by auto
qed

end
