(* ===== verification/Hotel_Aggregation.thy ===== *)
theory Hotel_Aggregation
  imports Flight_Aggregation
begin

text \<open>
  \<^verbatim>\<open>app/services/hotel_aggregation.py\<close>: the hotel search.  It has the shape of the
  flight search over hotel offers, with its own identity, filters, score and sort keys; the shared
  facts come from the locales of \<open>Aggregation_Core\<close>.
\<close>

datatype HotelSortKey = HOTEL_BEST | HOTEL_PRICE | HOTEL_RATING | HOTEL_REVIEWS

record HotelFilters =
  hotel_max_price :: "int option"
  min_rating :: "pyfloat option"
  wanted_amenities :: "string set"

definition default_hotel_filters :: HotelFilters where
  "default_hotel_filters = \<lparr>hotel_max_price = None, min_rating = None, wanted_amenities = {}\<rparr>"

definition hotel_matches :: "HotelFilters \<Rightarrow> NormalizedHotel \<Rightarrow> bool" where
  "hotel_matches fs h =
     (if (case min_rating fs of None \<Rightarrow> False | Some m \<Rightarrow> rating h < m) then False
      else if (case hotel_max_price fs of None \<Rightarrow> False | Some m \<Rightarrow> amount_minor (price_per_night h) > m)
      then False
      else wanted_amenities fs \<subseteq> set (amenities h))"

record RankedHotel =
  hotel :: NormalizedHotel
  hotel_score :: pyfloat

record HotelResult =
  hotel_items :: "RankedHotel list"
  hotel_meta :: SearchMeta
  hotel_next_cursor :: "string option"
  hotel_has_more :: bool

definition HotelAggregationService :: "HotelProvider list \<Rightarrow> HotelProvider list result" where
  "HotelAggregationService providers =
     (if providers = [] then Inl (ValueError ''at least one hotel provider is required'')
      else Inr providers)"

definition hotel_fan_out :: "HotelProvider list \<Rightarrow> HotelSearchQuery \<Rightarrow> NormalizedHotel list \<times> int \<times> int" where
  "hotel_fan_out providers query = merge_results (map (\<lambda>p. hp_search p query) providers)"

definition hotel_key :: "NormalizedHotel \<Rightarrow> string \<times> string" where
  "hotel_key h = (str_lower (hotel_name h), str_lower (city h))"

abbreviation hotel_cost :: "NormalizedHotel \<Rightarrow> int" where
  "hotel_cost h \<equiv> amount_minor (price_per_night h)"

definition hotel_dedupe_step ::
  "(string \<times> string, NormalizedHotel) dict \<Rightarrow> NormalizedHotel \<Rightarrow> (string \<times> string, NormalizedHotel) dict" where
  "hotel_dedupe_step best h =
     (let key = hotel_key h; current = hotel_cost h
      in case dict_get best key of
           None \<Rightarrow> dict_set key h best
         | Some existing \<Rightarrow> if current < hotel_cost existing then dict_set key h best else best)"

definition hotel_dedupe :: "NormalizedHotel list \<Rightarrow> NormalizedHotel list" where
  "hotel_dedupe hotels = dict_values (foldl hotel_dedupe_step [] hotels)"

definition score_hotel :: "int \<Rightarrow> int \<Rightarrow> NormalizedHotel \<Rightarrow> pyfloat" where
  "score_hotel min_price price_span h =
     (let price_norm = span_ratio (hotel_cost h - min_price) price_span;
          rating_norm = fdiv (rating h) 5
      in py_round 3 (fadd (fmul (fl (3/5)) rating_norm) (fmul (fl (2/5)) (fsub 1 price_norm))))"

definition hotel_rank :: "NormalizedHotel list \<Rightarrow> RankedHotel list" where
  "hotel_rank hotels =
     (if hotels = [] then []
      else
        let prices = map hotel_cost hotels; min_price = Min (set prices);
            price_span = Max (set prices) - min_price
        in map (\<lambda>h. \<lparr>hotel = h, hotel_score = score_hotel min_price price_span h\<rparr>) hotels)"

definition sort_hotels :: "RankedHotel list \<Rightarrow> HotelSortKey \<Rightarrow> RankedHotel list" where
  "sort_hotels ranked key =
     (case key of
        HOTEL_BEST \<Rightarrow> sort_key (\<lambda>r. - hotel_score r) ranked
      | HOTEL_PRICE \<Rightarrow> sort_key (\<lambda>r. float_of_int (hotel_cost (hotel r))) ranked
      | HOTEL_RATING \<Rightarrow> sort_key (\<lambda>r. - rating (hotel r)) ranked
      | HOTEL_REVIEWS \<Rightarrow> sort_key (\<lambda>r. float_of_int (- reviews_count (hotel r))) ranked)"

definition hotel_search ::
  "HotelProvider list \<Rightarrow> HotelSearchQuery \<Rightarrow> HotelSortKey \<Rightarrow> HotelFilters option \<Rightarrow> int \<Rightarrow> string option
   \<Rightarrow> HotelResult" where
  "hotel_search providers query key filters limit cursor =
     (let fs = (case filters of None \<Rightarrow> default_hotel_filters | Some f \<Rightarrow> f);
          (hotels, ok, failed) = hotel_fan_out providers query;
          deduped = hotel_dedupe hotels;
          filtered = filter (hotel_matches fs) deduped;
          ranked = hotel_rank filtered;
          ordered = sort_hotels ranked key;
          (page, next, more) = paginate ordered limit cursor
      in \<lparr>hotel_items = page,
          hotel_meta = \<lparr>degraded = failed > 0, providers_ok = ok, providers_failed = failed,
                        total = int (length ordered)\<rparr>,
          hotel_next_cursor = next, hotel_has_more = more\<rparr>)"


section \<open>De-duplication\<close>

interpretation hd: cheapest_offer hotel_key hotel_cost hotel_dedupe_step hotel_dedupe
  by unfold_locales (simp_all add: hotel_dedupe_step_def hotel_dedupe_def)


section \<open>Scores\<close>

lemma fl_weight_rating: "fl (3/5) = 5404319552844595 / 2 ^ 53"
proof -
  have "round_half_even (3 / 5 * 2 ^ 53) = 5404319552844595"
    by (rule round_half_even_unique) simp
  then have "fl (3/5) = of_int 5404319552844595 * 2 powi (- 1 - 52)"
    by (intro fl_eval_pos) (simp_all add: power_int_minus field_simps)
  then show ?thesis by (simp add: power_int_minus field_simps)
qed

lemma fl_weight_price: "fl (2/5) = 7205759403792794 / 2 ^ 54"
proof -
  have "round_half_even (2 / 5 * 2 ^ 54) = 7205759403792794"
    by (rule round_half_even_unique) simp
  then have "fl (2/5) = of_int 7205759403792794 * 2 powi (- 2 - 52)"
    by (intro fl_eval_pos) (simp_all add: power_int_minus field_simps)
  then show ?thesis by (simp add: power_int_minus field_simps)
qed

text \<open>The unrounded score, from the normalised rating and the normalised cheapness.\<close>

definition merit :: "pyfloat \<Rightarrow> pyfloat \<Rightarrow> pyfloat" where
  "merit a b = fadd (fmul (fl (3/5)) a) (fmul (fl (2/5)) b)"

lemma merit_mono: "a \<le> a' \<Longrightarrow> b \<le> b' \<Longrightarrow> merit a b \<le> merit a' b'"
  unfolding merit_def fadd_def fmul_def
  by (intro fl_mono add_mono b64.rnd_scaled_mono) simp_all

lemma merit_unit:
  assumes "0 \<le> a" "a \<le> 1" "0 \<le> b" "b \<le> 1"
  shows "0 \<le> merit a b \<and> merit a b \<le> 1"
proof -
  have "merit 0 0 = 0" by (simp add: merit_def fadd_def fmul_def)
  moreover have "merit 1 1 = 1"
    by (simp add: merit_def fadd_def fmul_def) (simp add: fl_weight_rating fl_weight_price)
  ultimately show ?thesis
    using merit_mono [of 0 a 0 b] merit_mono [of a 1 b 1] assms by simp
qed

lemma score_hotel_merit:
  "score_hotel mp ps h = py_round 3 (merit (fdiv (rating h) 5) (fsub 1 (span_ratio (hotel_cost h - mp) ps)))"
  by (simp add: score_hotel_def merit_def Let_def)

lemma map_hotel_rank [simp]: "map hotel (hotel_rank hs) = hs"
  by (simp add: hotel_rank_def Let_def comp_def)

lemma length_hotel_rank [simp]: "length (hotel_rank hs) = length hs"
  by (metis length_map map_hotel_rank)

lemma hotel_rank_entry:
  assumes "r \<in> set (hotel_rank hs)"
  shows "hotel r \<in> set hs"
    and "hotel_score r = score_hotel (Min (hotel_cost ` set hs))
           (Max (hotel_cost ` set hs) - Min (hotel_cost ` set hs)) (hotel r)"
  using assms by (auto simp: hotel_rank_def Let_def split: if_splits)

lemma hotel_score_unit:
  assumes "r \<in> set (hotel_rank hs)" "0 \<le> rating (hotel r)" "rating (hotel r) \<le> 5"
  shows "0 \<le> hotel_score r \<and> hotel_score r \<le> 1"
proof -
  note p = extreme_ratio_unit [OF hotel_rank_entry(1) [OF assms(1)], of hotel_cost]
  have "0 \<le> fdiv (rating (hotel r)) 5" "fdiv (rating (hotel r)) 5 \<le> 1"
    unfolding fdiv_def using b64.rnd_unit [of "rating (hotel r) / 5"] assms by simp_all
  moreover have "0 \<le> fsub 1 x \<and> fsub 1 x \<le> 1" if "0 \<le> x" "x \<le> 1" for x
    unfolding fsub_def using b64.rnd_unit [of "1 - x"] that by simp
  ultimately show ?thesis
    unfolding hotel_rank_entry(2) [OF assms(1)] score_hotel_merit
    using p by (intro py_round_unit; simp add: merit_unit)
qed

lemma hotel_score_mono:
  assumes "r \<in> set (hotel_rank hs)" "r' \<in> set (hotel_rank hs)"
    and "hotel_cost (hotel r) \<le> hotel_cost (hotel r')" and "rating (hotel r') \<le> rating (hotel r)"
  shows "hotel_score r' \<le> hotel_score r"
proof -
  have "Min (hotel_cost ` set hs) \<le> Max (hotel_cost ` set hs)"
    using list_extremes [OF hotel_rank_entry(1) [OF assms(1)], of hotel_cost] by simp
  then show ?thesis
    unfolding hotel_rank_entry(2) [OF assms(1)] hotel_rank_entry(2) [OF assms(2)]
      score_hotel_merit fsub_def fdiv_def
    using assms(3,4)
    by (intro py_round_mono merit_mono fl_mono diff_left_mono span_ratio_mono divide_right_mono) simp_all
qed


section \<open>The whole search\<close>

definition hotel_order :: "HotelSortKey \<Rightarrow> RankedHotel \<Rightarrow> rat" where
  "hotel_order key r =
     (case key of
        HOTEL_BEST \<Rightarrow> - hotel_score r
      | HOTEL_PRICE \<Rightarrow> float_of_int (hotel_cost (hotel r))
      | HOTEL_RATING \<Rightarrow> - rating (hotel r)
      | HOTEL_REVIEWS \<Rightarrow> float_of_int (- reviews_count (hotel r)))"

lemma sort_hotels_eq: "sort_hotels ranked key = sort_key (hotel_order key) ranked"
  by (cases key) (simp_all add: sort_hotels_def hotel_order_def [abs_def])

definition hotel_offers :: "HotelProvider list \<Rightarrow> HotelSearchQuery \<Rightarrow> NormalizedHotel list" where
  "hotel_offers providers query = concat (map (\<lambda>p. answer (hp_search p query)) providers)"

definition effective_hotel_filters :: "HotelFilters option \<Rightarrow> HotelFilters" where
  "effective_hotel_filters fo = (case fo of None \<Rightarrow> default_hotel_filters | Some f \<Rightarrow> f)"

definition ranked_hotel_offers ::
  "HotelProvider list \<Rightarrow> HotelSearchQuery \<Rightarrow> HotelFilters option \<Rightarrow> RankedHotel list" where
  "ranked_hotel_offers providers query fo =
     hotel_rank (filter (hotel_matches (effective_hotel_filters fo)) (hotel_dedupe (hotel_offers providers query)))"

lemma hotel_search_eq:
  "hotel_search providers query key fo limit cursor =
     (let ordered = sort_key (hotel_order key) (ranked_hotel_offers providers query fo)
      in \<lparr>hotel_items = fst (paginate ordered limit cursor),
          hotel_meta = \<lparr>degraded = \<exists>p \<in> set providers. is_failure (hp_search p query),
             providers_ok = int (length (filter (\<lambda>p. \<not> is_failure (hp_search p query)) providers)),
             providers_failed = int (length (filter (\<lambda>p. is_failure (hp_search p query)) providers)),
             total = int (length ordered)\<rparr>,
          hotel_next_cursor = fst (snd (paginate ordered limit cursor)),
          hotel_has_more = snd (snd (paginate ordered limit cursor))\<rparr>)"
proof -
  have "hotel_fan_out providers query =
     (hotel_offers providers query,
      int (length (filter (\<lambda>p. \<not> is_failure (hp_search p query)) providers)),
      int (length (filter (\<lambda>p. is_failure (hp_search p query)) providers)))"
    by (simp add: hotel_fan_out_def merge_results_eq hotel_offers_def filter_map comp_def)
  moreover have "0 < length (filter (\<lambda>p. is_failure (hp_search p query)) providers)
        \<longleftrightarrow> (\<exists>p \<in> set providers. is_failure (hp_search p query))"
    by (auto simp: filter_empty_conv)
  ultimately show ?thesis
    by (simp add: hotel_search_def ranked_hotel_offers_def effective_hotel_filters_def Let_def
        case_prod_beta sort_hotels_eq)
qed

definition hotel_page ::
  "HotelProvider list \<Rightarrow> HotelSearchQuery \<Rightarrow> HotelSortKey \<Rightarrow> HotelFilters option \<Rightarrow> int \<Rightarrow> string option
   \<Rightarrow> RankedHotel list \<times> string option \<times> bool" where
  "hotel_page providers query key fo limit cursor =
     (let res = hotel_search providers query key fo limit cursor
      in (hotel_items res, hotel_next_cursor res, hotel_has_more res))"

lemma hotel_page_eq:
  "hotel_page providers query key fo limit
   = paginate (sort_key (hotel_order key) (ranked_hotel_offers providers query fo)) limit"
  by (rule ext) (simp add: hotel_page_def hotel_search_eq Let_def)

lemma length_ranked_hotel_offers:
  "length (ranked_hotel_offers providers query fo) \<le> length (hotel_offers providers query)"
proof -
  have "length (hotel_dedupe xs) \<le> length xs" for xs
    using length_remdups_leq [of "rev (map hotel_key xs)"]
    by (simp add: hd.dedupe_eq first_occurrences_def)
  then show ?thesis
    unfolding ranked_hotel_offers_def length_hotel_rank by (meson length_filter_le order_trans)
qed


section \<open>Properties of the hotel search\<close>

definition example_hotel :: "string \<Rightarrow> int \<Rightarrow> pyfloat \<Rightarrow> NormalizedHotel" where
  "example_hotel name amount stars =
     \<lparr>hotel_id = ''h'', hotel_provider = ''x'', hotel_name = name, city = ''Rome'', rating = stars,
      reviews_count = 10, price_per_night = \<lparr>amount_minor = amount, currency = ''USD''\<rparr>,
      amenities = [''wifi'', ''pool'']\<rparr>"

definition example_hotel_query :: HotelSearchQuery where
  "example_hotel_query = \<lparr>q_city = ''Rome'', q_check_in = Date 2026 8 10, q_check_out = Date 2026 8 12, q_guests = 2\<rparr>"

definition example_hotel_providers :: "HotelProvider list" where
  "example_hotel_providers =
     [\<lparr>hp_name = ''x'', hp_search = \<lambda>_. Inr [example_hotel ''Grand Inn'' 9000 4, example_hotel ''Park Inn'' 7000 3]\<rparr>,
      \<lparr>hp_name = ''y'', hp_search = \<lambda>_. Inr [example_hotel ''grand inn'' 8000 4]\<rparr>]"

lemma hotel_matches_iff:
  "hotel_matches fs h \<longleftrightarrow>
     (\<forall>m. min_rating fs = Some m \<longrightarrow> m \<le> rating h)
     \<and> (\<forall>m. hotel_max_price fs = Some m \<longrightarrow> hotel_cost h \<le> m)
     \<and> wanted_amenities fs \<subseteq> set (amenities h)"
  by (auto simp: hotel_matches_def split: option.splits if_splits)

lemma hotel_offers_example:
  "hotel_offers example_hotel_providers example_hotel_query =
     [example_hotel ''Grand Inn'' 9000 4, example_hotel ''Park Inn'' 7000 3, example_hotel ''grand inn'' 8000 4]"
  by (simp add: hotel_offers_def example_hotel_providers_def answer_def)

text \<open>
  C6: a hotel search always returns; each hotel it lists was offered by an answering provider,
  obeys the filters that are set, is the cheapest offer of that hotel name and city, scores between 0 and 1,
  and a hotel that is no dearer and rated no lower than another scores no lower.
\<close>

theorem hotel_items_sound:
  assumes "r \<in> set (hotel_items (hotel_search providers query key fo limit cursor))"
    and "r' \<in> set (hotel_items (hotel_search providers query key fo limit cursor))"
    and "\<forall>h \<in> set (hotel_offers providers query). 0 \<le> rating h \<and> rating h \<le> 5"
  shows "(\<exists>p \<in> set providers. \<exists>hs. hp_search p query = Inr hs \<and> hotel r \<in> set hs)
    \<and> (\<forall>fs. fo = Some fs \<longrightarrow>
         (\<forall>m. min_rating fs = Some m \<longrightarrow> m \<le> rating (hotel r))
         \<and> (\<forall>m. hotel_max_price fs = Some m \<longrightarrow> hotel_cost (hotel r) \<le> m)
         \<and> wanted_amenities fs \<subseteq> set (amenities (hotel r)))
    \<and> (\<forall>h \<in> set (hotel_offers providers query). hotel_key h = hotel_key (hotel r) \<longrightarrow>
         hotel_cost (hotel r) \<le> hotel_cost h)
    \<and> 0 \<le> hotel_score r \<and> hotel_score r \<le> 1
    \<and> (hotel_cost (hotel r) \<le> hotel_cost (hotel r') \<and> rating (hotel r') \<le> rating (hotel r) \<longrightarrow>
         hotel_score r' \<le> hotel_score r)"
proof -
  have item: "x \<in> set (ranked_hotel_offers providers query fo)"
    if "x \<in> set (hotel_items (hotel_search providers query key fo limit cursor))" for x
    using that paginate_subset by (fastforce simp: hotel_search_eq Let_def)
  let ?hs = "filter (hotel_matches (effective_hotel_filters fo)) (hotel_dedupe (hotel_offers providers query))"
  have r: "r \<in> set (hotel_rank ?hs)" "r' \<in> set (hotel_rank ?hs)"
    using item [OF assms(1)] item [OF assms(2)] by (simp_all add: ranked_hotel_offers_def)
  have h: "hotel r \<in> set ?hs" using r(1) by (rule hotel_rank_entry)
  then have d: "hotel r \<in> set (hotel_dedupe (hotel_offers providers query))" by simp
  have o: "hotel r \<in> set (hotel_offers providers query)" using d by (rule hd.dedupe_least)
  then obtain p where "p \<in> set providers" "hotel r \<in> set (answer (hp_search p query))"
    by (auto simp: hotel_offers_def)
  then have "\<exists>p \<in> set providers. \<exists>hs. hp_search p query = Inr hs \<and> hotel r \<in> set hs"
    by (cases "hp_search p query") (auto simp: answer_def)
  moreover have "0 \<le> hotel_score r \<and> hotel_score r \<le> 1"
    using o assms(3) by (intro hotel_score_unit [OF r(1)]) auto
  moreover have "hotel_matches fs (hotel r)" if "fo = Some fs" for fs
    using h that by (simp add: effective_hotel_filters_def)
  ultimately show ?thesis
    using hd.dedupe_least(2) [OF d] hotel_score_mono [OF r] by (simp add: hotel_matches_iff)
qed

theorem hotel_items_sound_witness:
  "\<exists>r. r \<in> set (hotel_items (hotel_search example_hotel_providers example_hotel_query HOTEL_BEST None 20 None))
     \<and> hotel_score r \<le> 1"
proof -
  define ordered where
    "ordered = sort_key (hotel_order HOTEL_BEST) (ranked_hotel_offers example_hotel_providers example_hotel_query None)"
  have "example_hotel ''Park Inn'' 7000 3 \<in> set (hotel_offers example_hotel_providers example_hotel_query)"
    by (simp add: hotel_offers_example)
  then have ne: "hotel_dedupe (hotel_offers example_hotel_providers example_hotel_query) \<noteq> []"
    using hd.dedupe_covers by fastforce
  have "hotel_matches default_hotel_filters = (\<lambda>_. True)"
    by (rule ext) (simp add: default_hotel_filters_def hotel_matches_def)
  then have "length ordered = length (hotel_dedupe (hotel_offers example_hotel_providers example_hotel_query))"
    by (simp add: ordered_def ranked_hotel_offers_def effective_hotel_filters_def)
  with ne obtain x xs where o: "ordered = x # xs" by (cases ordered) auto
  have "hotel_items (hotel_search example_hotel_providers example_hotel_query HOTEL_BEST None 20 None)
        = fst (paginate ordered 20 None)"
    by (simp add: hotel_search_eq ordered_def Let_def)
  then have "x \<in> set (hotel_items (hotel_search example_hotel_providers example_hotel_query HOTEL_BEST None 20 None))"
    by (simp add: o paginate_page)
  moreover have "\<forall>h \<in> set (hotel_offers example_hotel_providers example_hotel_query). 0 \<le> rating h \<and> rating h \<le> 5"
    by (simp add: hotel_offers_example example_hotel_def)
  ultimately show ?thesis using hotel_items_sound by blast
qed

text \<open>
  Following the cursors of a hotel search yields every filtered, de-duplicated hotel once, in
  the requested order.
\<close>

lemma hotel_pages_complete:
  assumes "1 \<le> limit" and "length (hotel_offers providers query) < n" and "int n \<le> 10 ^ max_str_digits"
  shows "let pages = concat (follow_pages (hotel_page providers query key fo limit) n None)
    in mset (map hotel pages)
         = mset (filter (hotel_matches (effective_hotel_filters fo)) (hotel_dedupe (hotel_offers providers query)))
       \<and> sorted (map (hotel_order key) pages)"
proof -
  let ?all = "sort_key (hotel_order key) (ranked_hotel_offers providers query fo)"
  have "length ?all < n" using length_ranked_hotel_offers [of providers query fo] assms(2) by simp
  moreover from this have "int (length ?all) \<le> 10 ^ max_str_digits" using assms(3) by linarith
  ultimately have "concat (follow_pages (hotel_page providers query key fo limit) n None) = ?all"
    unfolding hotel_page_eq paginate_def by (intro b64_cursor.follow_all assms(1))
  moreover have "mset (map hotel ?all)
      = mset (filter (hotel_matches (effective_hotel_filters fo)) (hotel_dedupe (hotel_offers providers query)))"
    by (metis map_hotel_rank mset_map mset_sort ranked_hotel_offers_def)
  ultimately show ?thesis by (simp add: Let_def)
qed

lemma hotel_pages_complete_example:
  "sorted (map (hotel_order HOTEL_PRICE)
     (concat (follow_pages (hotel_page example_hotel_providers example_hotel_query HOTEL_PRICE None 1) 5 None)))"
  using hotel_pages_complete [of 1 example_hotel_providers example_hotel_query 5 HOTEL_PRICE None]
    small_bound [of 5]
  by (simp add: hotel_offers_example Let_def)

end
