(* ===== verification/Circuit_Breaker.thy ===== *)
theory Circuit_Breaker
  imports App_Errors
begin

text \<open>
  \<^verbatim>\<open>app/resilience/circuit_breaker.py\<close>.  The breaker's two locked sections, admission and
  completion, are separate operations, because other calls run between them; \<open>call\<close> composes them
  around the protected function for one call that runs alone, and the relation \<open>cb_step\<close> lets any
  number of calls interleave.
\<close>

datatype CircuitState = CLOSED | OPEN | HALF_OPEN

record breaker =
  cb_name :: string
  failure_threshold :: int
  recovery_seconds :: pyfloat
  cb_state :: CircuitState
  failures :: int
  opened_at :: pyfloat

definition CircuitBreaker :: "string \<Rightarrow> int \<Rightarrow> pyfloat \<Rightarrow> breaker" where
  "CircuitBreaker name threshold recovery =
     \<lparr>cb_name = name, failure_threshold = threshold, recovery_seconds = recovery,
      cb_state = CLOSED, failures = 0, opened_at = 0\<rparr>"

definition maybe_half_open :: "pyfloat \<Rightarrow> breaker \<Rightarrow> breaker" where
  "maybe_half_open now b =
     (if cb_state b = OPEN \<and> recovery_seconds b \<le> fsub now (opened_at b)
      then b\<lparr>cb_state := HALF_OPEN\<rparr> else b)"

text \<open>The first locked section of \<open>call\<close>; on rejection the breaker is as \<open>maybe_half_open\<close> left it.\<close>

definition admit :: "pyfloat \<Rightarrow> breaker \<Rightarrow> exn option \<times> breaker" where
  "admit now b =
     (let b' = maybe_half_open now b
      in (if cb_state b' = OPEN then Some (CircuitBreakerOpen (cb_name b')) else None, b'))"

definition on_success :: "breaker \<Rightarrow> breaker" where
  "on_success b = b\<lparr>failures := 0, cb_state := CLOSED\<rparr>"

definition on_failure :: "pyfloat \<Rightarrow> breaker \<Rightarrow> breaker" where
  "on_failure now b =
     (let b' = b\<lparr>failures := failures b + 1\<rparr>
      in if cb_state b' = HALF_OPEN \<or> failure_threshold b' \<le> failures b'
         then b'\<lparr>cb_state := OPEN, opened_at := now\<rparr> else b')"

text \<open>
  How an awaited function ends: it returns, it raises an \<open>Exception\<close>, or it is torn down by a
  \<open>BaseException\<close> such as cancellation, which \<open>except Exception\<close> does not see.
\<close>

datatype 'a outcome = Returned 'a | Raised exn | Aborted

text \<open>\<open>clock\<close> reads the time of the surrounding world, \<open>func\<close> runs in it.\<close>

definition call ::
  "('s \<Rightarrow> pyfloat) \<Rightarrow> ('s \<Rightarrow> 'a outcome \<times> 's) \<Rightarrow> breaker \<Rightarrow> 's \<Rightarrow> 'a outcome \<times> breaker \<times> 's" where
  "call clock func b s =
     (case admit (clock s) b of
        (Some e, b') \<Rightarrow> (Raised e, b', s)
      | (None, b') \<Rightarrow>
          (case func s of
             (Returned v, s') \<Rightarrow> (Returned v, on_success b', s')
           | (Raised e, s') \<Rightarrow> (Raised e, on_failure (clock s') b', s')
           | (Aborted, s') \<Rightarrow> (Aborted, b', s')))"


section \<open>Single operations\<close>

definition breaker_inv :: "breaker \<Rightarrow> bool" where
  "breaker_inv b \<longleftrightarrow>
     1 \<le> failure_threshold b \<and> 0 \<le> failures b
     \<and> (cb_state b = CLOSED \<longleftrightarrow> failures b < failure_threshold b)"

lemmas breaker_ops = maybe_half_open_def admit_def on_success_def on_failure_def Let_def

lemma admit_inv: "breaker_inv b \<Longrightarrow> breaker_inv (snd (admit now b))"
  and on_success_inv: "breaker_inv b \<Longrightarrow> breaker_inv (on_success b)"
  and on_failure_inv: "breaker_inv b \<Longrightarrow> breaker_inv (on_failure now b)"
  by (auto simp: breaker_inv_def breaker_ops)

lemma new_breaker_inv: "1 \<le> threshold \<Longrightarrow> breaker_inv (CircuitBreaker name threshold recovery)"
  by (simp add: breaker_inv_def CircuitBreaker_def)

lemma breaker_config [simp]:
  "failure_threshold (snd (admit now b)) = failure_threshold b"
  "recovery_seconds (snd (admit now b)) = recovery_seconds b"
  "failure_threshold (on_success b) = failure_threshold b"
  "recovery_seconds (on_success b) = recovery_seconds b"
  "failure_threshold (on_failure now b) = failure_threshold b"
  "recovery_seconds (on_failure now b) = recovery_seconds b"
  by (simp_all add: breaker_ops)

lemma call_inv:
  assumes "breaker_inv b" "call clock func b s = (r, b', s')"
  shows "breaker_inv b'"
proof -
  have "breaker_inv (snd (admit (clock s) b))" using assms(1) by (rule admit_inv)
  then show ?thesis
    using assms(2) by (auto simp: call_def on_success_inv on_failure_inv
        split: prod.splits option.splits outcome.splits)
qed


section \<open>Interleaved calls\<close>

text \<open>The breaker, the number of admitted calls that have not finished, and the loop's clock.\<close>

record cb_world =
  guard :: breaker
  in_flight :: nat
  now :: pyfloat

datatype cb_event = Tick pyfloat | Admit | Reject | Succeed | Fail | Abort

inductive cb_step :: "cb_world \<Rightarrow> cb_event \<Rightarrow> cb_world \<Rightarrow> bool" where
  tick: "now w \<le> t \<Longrightarrow> cb_step w (Tick t) (w\<lparr>now := t\<rparr>)"
| admitted: "admit (now w) (guard w) = (None, b) \<Longrightarrow>
     cb_step w Admit (w\<lparr>guard := b, in_flight := Suc (in_flight w)\<rparr>)"
| rejected: "admit (now w) (guard w) = (Some e, b) \<Longrightarrow> cb_step w Reject (w\<lparr>guard := b\<rparr>)"
| succeeded: "in_flight w = Suc n \<Longrightarrow>
     cb_step w Succeed (w\<lparr>guard := on_success (guard w), in_flight := n\<rparr>)"
| failed: "in_flight w = Suc n \<Longrightarrow>
     cb_step w Fail (w\<lparr>guard := on_failure (now w) (guard w), in_flight := n\<rparr>)"
| aborted: "in_flight w = Suc n \<Longrightarrow> cb_step w Abort (w\<lparr>in_flight := n\<rparr>)"

inductive_cases cb_stepE [elim!]:
  "cb_step w (Tick t) w'" "cb_step w Admit w'" "cb_step w Reject w'"
  "cb_step w Succeed w'" "cb_step w Fail w'" "cb_step w Abort w'"

inductive_simps cb_step_simps [simp]:
  "cb_step w (Tick t) w'" "cb_step w Admit w'" "cb_step w Reject w'"
  "cb_step w Succeed w'" "cb_step w Fail w'" "cb_step w Abort w'"

inductive cb_run :: "cb_world \<Rightarrow> cb_event list \<Rightarrow> cb_world \<Rightarrow> bool" where
  cb_nil: "cb_run w [] w"
| cb_cons: "cb_step w e w' \<Longrightarrow> cb_run w' es w'' \<Longrightarrow> cb_run w (e # es) w''"

inductive_simps cb_run_simps [simp]: "cb_run w [] w'" "cb_run w (e # es) w'"

definition cb_start :: "string \<Rightarrow> int \<Rightarrow> pyfloat \<Rightarrow> pyfloat \<Rightarrow> cb_world" where
  "cb_start name threshold recovery t =
     \<lparr>guard = CircuitBreaker name threshold recovery, in_flight = 0, now = t\<rparr>"

lemma cb_step_inv: "cb_step w e w' \<Longrightarrow> breaker_inv (guard w) \<Longrightarrow> breaker_inv (guard w')"
proof (induction rule: cb_step.induct)
  case (admitted w b)
  then show ?case using admit_inv [of "guard w" "now w"] by simp
next
  case (rejected w e b)
  then show ?case using admit_inv [of "guard w" "now w"] by simp
qed (simp_all add: on_success_inv on_failure_inv)

lemma cb_run_inv: "cb_run w es w' \<Longrightarrow> breaker_inv (guard w) \<Longrightarrow> breaker_inv (guard w')"
  by (induction rule: cb_run.induct) (auto dest: cb_step_inv)

text \<open>A rejected call changes nothing: it needs an open breaker whose recovery time has not passed.\<close>

lemma admit_Some_iff:
  "admit t b = (Some e, b') \<longleftrightarrow>
     cb_state b = OPEN \<and> fsub t (opened_at b) < recovery_seconds b
     \<and> b' = b \<and> e = CircuitBreakerOpen (cb_name b)"
  by (auto simp: breaker_ops split: if_splits)

lemma admit_None_iff:
  "admit t b = (None, b') \<longleftrightarrow>
     (cb_state b \<noteq> OPEN \<and> b' = b)
     \<or> (cb_state b = OPEN \<and> recovery_seconds b \<le> fsub t (opened_at b) \<and> b' = b\<lparr>cb_state := HALF_OPEN\<rparr>)"
  by (auto simp: breaker_ops split: if_splits)

text \<open>Consecutive failures of calls that run one after the other.\<close>

fun fail_calls :: "pyfloat list \<Rightarrow> breaker \<Rightarrow> breaker" where
  "fail_calls [] b = b"
| "fail_calls (t # ts) b =
     (case admit t b of (Some e, b') \<Rightarrow> fail_calls ts b' | (None, b') \<Rightarrow> fail_calls ts (on_failure t b'))"

lemma fail_calls_closed:
  assumes "cb_state b = CLOSED" "failures b + int (length ts) < failure_threshold b"
  shows "fail_calls ts b = b\<lparr>failures := failures b + int (length ts)\<rparr>"
  using assms
proof (induction ts arbitrary: b)
  case (Cons t ts)
  then have "admit t b = (None, b)" by (simp add: admit_None_iff)
  moreover have "on_failure t b = b\<lparr>failures := failures b + 1\<rparr>"
    using Cons.prems by (simp add: breaker_ops)
  ultimately show ?case using Cons.prems Cons.IH [of "b\<lparr>failures := failures b + 1\<rparr>"]
    by (simp add: algebra_simps)
qed simp

lemma fail_calls_append: "fail_calls (ts @ us) b = fail_calls us (fail_calls ts b)"
  by (induction ts arbitrary: b) (auto split: prod.split option.split)

lemma fail_calls_opens:
  assumes "cb_state b = CLOSED" "failures b + int (length ts) + 1 = failure_threshold b"
  shows "fail_calls (ts @ [t]) b
         = b\<lparr>failures := failure_threshold b, cb_state := OPEN, opened_at := t\<rparr>"
proof -
  have "fail_calls ts b = b\<lparr>failures := failures b + int (length ts)\<rparr>"
    using assms by (intro fail_calls_closed) simp_all
  moreover have "failures b + int (length ts) = failure_threshold b - 1" using assms(2) by simp
  ultimately show ?thesis
    using assms(1) by (simp add: fail_calls_append breaker_ops)
qed


section \<open>Properties of the breaker\<close>

text \<open>
  C10: however admissions, successes, failures, cancellations and the clock interleave, the breaker
  is closed exactly while it has counted fewer failures than the threshold since the last success.
\<close>

theorem breaker_closed_iff_below_threshold:
  assumes "1 \<le> threshold" and "cb_run (cb_start name threshold recovery t) es w"
  shows "0 \<le> failures (guard w)
    \<and> (cb_state (guard w) = CLOSED \<longleftrightarrow> failures (guard w) < failure_threshold (guard w))"
proof -
  have "breaker_inv (guard w)"
    using cb_run_inv [OF assms(2)] new_breaker_inv [OF assms(1)] by (simp add: cb_start_def)
  then show ?thesis by (simp add: breaker_inv_def)
qed

theorem breaker_closed_iff_below_threshold_witness:
  "\<exists>w. cb_run (cb_start ''x'' 1 30 0) [Admit, Fail] w \<and> cb_state (guard w) \<noteq> CLOSED
     \<and> \<not> failures (guard w) < failure_threshold (guard w)"
proof -
  let ?w = "(cb_start ''x'' 1 30 0)
    \<lparr>guard := on_failure 0 (CircuitBreaker ''x'' 1 30), in_flight := 0\<rparr>"
  have run: "cb_run (cb_start ''x'' 1 30 0) [Admit, Fail] ?w"
    by (simp add: cb_start_def CircuitBreaker_def breaker_ops)
  have "cb_state (guard ?w) \<noteq> CLOSED" by (simp add: CircuitBreaker_def breaker_ops)
  then show ?thesis
    using run breaker_closed_iff_below_threshold [OF _ run] by (metis order_refl)
qed

text \<open>
  With calls made one after the other, a new breaker opens at its \<open>failure_threshold\<close>-th
  consecutive failure; from then on, until \<open>recovery_seconds\<close> have passed, a call is rejected without
  running the protected function and without changing anything.
\<close>

lemma breaker_opens_and_rejects:
  assumes "int (length ts) + 1 = threshold" and "fsub (clock s) t < recovery"
  shows "let b = fail_calls (ts @ [t]) (CircuitBreaker name threshold recovery)
    in cb_state b = OPEN \<and> opened_at b = t
       \<and> call clock func b s = (Raised (CircuitBreakerOpen name), b, s)
       \<and> (\<forall>us. length us \<le> length ts \<longrightarrow>
            cb_state (fail_calls us (CircuitBreaker name threshold recovery)) = CLOSED)"
proof -
  define b0 where "b0 = CircuitBreaker name threshold recovery"
  have b0: "cb_state b0 = CLOSED" "failures b0 = 0" "failure_threshold b0 = threshold"
    "recovery_seconds b0 = recovery" "cb_name b0 = name"
    by (simp_all add: b0_def CircuitBreaker_def)
  have open': "fail_calls (ts @ [t]) b0
      = b0\<lparr>failures := failure_threshold b0, cb_state := OPEN, opened_at := t\<rparr>"
    using b0 assms(1) by (intro fail_calls_opens) simp_all
  have "admit (clock s) (fail_calls (ts @ [t]) b0)
      = (Some (CircuitBreakerOpen name), fail_calls (ts @ [t]) b0)"
    using assms(2) b0 by (simp add: open' admit_Some_iff)
  moreover have "cb_state (fail_calls us b0) = CLOSED" if "length us \<le> length ts" for us
    using b0 assms(1) that by (subst fail_calls_closed) simp_all
  ultimately show ?thesis
    by (simp add: Let_def call_def open' flip: b0_def)
qed

lemma breaker_opens_and_rejects_example:
  "cb_state (fail_calls ([0, 1] @ [2]) (CircuitBreaker ''x'' 3 30)) = OPEN"
proof -
  have len: "int (length [0, 1 :: pyfloat]) + 1 = 3" by simp
  have "fsub 5 2 < 30" using fl_of_int [of 3] by (simp add: fsub_def)
  then show ?thesis
    using breaker_opens_and_rejects [OF len, of "\<lambda>s. 5" "()" 2 30 "''x''" "\<lambda>s. (Aborted, s)"]
    unfolding Let_def by blast
qed

text \<open>
  Once the recovery time has passed, the next call of an open breaker runs the function as a
  probe: a normal return closes the breaker and clears the count, an exception re-opens it at the
  time of the failure.
\<close>

lemma breaker_probe:
  assumes "cb_state b = OPEN" and "recovery_seconds b \<le> fsub (clock s) (opened_at b)"
  shows "call clock func b s =
    (case func s of
       (Returned v, s') \<Rightarrow> (Returned v, b\<lparr>failures := 0, cb_state := CLOSED\<rparr>, s')
     | (Raised e, s') \<Rightarrow>
         (Raised e, b\<lparr>failures := failures b + 1, cb_state := OPEN, opened_at := clock s'\<rparr>, s')
     | (Aborted, s') \<Rightarrow> (Aborted, b\<lparr>cb_state := HALF_OPEN\<rparr>, s'))"
  using assms
  by (simp add: call_def breaker_ops split: prod.split outcome.split)

text \<open>
  An open breaker does not keep rejecting for \<open>recovery_seconds\<close> when calls overlap: a call
  admitted earlier that succeeds late closes it at once, and the next call is admitted with no time
  passed.  An elapsed breaker also admits several probes at the same time.
\<close>

lemma overlapping_calls_bypass_recovery:
  "\<exists>w w'. cb_run (cb_start ''x'' 1 30 0) [Admit, Admit, Fail] w \<and> cb_state (guard w) = OPEN
     \<and> cb_run w [Succeed, Admit] w' \<and> cb_state (guard w') = CLOSED \<and> now w' = opened_at (guard w)
     \<and> (\<exists>w''. cb_run (cb_start ''x'' 1 30 0) [Admit, Fail, Tick 30, Admit, Admit] w''
          \<and> cb_state (guard w'') = HALF_OPEN \<and> in_flight w'' = 2)"
proof -
  have "fsub 30 0 = 30" using fl_of_int [of 30] by (simp add: fsub_def)
  then show ?thesis by (simp add: cb_start_def CircuitBreaker_def breaker_ops)
qed

end
