(* ===== verification/Cache_Store.thy ===== *)
theory Cache_Store
  imports App_Errors
begin

text \<open>
  \<^verbatim>\<open>app/resilience/cache.py\<close>.  The \<open>Cache\<close> protocol is the locale \<open>ttl_cache\<close>, whose
  clients are the token denylist and the HTTP client; \<open>InMemoryCache\<close> is interpreted as one.
  \<open>RedisCache\<close> forwards to a Redis client, which is a parameter.  Each operation runs under the
  cache's lock, so an operation is one atomic step at the time the monotonic clock shows.
\<close>

section \<open>The protocol\<close>

text \<open>
  \<open>get t k\<close> and \<open>put t k v ttl\<close> happen at time \<open>t\<close>; \<open>view c t k\<close> is the value that the cache \<open>c\<close> holds
  for \<open>k\<close> at time \<open>t\<close>.  An entry written at \<open>t\<close> with a lifetime of \<open>ttl\<close> seconds is visible strictly
  before \<open>deadline t ttl\<close>.
\<close>

datatype cache_op = Get string | Set string string int | Delete string

text \<open>
  The abstract cache never forgets: it maps each key to the last value written and its deadline, and
  hides the value from the deadline on.
\<close>

type_synonym cache_spec = "string \<Rightarrow> (string \<times> pyfloat) option"

definition spec_view :: "cache_spec \<Rightarrow> pyfloat \<Rightarrow> string \<Rightarrow> string option" where
  "spec_view m t k = (case m k of None \<Rightarrow> None | Some (v, e) \<Rightarrow> if t < e then Some v else None)"

fun spec_run :: "(pyfloat \<Rightarrow> int \<Rightarrow> pyfloat) \<Rightarrow> (pyfloat \<times> cache_op) list \<Rightarrow> cache_spec \<Rightarrow> string option list" where
  "spec_run deadline [] m = []"
| "spec_run deadline ((t, Get k) # ops) m = spec_view m t k # spec_run deadline ops m"
| "spec_run deadline ((t, Set k v ttl) # ops) m = spec_run deadline ops (m(k \<mapsto> (v, deadline t ttl)))"
| "spec_run deadline ((t, Delete k) # ops) m = spec_run deadline ops (m(k := None))"

text \<open>The answers of the \<open>get\<close> calls in a sequence of operations on a concrete cache.\<close>

fun ops_run ::
  "(pyfloat \<Rightarrow> string \<Rightarrow> 'c \<Rightarrow> string option \<times> 'c) \<Rightarrow> (pyfloat \<Rightarrow> string \<Rightarrow> string \<Rightarrow> int \<Rightarrow> 'c \<Rightarrow> 'c)
   \<Rightarrow> (string \<Rightarrow> 'c \<Rightarrow> 'c) \<Rightarrow> (pyfloat \<times> cache_op) list \<Rightarrow> 'c \<Rightarrow> string option list" where
  "ops_run get put del [] c = []"
| "ops_run get put del ((t, Get k) # ops) c = (case get t k c of (r, c') \<Rightarrow> r # ops_run get put del ops c')"
| "ops_run get put del ((t, Set k v ttl) # ops) c = ops_run get put del ops (put t k v ttl c)"
| "ops_run get put del ((t, Delete k) # ops) c = ops_run get put del ops (del k c)"

locale ttl_cache =
  fixes get :: "pyfloat \<Rightarrow> string \<Rightarrow> 'c \<Rightarrow> string option \<times> 'c"
    and put :: "pyfloat \<Rightarrow> string \<Rightarrow> string \<Rightarrow> int \<Rightarrow> 'c \<Rightarrow> 'c"
    and del :: "string \<Rightarrow> 'c \<Rightarrow> 'c"
    and view :: "'c \<Rightarrow> pyfloat \<Rightarrow> string \<Rightarrow> string option"
    and deadline :: "pyfloat \<Rightarrow> int \<Rightarrow> pyfloat"
  assumes get_value: "fst (get t k c) = view c t k"
    and view_get: "t \<le> t' \<Longrightarrow> view (snd (get t k c)) t' k' = view c t' k'"
    and view_put: "view (put t k v ttl c) t' k' =
           (if k' = k then if t' < deadline t ttl then Some v else None else view c t' k')"
    and view_del: "view (del k c) t' k' = (if k' = k then None else view c t' k')"
begin

lemma get_after_put:
  "t' < deadline t ttl \<Longrightarrow> fst (get t' k (put t k v ttl c)) = Some v"
  by (simp add: get_value view_put)

lemma put_other: "k' \<noteq> k \<Longrightarrow> fst (get t' k' (put t k v ttl c)) = fst (get t' k' c)"
  by (simp add: get_value view_put)

lemma view_get_put_other:
  "t \<le> t' \<Longrightarrow> k' \<noteq> k \<Longrightarrow> view (snd (get t j (put t k v ttl c))) t' k' = view c t' k'"
  by (simp add: view_get view_put)

text \<open>
  The cache answers as the abstract one does, as long as the clock does not run backwards: what an
  implementation drops when it expires is never observed.
\<close>

lemma refines_spec:
  assumes "\<And>t' k. t \<le> t' \<Longrightarrow> view c t' k = spec_view m t' k"
    and "sorted (t # map fst ops)"
  shows "ops_run get put del ops c = spec_run deadline ops m"
  using assms
proof (induction ops arbitrary: t c m)
  case (Cons top ops)
  obtain t1 op where top: "top = (t1, op)" by fastforce
  have le: "t \<le> t1" "sorted (t1 # map fst ops)" using Cons.prems(2) top by auto
  then have view: "view c t' k = spec_view m t' k" if "t1 \<le> t'" for t' k
    using Cons.prems(1) that by auto
  show ?case
  proof (cases op)
    case (Get k)
    obtain r c' where g: "get t1 k c = (r, c')" by fastforce
    have "r = spec_view m t1 k" using g view get_value [of t1 k c] by simp
    moreover have "ops_run get put del ops c' = spec_run deadline ops m"
      using g view_get [of t1 _ k c] view le by (intro Cons.IH [of t1]) auto
    ultimately show ?thesis by (simp add: top Get g)
  next
    case (Set k v ttl)
    have "ops_run get put del ops (put t1 k v ttl c) = spec_run deadline ops (m(k \<mapsto> (v, deadline t1 ttl)))"
      using view le by (intro Cons.IH [of t1]) (auto simp: view_put spec_view_def)
    then show ?thesis by (simp add: top Set)
  next
    case (Delete k)
    have "ops_run get put del ops (del k c) = spec_run deadline ops (m(k := None))"
      using view le by (intro Cons.IH [of t1]) (auto simp: view_del spec_view_def)
    then show ?thesis by (simp add: top Delete)
  qed
qed simp

end


section \<open>The in-memory cache\<close>

type_synonym memory_cache = "(string, string \<times> pyfloat) dict"

definition InMemoryCache :: memory_cache where
  "InMemoryCache = []"

definition cache_get :: "pyfloat \<Rightarrow> string \<Rightarrow> memory_cache \<Rightarrow> string option \<times> memory_cache" where
  "cache_get monotonic key store =
     (case dict_get store key of
        None \<Rightarrow> (None, store)
      | Some (value, expires_at) \<Rightarrow>
          if expires_at \<le> monotonic then (None, dict_pop key store) else (Some value, store))"

definition cache_deadline :: "pyfloat \<Rightarrow> int \<Rightarrow> pyfloat" where
  "cache_deadline monotonic ttl = fadd monotonic (of_int ttl)"

definition cache_set :: "pyfloat \<Rightarrow> string \<Rightarrow> string \<Rightarrow> int \<Rightarrow> memory_cache \<Rightarrow> memory_cache" where
  "cache_set monotonic key value ttl store =
     dict_set key (value, cache_deadline monotonic ttl) store"

definition cache_delete :: "string \<Rightarrow> memory_cache \<Rightarrow> memory_cache" where
  "cache_delete key store = dict_pop key store"

definition cache_clear :: "memory_cache \<Rightarrow> memory_cache" where
  "cache_clear store = []"

text \<open>The entry that is live at a time.\<close>

definition cache_view :: "memory_cache \<Rightarrow> pyfloat \<Rightarrow> string \<Rightarrow> string option" where
  "cache_view store t k =
     (case dict_get store k of None \<Rightarrow> None | Some (v, e) \<Rightarrow> if t < e then Some v else None)"

interpretation mem: ttl_cache cache_get cache_set cache_delete cache_view cache_deadline
  by unfold_locales
     (auto simp: cache_get_def cache_set_def cache_delete_def cache_view_def split: option.splits)

text \<open>An object of the \<open>Cache\<close> protocol.\<close>

record 'c cache_ops =
  op_get :: "pyfloat \<Rightarrow> string \<Rightarrow> 'c \<Rightarrow> string option \<times> 'c"
  op_set :: "pyfloat \<Rightarrow> string \<Rightarrow> string \<Rightarrow> int \<Rightarrow> 'c \<Rightarrow> 'c"
  op_delete :: "string \<Rightarrow> 'c \<Rightarrow> 'c"

definition memory_cache_ops :: "memory_cache cache_ops" where
  "memory_cache_ops = \<lparr>op_get = cache_get, op_set = cache_set, op_delete = cache_delete\<rparr>"

lemma cache_keys_distinct:
  assumes "distinct (dict_keys c)"
  shows "distinct (dict_keys (snd (cache_get t k c)))"
    and "distinct (dict_keys (cache_set t k v ttl c))"
    and "distinct (dict_keys (cache_delete k c))"
  using assms
  by (auto simp: cache_get_def cache_set_def cache_delete_def distinct_delete split: option.split)


section \<open>The Redis cache\<close>

text \<open>
  The client library and the server are parameters: \<open>rget\<close>, \<open>rset\<close> (with an expiry in seconds) and
  \<open>rdel\<close> act on the server's state \<open>'r\<close> at a time.  A stored value comes back as bytes or, with a
  decoding client, as text.
\<close>

datatype redis_reply = Bytes string | Text string

definition redis_get ::
  "(pyfloat \<Rightarrow> string \<Rightarrow> 'r \<Rightarrow> redis_reply option) \<Rightarrow> pyfloat \<Rightarrow> string \<Rightarrow> 'r \<Rightarrow> string option \<times> 'r" where
  "redis_get rget t key r =
     (case rget t key r of
        None \<Rightarrow> (None, r)
      | Some value \<Rightarrow> (Some (case value of Bytes b \<Rightarrow> b | Text s \<Rightarrow> s), r))"

definition redis_set ::
  "(pyfloat \<Rightarrow> string \<Rightarrow> string \<Rightarrow> int \<Rightarrow> 'r \<Rightarrow> 'r) \<Rightarrow> pyfloat \<Rightarrow> string \<Rightarrow> string \<Rightarrow> int \<Rightarrow> 'r \<Rightarrow> 'r" where
  "redis_set rset t key value ttl r = rset t key value ttl r"

definition redis_delete :: "(string \<Rightarrow> 'r \<Rightarrow> 'r) \<Rightarrow> string \<Rightarrow> 'r \<Rightarrow> 'r" where
  "redis_delete rdel key r = rdel key r"


section \<open>Properties\<close>

text \<open>
  C13: over any sequence of reads, writes and deletions in time order, a new \<open>InMemoryCache\<close> answers
  each \<open>get\<close> with the last value written under that key whose float deadline \<open>monotonic() + ttl\<close> is
  still ahead, and with \<open>None\<close> otherwise: dropping expired entries lazily is never observed.
\<close>

theorem memory_cache_refines_spec:
  assumes "sorted (map fst ops)"
  shows "ops_run cache_get cache_set cache_delete ops InMemoryCache
         = spec_run (\<lambda>t ttl. fadd t (of_int ttl)) ops (\<lambda>k. None)"
proof (cases ops)
  case (Cons op ops')
  have "ops_run cache_get cache_set cache_delete ops InMemoryCache = spec_run cache_deadline ops (\<lambda>k. None)"
    using assms Cons
    by (intro mem.refines_spec [of "fst op"]) (simp_all add: cache_view_def spec_view_def InMemoryCache_def)
  then show ?thesis by (simp add: cache_deadline_def [abs_def])
qed simp

theorem memory_cache_refines_spec_witness:
  "ops_run cache_get cache_set cache_delete
     [(0, Set ''k'' ''v'' 5), (3, Get ''k''), (5, Get ''k''), (6, Get ''k'')] InMemoryCache
   = [Some ''v'', None, None]"
proof -
  have "fadd 0 (5 :: pyfloat) = 5" using fl_of_int [of 5] by (simp add: fadd_def)
  then show ?thesis
    using memory_cache_refines_spec [of
      "[(0, Set ''k'' ''v'' 5), (3, Get ''k''), (5, Get ''k''), (6, Get ''k'')]"]
    by (simp add: spec_view_def)
qed

text \<open>
  \<open>RedisCache\<close> meets the same contract over a Redis server that behaves as documented:
  \<open>GET\<close> answers with the stored bytes (or text) of a key that is present, \<open>SET ... EX ttl\<close> makes the
  value present until its deadline and leaves other keys alone, \<open>DEL\<close> removes exactly its key, and
  the server starts empty.
\<close>

lemma redis_cache_refines_spec:
  fixes rview :: "'r \<Rightarrow> pyfloat \<Rightarrow> string \<Rightarrow> string option"
  assumes redis_get_documented:
      "\<And>t k r. rget t k r = None \<and> rview r t k = None
         \<or> (\<exists>v. (rget t k r = Some (Bytes v) \<or> rget t k r = Some (Text v)) \<and> rview r t k = Some v)"
    and redis_set_documented:
      "\<And>t k v ttl r t' k'. rview (rset t k v ttl r) t' k' =
         (if k' = k then if t' < deadline t ttl then Some v else None else rview r t' k')"
    and redis_del_documented:
      "\<And>k r t' k'. rview (rdel k r) t' k' = (if k' = k then None else rview r t' k')"
    and empty_server: "\<And>t k. rview r t k = None"
    and "sorted (map fst ops)"
  shows "ops_run (redis_get rget) (redis_set rset) (redis_delete rdel) ops r
         = spec_run deadline ops (\<lambda>k. None)"
proof -
  have cache: "ttl_cache (redis_get rget) (redis_set rset) (redis_delete rdel) rview deadline"
  proof
    show "fst (redis_get rget t k c) = rview c t k" for t k c
      using redis_get_documented [of t k c] by (auto simp: redis_get_def)
    show "rview (snd (redis_get rget t k c)) t' k' = rview c t' k'" for t k c t' k'
      by (simp add: redis_get_def split: option.split)
  qed (simp_all add: redis_set_def redis_delete_def redis_set_documented redis_del_documented)
  show ?thesis
  proof (cases ops)
    case (Cons op ops')
    then show ?thesis
      using assms(5) empty_server
      by (intro ttl_cache.refines_spec [OF cache, of "fst op"]) (simp_all add: spec_view_def)
  qed simp
qed

lemma redis_cache_refines_spec_example:
  "ops_run (redis_get (\<lambda>t k r. map_option Bytes (spec_view r t k)))
       (redis_set (\<lambda>t k v ttl r. r(k \<mapsto> (v, t + of_int ttl)))) (redis_delete (\<lambda>k r. r(k := None)))
     [(0, Set ''k'' ''v'' 5), (3, Get ''k''), (5, Get ''k'')] (\<lambda>k. None)
   = [Some ''v'', None]"
proof -
  have doc: "map_option Bytes (spec_view r t k) = None \<and> spec_view r t k = None
    \<or> (\<exists>v. (map_option Bytes (spec_view r t k) = Some (Bytes v) \<or> map_option Bytes (spec_view r t k) = Some (Text v))
        \<and> spec_view r t k = Some v)" for t k r
    by (cases "spec_view r t k") simp_all
  have "ops_run (redis_get (\<lambda>t k r. map_option Bytes (spec_view r t k)))
       (redis_set (\<lambda>t k v ttl r. r(k \<mapsto> (v, t + of_int ttl)))) (redis_delete (\<lambda>k r. r(k := None)))
     [(0, Set ''k'' ''v'' 5), (3, Get ''k''), (5, Get ''k'')] (\<lambda>k. None)
   = spec_run (\<lambda>t ttl. t + of_int ttl) [(0, Set ''k'' ''v'' 5), (3, Get ''k''), (5, Get ''k'')] (\<lambda>k. None)"
    by (rule redis_cache_refines_spec [where rview = spec_view, OF doc]) (simp_all add: spec_view_def)
  then show ?thesis by (simp add: spec_view_def)
qed

end
