(* ===== verification/Py_Json.thy ===== *)
theory Py_Json
  imports App_Errors
begin

text \<open>
  Python's operators and conversions on values read from JSON, with the exceptions they raise:
  subscripts, \<open>dict.get\<close>, iteration, \<open>float()\<close>, \<open>int()\<close>, \<open>round()\<close> and \<open>statistics.fmean\<close>.  The provider
  adapters apply them to payloads of any shape, so each is total on \<^typ>\<open>json\<close>.
\<close>

section \<open>Exceptions of the operators\<close>

definition KeyError :: "string \<Rightarrow> exn" where "KeyError k = PyError ''KeyError'' k"
definition IndexError :: exn where "IndexError = PyError ''IndexError'' ''index out of range''"
definition AttributeError :: "string \<Rightarrow> exn" where "AttributeError a = PyError ''AttributeError'' a"
definition OverflowError :: exn where "OverflowError = PyError ''OverflowError'' ''out of range''"


section \<open>Subscripts, attributes and iteration\<close>

text \<open>\<open>v["key"]\<close>\<close>

fun json_item :: "json \<Rightarrow> string \<Rightarrow> json result" where
  "json_item (JObj kvs) k = (case dict_get kvs k of None \<Rightarrow> Inl (KeyError k) | Some v \<Rightarrow> Inr v)"
| "json_item _ k = Inl (TypeError ''indices must be integers'')"

text \<open>\<open>v[0]\<close>; a JSON object has no key \<open>0\<close>.\<close>

fun json_first :: "json \<Rightarrow> json result" where
  "json_first (JList (x # xs)) = Inr x"
| "json_first (JList []) = Inl IndexError"
| "json_first (JStr (c # cs)) = Inr (JStr [c])"
| "json_first (JStr []) = Inl IndexError"
| "json_first (JObj kvs) = Inl (KeyError ''0'')"
| "json_first _ = Inl (TypeError ''object is not subscriptable'')"

text \<open>\<open>v.get("key")\<close>: only an object has the method.\<close>

fun json_get :: "json \<Rightarrow> string \<Rightarrow> json result" where
  "json_get (JObj kvs) k = Inr (case dict_get kvs k of None \<Rightarrow> JNull | Some v \<Rightarrow> v)"
| "json_get _ k = Inl (AttributeError ''get'')"

text \<open>\<open>v or d\<close>\<close>

definition json_or :: "json \<Rightarrow> json \<Rightarrow> json" where
  "json_or v d = (if truthy v then v else d)"

text \<open>\<open>iter(v)\<close>\<close>

fun json_iter :: "json \<Rightarrow> json list result" where
  "json_iter (JList xs) = Inr xs"
| "json_iter (JStr s) = Inr (map (\<lambda>c. JStr [c]) s)"
| "json_iter (JObj kvs) = Inr (map (\<lambda>(k, v). JStr k) kvs)"
| "json_iter _ = Inl (TypeError ''object is not iterable'')"


section \<open>float() and int()\<close>

definition FLOAT_LIMIT :: rat where "FLOAT_LIMIT = 2 ^ 1024"

definition to_xfloat :: "rat \<Rightarrow> xfloat" where
  "to_xfloat x = (let r = fl x in if \<bar>r\<bar> < FLOAT_LIMIT then Finite r else Infinite (0 < r))"

text \<open>Underscores are allowed between two digits only; \<open>prev\<close> is the character before.\<close>

fun drop_underscores :: "char \<Rightarrow> string \<Rightarrow> string option" where
  "drop_underscores prev [] = (if prev = CHR ''_'' then None else Some [])"
| "drop_underscores prev (c # cs) =
     (if c = CHR ''_'' then if is_digit prev then drop_underscores c cs else None
      else if prev = CHR ''_'' \<and> \<not> is_digit c then None
      else map_option (\<lambda>s. c # s) (drop_underscores c cs))"

text \<open>The exponent part: nothing, or \<open>e\<close> with an optional sign and at least one digit.\<close>

definition scan_exponent :: "string \<Rightarrow> int option" where
  "scan_exponent s =
     (case s of
        [] \<Rightarrow> Some 0
      | c # cs \<Rightarrow>
          if lower_char c = CHR ''e'' then
            (let (neg, ds) = (case cs of
                 d # ds' \<Rightarrow> if d = CHR ''-'' then (True, ds') else if d = CHR ''+'' then (False, ds') else (False, cs)
               | [] \<Rightarrow> (False, []))
             in if str_isdigit ds then Some ((if neg then -1 else 1) * int (digits_value ds)) else None)
          else None)"

definition pow10 :: "int \<Rightarrow> rat" where "pow10 e = 10 powi e"

definition scan_decimal :: "string \<Rightarrow> rat option" where
  "scan_decimal s =
     (let whole = takeWhile is_digit s; rest = dropWhile is_digit s;
          (frac, tail) = (case rest of
             c # cs \<Rightarrow> if c = CHR ''.'' then (takeWhile is_digit cs, dropWhile is_digit cs) else ([], rest)
           | [] \<Rightarrow> ([], []))
      in if whole @ frac = [] then None
         else map_option (\<lambda>e. of_nat (digits_value (whole @ frac)) * pow10 (e - int (length frac)))
                (scan_exponent tail))"

definition scan_unsigned :: "string \<Rightarrow> xfloat option" where
  "scan_unsigned s =
     (if str_lower s \<in> {''inf'', ''infinity''} then Some (Infinite True)
      else if str_lower s = ''nan'' then Some NotANumber
      else map_option to_xfloat (scan_decimal s))"

fun xneg :: "xfloat \<Rightarrow> xfloat" where
  "xneg (Finite x) = Finite (- x)"
| "xneg (Infinite b) = Infinite (\<not> b)"
| "xneg NotANumber = NotANumber"

definition float_of_str :: "string \<Rightarrow> xfloat result" where
  "float_of_str s =
     (case drop_underscores (CHR '' '') (str_strip s) of
        None \<Rightarrow> Inl (ValueError ''could not convert string to float'')
      | Some t \<Rightarrow>
          (case (case t of
                   c # cs \<Rightarrow> if c = CHR ''-'' then map_option xneg (scan_unsigned cs)
                             else if c = CHR ''+'' then scan_unsigned cs else scan_unsigned t
                 | [] \<Rightarrow> None) of
             None \<Rightarrow> Inl (ValueError ''could not convert string to float'')
           | Some x \<Rightarrow> Inr x))"

fun py_float :: "json \<Rightarrow> xfloat result" where
  "py_float (JFloat x) = Inr x"
| "py_float (JInt i) = (case to_xfloat (of_int i) of Finite r \<Rightarrow> Inr (Finite r) | _ \<Rightarrow> Inl OverflowError)"
| "py_float (JBool b) = Inr (Finite (if b then 1 else 0))"
| "py_float (JStr s) = float_of_str s"
| "py_float _ = Inl (TypeError ''float() argument must be a string or a real number'')"

fun py_int_of :: "json \<Rightarrow> int result" where
  "py_int_of (JInt i) = Inr i"
| "py_int_of (JBool b) = Inr (if b then 1 else 0)"
| "py_int_of (JFloat (Finite x)) = Inr (py_trunc x)"
| "py_int_of (JFloat (Infinite b)) = Inl OverflowError"
| "py_int_of (JFloat NotANumber) = Inl (ValueError ''cannot convert float NaN to integer'')"
| "py_int_of (JStr s) = (case py_int s of None \<Rightarrow> Inl (ValueError ''invalid literal for int()'') | Some i \<Rightarrow> Inr i)"
| "py_int_of _ = Inl (TypeError ''int() argument must be a string or a real number'')"


section \<open>Rounding and means\<close>

text \<open>\<open>round(x, d)\<close> keeps the infinities and NaN, \<open>round(x)\<close> raises on them.\<close>

fun xround :: "nat \<Rightarrow> xfloat \<Rightarrow> xfloat" where
  "xround d (Finite x) = Finite (py_round d x)"
| "xround d x = x"

fun xround_int :: "xfloat \<Rightarrow> int result" where
  "xround_int (Finite x) = Inr (round_half_even x)"
| "xround_int (Infinite b) = Inl OverflowError"
| "xround_int NotANumber = Inl (ValueError ''cannot convert float NaN to integer'')"

fun xnonneg :: "xfloat \<Rightarrow> bool" where
  "xnonneg (Finite x) = (0 \<le> x)"
| "xnonneg (Infinite b) = b"
| "xnonneg NotANumber = False"

fun xpos :: "xfloat \<Rightarrow> bool" where
  "xpos (Finite x) = (0 < x)"
| "xpos (Infinite b) = b"
| "xpos NotANumber = False"

fun finite_part :: "xfloat \<Rightarrow> pyfloat" where
  "finite_part (Finite x) = x"
| "finite_part _ = 0"

text \<open>
  \<open>math.fsum\<close> rounds the exact sum once; NaN wins over infinities of one sign, infinities of both
  signs are an error, and so is a finite sum out of range.
\<close>

definition fsum :: "xfloat list \<Rightarrow> xfloat result" where
  "fsum xs =
     (if Infinite True \<in> set xs \<and> Infinite False \<in> set xs then Inl (ValueError ''-inf + inf in fsum'')
      else if NotANumber \<in> set xs then Inr NotANumber
      else if Infinite True \<in> set xs then Inr (Infinite True)
      else if Infinite False \<in> set xs then Inr (Infinite False)
      else case to_xfloat (sum_list (map finite_part xs)) of
             Finite r \<Rightarrow> Inr (Finite r)
           | _ \<Rightarrow> Inl OverflowError)"

text \<open>\<open>statistics.fmean\<close> of a non-empty list\<close>

definition fmean :: "xfloat list \<Rightarrow> xfloat result" where
  "fmean xs =
     bind_result (fsum xs) (\<lambda>total.
       Inr (case total of Finite x \<Rightarrow> Finite (fdiv x (of_nat (length xs))) | x \<Rightarrow> x))"

lemma to_xfloat_small: "\<bar>fl x\<bar> < FLOAT_LIMIT \<Longrightarrow> to_xfloat x = Finite (fl x)"
  by (simp add: to_xfloat_def)

lemma fl_below_limit:
  assumes "\<bar>x\<bar> \<le> 2 ^ 53" shows "\<bar>fl x\<bar> < FLOAT_LIMIT"
proof -
  have "fl x \<le> 2 ^ 53" "- (2 ^ 53) \<le> fl x"
    using b64.rnd_le_int [of x "2 ^ 53"] b64.rnd_le_int [of "- x" "2 ^ 53"] assms
    by (simp_all add: fl_minus abs_le_iff)
  moreover have "(2 :: rat) ^ 53 < FLOAT_LIMIT" unfolding FLOAT_LIMIT_def by (rule power_strict_increasing) simp_all
  ultimately show ?thesis by linarith
qed

lemma py_float_small_int: "\<bar>i\<bar> \<le> 2 ^ 53 \<Longrightarrow> py_float (JInt i) = Inr (Finite (of_int i))"
proof -
  assume i: "\<bar>i\<bar> \<le> 2 ^ 53"
  then have "\<bar>of_int i :: rat\<bar> \<le> 2 ^ 53" by (metis of_int_abs of_int_le_iff of_int_numeral of_int_power)
  then have "to_xfloat (of_int i) = Finite (of_int i)"
    using to_xfloat_small [OF fl_below_limit] fl_of_int [OF i] by simp
  then show ?thesis by simp
qed

text \<open>
  The mean of readings between two small integers stays between them, whatever the rounding of the
  sum and of the quotient, and so does its nearest integer.
\<close>

lemma rounded_mean_bounds:
  assumes "xs \<noteq> []" and "\<forall>x \<in> set xs. of_int lo \<le> x \<and> x \<le> of_int hi"
    and "\<bar>lo\<bar> * int (length xs) \<le> 2 ^ 53" "\<bar>hi\<bar> * int (length xs) \<le> 2 ^ 53"
  shows "\<exists>m. fmean (map Finite xs) = Inr (Finite m) \<and> lo \<le> round_half_even m \<and> round_half_even m \<le> hi"
proof -
  let ?n = "int (length xs)" and ?s = "sum_list xs"
  have n: "1 \<le> ?n" using assms(1) by (cases xs) auto
  have s: "of_int (lo * ?n) \<le> ?s \<and> ?s \<le> of_int (hi * ?n)"
    using assms(2) by (induction xs) (auto simp: algebra_simps)
  have small: "\<bar>lo * ?n\<bar> \<le> 2 ^ 53" "\<bar>hi * ?n\<bar> \<le> 2 ^ 53" using assms(3,4) by (simp_all add: abs_mult)
  have fs: "of_int (lo * ?n) \<le> fl ?s \<and> fl ?s \<le> of_int (hi * ?n)"
    using s small fl_mono [of "of_int (lo * ?n)" ?s] fl_mono [of ?s "of_int (hi * ?n)"]
    by (simp add: fl_of_int del: of_int_mult)
  have "\<bar>lo\<bar> \<le> \<bar>lo\<bar> * ?n" "\<bar>hi\<bar> \<le> \<bar>hi\<bar> * ?n" using n by (simp_all add: mult_le_cancel_left1)
  then have lh: "\<bar>lo\<bar> \<le> 2 ^ 53" "\<bar>hi\<bar> \<le> 2 ^ 53" using assms(3,4) by simp_all
  define m where "m = fdiv (fl ?s) (of_nat (length xs))"
  have "of_int lo \<le> fl ?s / of_nat (length xs)" "fl ?s / of_nat (length xs) \<le> of_int hi"
    using fs assms(1) by (simp_all add: pos_le_divide_eq pos_divide_le_eq)
  then have "of_int lo \<le> m" "m \<le> of_int hi"
    using lh fl_mono [of "of_int lo"] fl_mono [of _ "of_int hi"] by (fastforce simp: m_def fdiv_def fl_of_int)+
  then have r: "lo \<le> round_half_even m" "round_half_even m \<le> hi"
    using round_half_even_mono [of "of_int lo" m] round_half_even_mono [of m "of_int hi"] by simp_all
  have "\<bar>?s\<bar> \<le> 2 ^ 53"
  proof -
    have "(of_int (hi * ?n) :: rat) \<le> of_int (2 ^ 53)" "(of_int (- (2 ^ 53)) :: rat) \<le> of_int (lo * ?n)"
      using small unfolding of_int_le_iff by linarith+
    then show ?thesis using s by (auto simp: abs_le_iff)
  qed
  then have "fsum (map Finite xs) = Inr (Finite (fl ?s))"
    by (auto simp: fsum_def to_xfloat_small [OF fl_below_limit] comp_def)
  then show ?thesis using r by (simp add: fmean_def m_def)
qed

end
