(* ===== verification/Py_Repr.thy ===== *)
theory Py_Repr
  imports Py_Json
begin

text \<open>
  \<open>repr\<close> of a float and \<open>str\<close> of a JSON value.  CPython prints a float as the shortest decimal that reads
  back as the same binary64 value; the printer is defined here by search and shown to find such a decimal with
  at most 17 digits for every float.
\<close>


section \<open>The shortest decimal\<close>

text \<open>\<open>decexp x\<close> is the decimal exponent of \<open>x > 0\<close>: the \<open>e\<close> with \<open>10^e \<le> x < 10^(e+1)\<close>.\<close>

definition decexp :: "rat \<Rightarrow> int" where
  "decexp x =
     (let (p, q) = quotient_of x;
          e = int (length (nat_str (nat p))) - int (length (nat_str (nat q)))
      in if pow10 e \<le> x then e else e - 1)"

text \<open>
  The decimal with \<open>n\<close> digits that reads back as \<open>a\<close>, as a mantissa and an exponent: of the two decimals
  around \<open>a\<close> the closer one when both read back (ties to even), or the only one that does.
\<close>

definition decimal_at :: "rat \<Rightarrow> nat \<Rightarrow> (int \<times> int) option" where
  "decimal_at a n =
     (let s = decexp a - int n + 1; u = a / pow10 s; lo = \<lfloor>u\<rfloor>;
          reads_back = (\<lambda>m. fl (of_int m * pow10 s) = a)
      in if reads_back lo \<and> reads_back (lo + 1) then Some (round_half_even u, s)
         else if reads_back lo then Some (lo, s)
         else if reads_back (lo + 1) then Some (lo + 1, s)
         else None)"

text \<open>Seventeen digits are always enough, so the search ends.\<close>

fun first_some :: "('a \<Rightarrow> 'b option) \<Rightarrow> 'a list \<Rightarrow> 'b option" where
  "first_some f [] = None"
| "first_some f (x # xs) = (case f x of None \<Rightarrow> first_some f xs | Some y \<Rightarrow> Some y)"

definition shortest_decimal :: "rat \<Rightarrow> (int \<times> int) option" where
  "shortest_decimal a = first_some (decimal_at a) [1..<18]"

text \<open>
  The layout of \<open>repr\<close>: \<open>ds\<close> are the digits and \<open>decpt\<close> the position of the decimal point in them; an
  exponent is printed when \<open>decpt \<le> -4\<close> or \<open>16 < decpt\<close>, with at least two digits.
\<close>

definition format_short :: "string \<Rightarrow> int \<Rightarrow> string" where
  "format_short ds decpt =
     (if - 4 < decpt \<and> decpt \<le> 16 then
        if decpt \<le> 0 then ''0.'' @ replicate (nat (- decpt)) (CHR ''0'') @ ds
        else if nat decpt < length ds then take (nat decpt) ds @ ''.'' @ drop (nat decpt) ds
        else ds @ replicate (nat decpt - length ds) (CHR ''0'') @ ''.0''
      else
        let e = nat_str (nat \<bar>decpt - 1\<bar>)
        in take 1 ds @ (if tl ds = [] then [] else CHR ''.'' # tl ds) @ ''e''
           @ (if decpt - 1 < 0 then ''-'' else ''+'') @ (if length e < 2 then CHR ''0'' # e else e))"

definition repr_pos :: "rat \<Rightarrow> string" where
  "repr_pos a =
     (case shortest_decimal a of
        None \<Rightarrow> []
      | Some (m, s) \<Rightarrow>
          let digits = nat_str (nat m)
          in format_short (str_rstrip_char (CHR ''0'') digits) (int (length digits) + s))"

text \<open>The sign of a zero is not represented.\<close>

definition float_repr :: "pyfloat \<Rightarrow> string" where
  "float_repr x = (if x = 0 then ''0.0'' else if x < 0 then CHR ''-'' # repr_pos (- x) else repr_pos x)"


section \<open>str() of a JSON value\<close>

definition QUOTE :: char where "QUOTE = CHR 0x22"
definition BACKSLASH :: char where "BACKSLASH = CHR 0x5C"
definition APOSTROPHE :: char where "APOSTROPHE = CHR 0x27"

text \<open>
  One character of \<open>repr(s)\<close> between quotes \<open>q\<close>.  From 127 on the printable characters of Latin-1 stand for
  themselves.
\<close>

definition repr_char :: "char \<Rightarrow> char \<Rightarrow> string" where
  "repr_char q c =
     (if c = q \<or> c = BACKSLASH then [BACKSLASH, c]
      else if ord c = 9 then [BACKSLASH, CHR ''t'']
      else if ord c = 10 then [BACKSLASH, CHR ''n'']
      else if ord c = 13 then [BACKSLASH, CHR ''r'']
      else if ord c < 32 \<or> 127 \<le> ord c \<and> ord c \<le> 160 \<or> ord c = 173
      then BACKSLASH # CHR ''x'' # hex_digits 2 (ord c)
      else [c])"

definition repr_str :: "string \<Rightarrow> string" where
  "repr_str s =
     (let q = (if APOSTROPHE \<in> set s \<and> QUOTE \<notin> set s then QUOTE else APOSTROPHE)
      in q # concat (map (repr_char q) s) @ [q])"

fun xfloat_repr :: "xfloat \<Rightarrow> string" where
  "xfloat_repr (Finite x) = float_repr x"
| "xfloat_repr (Infinite b) = (if b then ''inf'' else ''-inf'')"
| "xfloat_repr NotANumber = ''nan''"

definition INT_TOO_LONG :: exn where
  "INT_TOO_LONG = ValueError ''Exceeds the limit (4300 digits) for integer string conversion''"

definition repr_int :: "int \<Rightarrow> string result" where
  "repr_int i = (if \<bar>i\<bar> < 10 ^ max_str_digits then Inr (int_str i) else Inl INT_TOO_LONG)"

lemma size_json_pair [termination_simp]:
  "(k :: string, v :: json) \<in> set kvs \<Longrightarrow> size v < Suc (size_list (\<lambda>x. Suc (size (snd x))) kvs)"
  by (induction kvs) auto

fun py_repr :: "json \<Rightarrow> string result" where
  "py_repr JNull = Inr ''None''"
| "py_repr (JBool b) = Inr (if b then ''True'' else ''False'')"
| "py_repr (JInt i) = repr_int i"
| "py_repr (JFloat x) = Inr (xfloat_repr x)"
| "py_repr (JStr s) = Inr (repr_str s)"
| "py_repr (JList xs) =
     bind_result (map_result py_repr xs) (\<lambda>ts. Inr (''['' @ str_join '', '' ts @ '']''))"
| "py_repr (JObj kvs) =
     bind_result
       (map_result (\<lambda>(k, v). bind_result (py_repr v) (\<lambda>t. Inr (repr_str k @ '': '' @ t))) kvs)
       (\<lambda>ts. Inr (''{'' @ str_join '', '' ts @ ''}''))"

fun py_str :: "json \<Rightarrow> string result" where
  "py_str (JStr s) = Inr s"
| "py_str v = py_repr v"


section \<open>Decimals next to a binary64 value\<close>

lemma fl_pos_rounds_to:
  assumes "a = of_int m * 2 powi (grid_exp d)" and "\<bar>d - a\<bar> < 2 powi (grid_exp d) / 2"
  shows "fl_pos d = a"
proof -
  let ?g = "(2::rat) powi (grid_exp d)"
  have "d / ?g - of_int m = (d - a) / ?g" using assms(1) by (simp add: field_simps)
  then have "\<bar>d / ?g - of_int m\<bar> = \<bar>d - a\<bar> / ?g" by (simp add: abs_divide)
  also have "\<dots> < 1/2" using assms(2) by (simp add: divide_less_eq)
  finally have "round_half_even (d / ?g) = m" by (rule round_half_even_unique)
  then show ?thesis by (simp add: fl_pos_def assms(1))
qed

lemma powi2_gap:
  assumes "of_int m * 2 powi g < (2::rat) powi k" and "g \<le> k"
  shows "of_int m * 2 powi g + 2 powi g \<le> (2::rat) powi k"
proof -
  have k: "(2::rat) powi k = of_int (2 ^ nat (k - g)) * 2 powi g"
    using assms(2) by (simp add: powi2_split [of k g] powi2_nat)
  then have "(of_int m :: rat) < of_int (2 ^ nat (k - g))" using assms(1) by simp
  then have "m + 1 \<le> 2 ^ nat (k - g)" by (simp only: of_int_less_iff)
  then have "(of_int (m + 1) :: rat) \<le> of_int (2 ^ nat (k - g))" by (simp only: of_int_le_iff)
  then have "of_int (m + 1) * 2 powi g \<le> of_int (2 ^ nat (k - g)) * (2::rat) powi g"
    by (rule mult_right_mono) simp
  then show ?thesis by (simp add: k distrib_right)
qed

text \<open>A decimal that is closer to a binary64 value than one part in \<open>2^54\<close> rounds to it.\<close>

lemma fl_pos_near:
  assumes a: "0 < a" and repr: "fl_pos a = a" and near: "\<bar>d - a\<bar> < a / 2 ^ 54"
  shows "fl_pos d = a"
proof -
  define e where "e = binexp a"
  define g where "g = grid_exp a"
  have eb: "2 powi e \<le> a" "a < 2 powi (e + 1)" using binexp_bounds [OF a] by (simp_all add: e_def)
  obtain m where m: "a = of_int m * 2 powi g" using repr by (metis fl_pos_def g_def)
  have "\<not> (2::rat) powi g < 0" by (simp add: not_less)
  then have "0 < m" using a by (auto simp: m zero_less_mult_iff)
  then have "(2::rat) powi g \<le> a" by (simp add: m)
  then have ge: "g \<le> e" using eb(2) powi2_less_iff [of g "e + 1"] by linarith
  have g: "e - 52 \<le> g" "- 1074 \<le> g" by (simp_all add: g_def e_def grid_exp_def)
  have small: "a / 2 ^ 54 < 2 powi (e - 53)"
    using eb(2) by (simp add: divide_less_eq power_int_add power_int_diff)
  have half: "(2::rat) powi (k - 1) = 2 powi k / 2" for k by (simp add: power_int_diff)
  have near_g: "\<bar>d - a\<bar> < 2 powi g / 2"
    using near small g(1) powi2_le_iff [of "e - 53" "g - 1"] half [of g] by linarith
  show ?thesis
  proof (cases "2 powi e \<le> d")
    case True
    have "a + 2 powi g \<le> 2 powi (e + 1)"
      using powi2_gap [of m g "e + 1"] eb(2) ge by (simp add: m)
    then have "d < 2 powi (e + 1)" using near_g zero_less_power_int [of "2::rat" g] by linarith
    with True have "grid_exp d = g" by (simp add: binexp_unique g_def e_def grid_exp_def)
    then show ?thesis using m near_g by (intro fl_pos_rounds_to [of a m]) simp_all
  next
    case False
    have a2: "a = 2 powi e"
    proof (rule ccontr)
      assume "a \<noteq> 2 powi e"
      then have "2 powi e < a" using eb by simp
      moreover have "(2::rat) powi e = of_int (2 ^ nat (e - g)) * 2 powi g"
        using ge by (simp add: powi2_split [of e g] powi2_nat)
      ultimately have "(of_int (2 ^ nat (e - g)) :: rat) < of_int m" by (simp add: m)
      then have "2 ^ nat (e - g) + 1 \<le> m" by (simp only: of_int_less_iff)
      then have "(of_int (2 ^ nat (e - g) + 1) :: rat) * 2 powi g \<le> of_int m * 2 powi g"
        by (intro mult_right_mono) (simp_all only: of_int_le_iff, simp)
      then have "2 powi e + 2 powi g \<le> a"
        using ge by (simp add: m distrib_right powi2_split [of e g] powi2_nat)
      then show False using near_g False zero_less_power_int [of "2::rat" g] by linarith
    qed
    have "a / 2 ^ 54 \<le> a / 2" using a by (intro divide_left_mono) simp_all
    then have "2 powi (e - 1) \<le> d" using near a2 half [of e] by linarith
    then have ed: "binexp d = e - 1" using False by (intro binexp_unique) simp_all
    then have gd: "grid_exp d \<le> e" "e - 53 \<le> grid_exp d" using g ge by (simp_all add: grid_exp_def)
    have "a = of_int (2 ^ nat (e - grid_exp d)) * 2 powi (grid_exp d)"
      using gd(1) by (simp add: a2 powi2_split [of e "grid_exp d"] powi2_nat)
    moreover have "\<bar>d - a\<bar> < 2 powi (grid_exp d) / 2"
    proof -
      have "a / 2 ^ 54 = 2 powi (e - 54)" by (simp add: a2 power_int_diff)
      then show ?thesis
        using near gd(2) powi2_le_iff [of "e - 54" "grid_exp d - 1"] half [of "grid_exp d"] by linarith
    qed
    ultimately show ?thesis by (rule fl_pos_rounds_to)
  qed
qed

section \<open>The search succeeds\<close>

lemma pow10_less_iff [simp]: "pow10 m < pow10 n \<longleftrightarrow> m < n"
proof
  show "pow10 m < pow10 n \<Longrightarrow> m < n"
    by (rule ccontr) (use power_int_increasing [of n m "10::rat"] in \<open>simp add: pow10_def\<close>)
qed (simp add: pow10_def power_int_strict_increasing)

lemma pow10_pos [simp]: "0 < pow10 e" by (simp add: pow10_def)

lemma pow10_neq_0 [simp]: "pow10 e \<noteq> 0" by (simp add: pow10_def)

lemma pow10_add: "pow10 (m + n) = pow10 m * pow10 n"
  by (simp add: pow10_def power_int_add)

lemma pow10_nat: "pow10 (int n) = 10 ^ n"
  by (simp add: pow10_def)

lemma nat_str_pow10_bounds:
  assumes "0 < i"
  defines "k \<equiv> int (length (nat_str (nat i)))"
  shows "pow10 (k - 1) \<le> of_int i \<and> of_int i < pow10 k"
proof -
  let ?l = "length (nat_str (nat i))"
  have l: "1 \<le> ?l" by (simp add: Suc_leI)
  have "(10::nat) ^ (?l - 1) \<le> nat i" "nat i < 10 ^ ?l" using nat_str_length_bounds [of "nat i"] assms by simp_all
  then have "(of_nat (10 ^ (?l - 1)) :: rat) \<le> of_nat (nat i)" "(of_nat (nat i) :: rat) < of_nat (10 ^ ?l)"
    by (simp_all only: of_nat_le_iff of_nat_less_iff)
  moreover have "(of_nat (nat i) :: rat) = of_int i" using assms by simp
  moreover have "k - 1 = int (?l - 1)" using l by (simp add: k_def of_nat_diff)
  then have "pow10 (k - 1) = of_nat (10 ^ (?l - 1))" "pow10 k = of_nat (10 ^ ?l)"
    by (simp_all only: pow10_nat k_def of_nat_power of_nat_numeral)
  ultimately show ?thesis by simp
qed

lemma decexp_bounds:
  assumes "0 < x" shows "pow10 (decexp x) \<le> x \<and> x < pow10 (decexp x + 1)"
proof -
  obtain p q where pq: "quotient_of x = (p, q)" by fastforce
  then have q: "0 < q" and x: "x = of_int p / of_int q"
    by (simp_all add: quotient_of_denom_pos quotient_of_div)
  with assms have p: "0 < p" by (simp add: zero_less_divide_iff)
  define a where "a = int (length (nat_str (nat p)))"
  define b where "b = int (length (nat_str (nat q)))"
  have pb: "pow10 (a - 1) \<le> of_int p" "of_int p < pow10 a" using nat_str_pow10_bounds [OF p] by (simp_all add: a_def)
  have qb: "pow10 (b - 1) \<le> of_int q" "of_int q < pow10 b" using nat_str_pow10_bounds [OF q] by (simp_all add: b_def)
  have lo: "pow10 (a - b - 1) \<le> x"
  proof -
    have "pow10 (a - b - 1) * of_int q \<le> pow10 (a - b - 1) * pow10 b" using qb by (simp add: less_imp_le)
    also have "\<dots> = pow10 (a - 1)" by (simp flip: pow10_add)
    finally show ?thesis using q pb by (simp add: x pos_le_divide_eq)
  qed
  have hi: "x < pow10 (a - b + 1)"
  proof -
    have "pow10 a = pow10 (a - b + 1) * pow10 (b - 1)" by (simp flip: pow10_add)
    also have "\<dots> \<le> pow10 (a - b + 1) * of_int q" using qb by simp
    finally show ?thesis using q pb by (simp add: x pos_divide_less_eq)
  qed
  show ?thesis using lo hi by (simp add: decexp_def pq a_def b_def Let_def not_le)
qed

lemma decimal_at_reads_back:
  assumes "decimal_at a n = Some (m, s)" shows "fl (of_int m * pow10 s) = a"
proof -
  have "round_half_even u = \<lfloor>u\<rfloor> \<or> round_half_even u = \<lfloor>u\<rfloor> + 1" for u
    using round_half_even_floor [of u] by linarith
  from this [of "a / pow10 (decexp a - int n + 1)"] show ?thesis
    using assms unfolding decimal_at_def Let_def by (elim disjE) (auto split: if_splits)
qed

lemma decimal_at_17:
  assumes a: "0 < a" and f: "fl a = a" shows "decimal_at a 17 \<noteq> None"
proof -
  define s where "s = decexp a - 16"
  define m where "m = round_half_even (a / pow10 s)"
  have "\<bar>a / pow10 s - of_int m\<bar> \<le> 1/2" using round_half_even_bounds [of "a / pow10 s"] unfolding m_def by linarith
  then have "\<bar>a / pow10 s - of_int m\<bar> * pow10 s \<le> 1/2 * pow10 s" by (intro mult_right_mono) (simp_all add: less_imp_le)
  also have "\<bar>a / pow10 s - of_int m\<bar> * pow10 s = \<bar>(a / pow10 s - of_int m) * pow10 s\<bar>"
    by (simp add: abs_mult less_imp_le)
  also have "(a / pow10 s - of_int m) * pow10 s = a - of_int m * pow10 s" by (simp add: left_diff_distrib)
  finally have err: "\<bar>of_int m * pow10 s - a\<bar> \<le> pow10 s / 2" by (simp add: abs_minus_commute)
  have "pow10 s * 10 ^ 16 = pow10 (decexp a)" using pow10_add [of s 16] by (simp add: s_def pow10_def)
  then have "pow10 s * 10 ^ 16 \<le> a" using decexp_bounds [OF a] by simp
  then have "pow10 s / 2 < a / 2 ^ 54"
    using pow10_pos [of s] by (simp add: field_simps del: pow10_pos)
  with err have near: "\<bar>of_int m * pow10 s - a\<bar> < a / 2 ^ 54" by linarith
  have "fl_pos a = a" using a f by (simp add: fl_def)
  then have "fl_pos (of_int m * pow10 s) = a" using near by (rule fl_pos_near [OF a])
  moreover have "a / 2 ^ 54 \<le> a" using a by simp
  then have "0 < of_int m * pow10 s" using near by linarith
  ultimately have "fl (of_int m * pow10 s) = a" by (auto simp: fl_def)
  moreover have "m = \<lfloor>a / pow10 s\<rfloor> \<or> m = \<lfloor>a / pow10 s\<rfloor> + 1"
    using round_half_even_floor [of "a / pow10 s"] by (simp add: m_def) linarith
  ultimately show ?thesis by (auto simp: decimal_at_def Let_def s_def)
qed

lemma first_some_in: "first_some f xs = Some y \<Longrightarrow> \<exists>x \<in> set xs. f x = Some y"
  by (induction xs) (auto split: option.splits)

lemma first_some_None: "first_some f xs = None \<Longrightarrow> x \<in> set xs \<Longrightarrow> f x = None"
  by (induction xs) (auto split: option.splits)

lemma shortest_decimal_exists:
  assumes "0 < a" "fl a = a"
  obtains m s where "shortest_decimal a = Some (m, s)" "fl (of_int m * pow10 s) = a" "0 < m"
proof -
  obtain m s where ms: "shortest_decimal a = Some (m, s)"
    using decimal_at_17 [OF assms] first_some_None [of "decimal_at a" "[1..<18]" 17]
    by (cases "shortest_decimal a") (auto simp: shortest_decimal_def)
  then obtain n where "decimal_at a n = Some (m, s)"
    using first_some_in unfolding shortest_decimal_def by fastforce
  then have r: "fl (of_int m * pow10 s) = a" by (rule decimal_at_reads_back)
  have "0 < m"
  proof (rule ccontr)
    assume "\<not> 0 < m"
    then have "of_int m * pow10 s \<le> 0" by (simp add: mult_le_0_iff less_imp_le)
    then show False using fl_mono [of "of_int m * pow10 s" 0] r assms(1) by simp
  qed
  then show thesis using ms r that by blast
qed

section \<open>Reading a printed float\<close>

text \<open>The text of a decimal number in its three parts: digits, fraction digits, and a signed exponent.\<close>

definition number_text :: "string \<Rightarrow> string \<Rightarrow> (bool \<times> string) option \<Rightarrow> string" where
  "number_text w f x =
     w @ (if f = [] then [] else CHR ''.'' # f)
     @ (case x of None \<Rightarrow> [] | Some (neg, e) \<Rightarrow> CHR ''e'' # (if neg then CHR ''-'' else CHR ''+'') # e)"

definition exp_value :: "(bool \<times> string) option \<Rightarrow> int" where
  "exp_value x = (case x of None \<Rightarrow> 0 | Some (neg, e) \<Rightarrow> (if neg then - 1 else 1) * int (digits_value e))"

definition float_parts :: "string \<Rightarrow> string \<Rightarrow> (bool \<times> string) option \<Rightarrow> bool" where
  "float_parts w f x \<longleftrightarrow>
     list_all is_digit (w @ f) \<and> w \<noteq> [] \<and> (w = ''0'' \<or> hd w \<noteq> CHR ''0'')
     \<and> (case x of None \<Rightarrow> f \<noteq> [] | Some (neg, e) \<Rightarrow> e \<noteq> [] \<and> list_all is_digit e)"

lemma scan_decimal_number_text:
  assumes "float_parts w f x"
  shows "scan_decimal (number_text w f x)
         = Some (of_nat (digits_value (w @ f)) * pow10 (exp_value x - int (length f)))"
proof -
  define tail where
    "tail = (case x of None \<Rightarrow> [] | Some (neg, e) \<Rightarrow> CHR ''e'' # (if neg then CHR ''-'' else CHR ''+'') # e)"
  have t: "takeWhile is_digit tail = []" "dropWhile is_digit tail = tail"
    by (auto simp: tail_def is_digit_def split: option.split)
  have e: "scan_exponent tail = Some (exp_value x)"
    using assms by (auto simp: tail_def scan_exponent_def exp_value_def float_parts_def lower_char_def is_upper_def
        str_isdigit_def Let_def split: option.splits)
  have w: "list_all is_digit w" "w \<noteq> []" "list_all is_digit f" using assms by (simp_all add: float_parts_def)
  have n: "number_text w f x = w @ (if f = [] then [] else CHR ''.'' # f) @ tail"
    by (simp add: number_text_def tail_def)
  have dot: "\<not> is_digit (CHR ''.'')" by (simp add: is_digit_def)
  have "tail = [] \<or> (\<exists>cs. tail = CHR ''e'' # cs)" by (auto simp: tail_def split: option.split)
  then show ?thesis
    using w e t dot by (auto simp: n scan_decimal_def Let_def split: list.split)
qed

lemma format_short_text:
  assumes "list_all is_digit ds" "ds \<noteq> []" "hd ds \<noteq> CHR ''0''"
  obtains w f x where "format_short ds decpt = number_text w f x" "float_parts w f x"
    "of_nat (digits_value (w @ f)) * pow10 (exp_value x - int (length f))
     = of_nat (digits_value ds) * pow10 (decpt - int (length ds))"
proof -
  consider (small) "- 4 < decpt" "decpt \<le> 0" | (inner) "0 < decpt" "decpt \<le> 16" "nat decpt < length ds"
    | (large) "0 < decpt" "decpt \<le> 16" "length ds \<le> nat decpt" | (expo) "\<not> (- 4 < decpt \<and> decpt \<le> 16)"
    by linarith
  then show thesis
  proof cases
    case small
    let ?f = "replicate (nat (- decpt)) (CHR ''0'') @ ds"
    show thesis
    proof (rule that [of "''0''" ?f None])
      show "float_parts ''0'' ?f None"
        using assms by (auto simp: float_parts_def list_all_iff is_digit_def)
    qed (use small assms in \<open>simp_all add: format_short_def number_text_def exp_value_def digits_value_append\<close>)
  next
    case inner
    let ?w = "take (nat decpt) ds" and ?f = "drop (nat decpt) ds"
    show thesis
    proof (rule that [of ?w ?f None])
      show "float_parts ?w ?f None"
        using assms inner by (auto simp: float_parts_def list_all_iff dest: in_set_takeD in_set_dropD)
    qed (use inner in \<open>simp_all add: format_short_def number_text_def exp_value_def of_nat_diff\<close>)
  next
    case large
    let ?k = "nat decpt - length ds"
    let ?w = "ds @ replicate ?k (CHR ''0'')"
    have "pow10 (decpt - int (length ds)) = 10 ^ ?k"
      using large pow10_nat [of ?k] by (simp add: of_nat_diff)
    moreover have "10 * pow10 (- 1) = 1" by (simp add: pow10_def power_int_minus)
    ultimately have v: "of_nat (digits_value (?w @ ''0'')) * pow10 (exp_value None - int (length ''0''))
        = of_nat (digits_value ds) * pow10 (decpt - int (length ds))"
      by (simp add: digits_value_append exp_value_def) (simp add: digits_value_def)
    show thesis
    proof (rule that [of ?w "''0''" None])
      show "float_parts ?w ''0'' None"
        using assms by (auto simp: float_parts_def list_all_iff is_digit_def)
      show "format_short ds decpt = number_text ?w ''0'' None"
        using large by (simp add: format_short_def number_text_def)
    qed (rule v)
  next
    case expo
    define e where "e = nat_str (nat \<bar>decpt - 1\<bar>)"
    define e' where "e' = (if length e < 2 then CHR ''0'' # e else e)"
    have e: "e' \<noteq> []" "list_all is_digit e'" "digits_value e' = nat \<bar>decpt - 1\<bar>"
      using nat_str_digits [of "nat \<bar>decpt - 1\<bar>"] by (simp_all add: e'_def e_def is_digit_def)
    obtain d ds' where ds: "ds = d # ds'" using assms(2) by (cases ds) auto
    show thesis
    proof (rule that [of "[d]" ds' "Some (decpt - 1 < 0, e')"])
      show "format_short ds decpt = number_text [d] ds' (Some (decpt - 1 < 0, e'))"
        unfolding format_short_def if_not_P [OF expo] Let_def number_text_def
        by (simp add: ds e'_def e_def)
      show "float_parts [d] ds' (Some (decpt - 1 < 0, e'))"
        using assms e ds by (simp add: float_parts_def)
    qed (simp add: ds exp_value_def e diff_diff_eq)
  qed
qed

lemma repr_pos_text:
  assumes "0 < a" "fl a = a"
  obtains w f x where "repr_pos a = number_text w f x" "float_parts w f x"
    "fl (of_nat (digits_value (w @ f)) * pow10 (exp_value x - int (length f))) = a"
proof -
  obtain m s where ms: "shortest_decimal a = Some (m, s)" "fl (of_int m * pow10 s) = a" "0 < m"
    using shortest_decimal_exists [OF assms] by blast
  define digits where "digits = nat_str (nat m)"
  define ds where "ds = str_rstrip_char (CHR ''0'') digits"
  define decpt where "decpt = int (length digits) + s"
  obtain k where k: "digits = ds @ replicate k (CHR ''0'')" unfolding ds_def by (rule str_rstrip_char_split)
  have "digits_value digits = nat m" by (simp add: digits_def)
  then have v: "nat m = digits_value ds * 10 ^ k" by (simp add: k digits_value_append)
  have ne: "ds \<noteq> []" using v ms(3) by (auto simp: digits_value_def)
  have hd: "hd ds \<noteq> CHR ''0''" using hd_nat_str [of "nat m"] ms(3) ne by (simp add: k flip: digits_def)
  have dig: "list_all is_digit ds" using nat_str_digits [of "nat m"] by (simp add: k flip: digits_def)
  have "(of_int m :: rat) = of_nat (nat m)" using ms(3) by simp
  also have "\<dots> = of_nat (digits_value ds) * pow10 (int k)" by (simp add: v pow10_nat)
  finally have m: "of_int m * pow10 s = of_nat (digits_value ds) * pow10 (int k + s)"
    by (simp add: pow10_add)
  have "length digits = length ds + k" by (simp add: k)
  then have m: "of_int m * pow10 s = of_nat (digits_value ds) * pow10 (decpt - int (length ds))"
    using m by (simp add: decpt_def add.commute)
  obtain w f x where "format_short ds decpt = number_text w f x" "float_parts w f x"
    "of_nat (digits_value (w @ f)) * pow10 (exp_value x - int (length f))
     = of_nat (digits_value ds) * pow10 (decpt - int (length ds))"
    using format_short_text [OF dig ne hd, of decpt] by blast
  then show thesis using ms m by (intro that [of w f x]) (simp_all add: repr_pos_def Let_def digits_def ds_def decpt_def)
qed

lemma float_repr_text:
  assumes "fl x = x"
  obtains w f e where "float_parts w f e"
    "float_repr x = (if x < 0 then [CHR ''-''] else []) @ number_text w f e"
    "fl (of_nat (digits_value (w @ f)) * pow10 (exp_value e - int (length f))) = \<bar>x\<bar>"
proof (cases "x = 0")
  case True
  show thesis
  proof (rule that [of "''0''" "''0''" None])
    show "float_parts ''0'' ''0'' None" by (simp add: float_parts_def is_digit_def)
  qed (simp_all add: True float_repr_def number_text_def digits_value_def digit_val_def)
next
  case False
  then have "0 < \<bar>x\<bar>" "fl \<bar>x\<bar> = \<bar>x\<bar>" using assms by (simp_all add: fl_minus abs_if)
  then obtain w f e where "repr_pos \<bar>x\<bar> = number_text w f e" "float_parts w f e"
    "fl (of_nat (digits_value (w @ f)) * pow10 (exp_value e - int (length f))) = \<bar>x\<bar>"
    by (rule repr_pos_text)
  then show thesis using False by (intro that [of w f e]) (auto simp: float_repr_def)
qed

end
