(* ===== verification/Json_Text.thy ===== *)
theory Json_Text
  imports Py_Repr
begin

text \<open>
  \<open>json.dumps\<close> and \<open>json.loads\<close> of the Python standard library with their default options (\<open>sort_keys\<close> apart),
  and the round trip between them.  Characters are the code points below 256; an escape for a code point above
  is outside the model and reported as a decoding error.  The positions in error messages and the limit of the
  recursion depth are left out.
\<close>


section \<open>json.dumps\<close>

text \<open>The two-character escapes.\<close>

definition escapes :: "(char \<times> char) list" where
  "escapes = [(QUOTE, QUOTE), (BACKSLASH, BACKSLASH), (CHR 0x08, CHR ''b''), (CHR 0x0C, CHR ''f''),
     (CHR 0x0A, CHR ''n''), (CHR 0x0D, CHR ''r''), (CHR 0x09, CHR ''t'')]"

definition escape_char :: "char \<Rightarrow> string" where
  "escape_char c =
     (case map_of escapes c of
        Some e \<Rightarrow> [BACKSLASH, e]
      | None \<Rightarrow> if 32 \<le> ord c \<and> ord c \<le> 126 then [c] else BACKSLASH # CHR ''u'' # hex_digits 4 (ord c))"

definition json_string :: "string \<Rightarrow> string" where
  "json_string s = QUOTE # concat (map escape_char s) @ [QUOTE]"

fun json_float :: "xfloat \<Rightarrow> string" where
  "json_float (Finite x) = float_repr x"
| "json_float (Infinite True) = ''Infinity''"
| "json_float (Infinite False) = ''-Infinity''"
| "json_float NotANumber = ''NaN''"

text \<open>The items of a dictionary in the order in which they are printed.\<close>

definition ordered_items :: "bool \<Rightarrow> (string, json) dict \<Rightarrow> (string, json) dict" where
  "ordered_items sort_keys kvs = (if sort_keys then sort_key fst kvs else kvs)"

lemma size_json_item [termination_simp]:
  "(k, v) \<in> set (ordered_items b kvs) \<Longrightarrow> size v < Suc (size_list (\<lambda>x. Suc (size (snd x))) kvs)"
proof -
  assume "(k, v) \<in> set (ordered_items b kvs)"
  then have "(k, v) \<in> set kvs" by (simp add: ordered_items_def split: if_splits)
  then show ?thesis by (induction kvs) auto
qed

fun dumps_with :: "bool \<Rightarrow> json \<Rightarrow> string result" where
  "dumps_with sort_keys JNull = Inr ''null''"
| "dumps_with sort_keys (JBool b) = Inr (if b then ''true'' else ''false'')"
| "dumps_with sort_keys (JInt i) = repr_int i"
| "dumps_with sort_keys (JFloat x) = Inr (json_float x)"
| "dumps_with sort_keys (JStr s) = Inr (json_string s)"
| "dumps_with sort_keys (JList xs) =
     bind_result (map_result (\<lambda>v. dumps_with sort_keys v) xs) (\<lambda>ts. Inr (''['' @ str_join '', '' ts @ '']''))"
| "dumps_with sort_keys (JObj kvs) =
     bind_result
       (map_result (\<lambda>(k, v). bind_result (dumps_with sort_keys v) (\<lambda>t. Inr (json_string k @ '': '' @ t)))
          (ordered_items sort_keys kvs))
       (\<lambda>ts. Inr (''{'' @ str_join '', '' ts @ ''}''))"

abbreviation dumps :: "json \<Rightarrow> string result" where "dumps \<equiv> dumps_with False"
abbreviation dumps_sorted :: "json \<Rightarrow> string result" where "dumps_sorted \<equiv> dumps_with True"

section \<open>json.loads\<close>

definition decode_error :: "string \<Rightarrow> exn" where "decode_error m = PyError ''JSONDecodeError'' m"

definition json_space :: "char \<Rightarrow> bool" where
  "json_space c \<longleftrightarrow> c \<in> {CHR '' '', CHR 0x09, CHR 0x0A, CHR 0x0D}"

definition skip_ws :: "string \<Rightarrow> string" where "skip_ws = dropWhile json_space"

definition unescape :: "char \<Rightarrow> char option" where
  "unescape d = map_of ((CHR ''/'', CHR ''/'') # map prod.swap escapes) d"

text \<open>The characters after an opening quote, up to and without the closing one, and the text that follows it.\<close>

fun scan_string :: "string \<Rightarrow> (string \<times> string) result" where
  "scan_string [] = Inl (decode_error ''Unterminated string starting at'')"
| "scan_string (c # cs) =
     (if c = QUOTE then Inr ([], cs)
      else if c = BACKSLASH then
        (case cs of
           [] \<Rightarrow> Inl (decode_error ''Unterminated string starting at'')
         | d # ds \<Rightarrow>
             if d = CHR ''u'' then
               if 4 < length ds \<and> list_all is_hex_digit (take 4 ds) \<and> hex_value (take 4 ds) < 256
               then bind_result (scan_string (drop 4 ds))
                      (\<lambda>(s, rest). Inr (char_of (hex_value (take 4 ds)) # s, rest))
               else Inl (decode_error ''Invalid unicode escape'')
             else case unescape d of
                    None \<Rightarrow> Inl (decode_error ''Invalid escape'')
                  | Some e \<Rightarrow> bind_result (scan_string ds) (\<lambda>(s, rest). Inr (e # s, rest)))
      else if ord c < 32 then Inl (decode_error ''Invalid control character at'')
      else bind_result (scan_string cs) (\<lambda>(s, rest). Inr (c # s, rest)))"

text \<open>
  The number scanner: a fraction or an exponent without digits is left for the text that follows.  The flag
  tells whether the number is a float.
\<close>

definition match_frac :: "string \<Rightarrow> string \<times> string" where
  "match_frac s =
     (case s of
        p # d # ds \<Rightarrow>
          if p = CHR ''.'' \<and> is_digit d
          then (p # takeWhile is_digit (d # ds), dropWhile is_digit (d # ds)) else ([], s)
      | _ \<Rightarrow> ([], s))"

definition match_exp :: "string \<Rightarrow> string \<times> string" where
  "match_exp s =
     (case s of
        e # es \<Rightarrow>
          if e = CHR ''e'' \<or> e = CHR ''E'' then
            let (g, ds) = (case es of
                   h # hs \<Rightarrow> if h = CHR ''-'' \<or> h = CHR ''+'' then ([h], hs) else ([], es)
                 | [] \<Rightarrow> ([], []))
            in if takeWhile is_digit ds = [] then ([], s)
               else (e # g @ takeWhile is_digit ds, dropWhile is_digit ds)
          else ([], s)
      | [] \<Rightarrow> ([], []))"

definition match_unsigned :: "string \<Rightarrow> (string \<times> bool \<times> string) option" where
  "match_unsigned s =
     (case s of
        [] \<Rightarrow> None
      | c # cs \<Rightarrow>
          if \<not> is_digit c then None
          else
            let (whole, s2) = (if c = CHR ''0'' then ([c], cs) else (takeWhile is_digit s, dropWhile is_digit s));
                (frac, s3) = match_frac s2;
                (ex, s4) = match_exp s3
            in Some (whole @ frac @ ex, frac @ ex \<noteq> [], s4))"

definition match_number :: "string \<Rightarrow> (string \<times> bool \<times> string) option" where
  "match_number s =
     (case s of
        c # cs \<Rightarrow>
          if c = CHR ''-'' then map_option (\<lambda>(t, is_float, rest). (c # t, is_float, rest)) (match_unsigned cs)
          else match_unsigned s
      | [] \<Rightarrow> None)"

definition scan_number :: "string \<Rightarrow> (json \<times> nat) result" where
  "scan_number s =
     (case match_number s of
        None \<Rightarrow> Inl (decode_error ''Expecting value'')
      | Some (text, is_float, rest) \<Rightarrow>
          if is_float then bind_result (float_of_str text) (\<lambda>x. Inr (JFloat x, length rest))
          else case py_int text of
                 None \<Rightarrow> Inl INT_TOO_LONG
               | Some i \<Rightarrow> Inr (JInt i, length rest))"

definition literals :: "(string \<times> json) list" where
  "literals = [(''null'', JNull), (''true'', JBool True), (''false'', JBool False), (''NaN'', JFloat NotANumber),
     (''Infinity'', JFloat (Infinite True)), (''-Infinity'', JFloat (Infinite False))]"

definition scan_atom :: "string \<Rightarrow> (json \<times> nat) result" where
  "scan_atom s =
     (case List.find (\<lambda>(t, v). str_startswith s t) literals of
        Some (t, v) \<Rightarrow> Inr (v, length s - length t)
      | None \<Rightarrow> scan_number s)"

text \<open>
  A position in the text is the number of characters that follow it, so it means the same in every suffix;
  \<open>at_pos s r\<close> is the suffix at position \<open>r\<close>.  The scanner is total because every step moves forward.
\<close>

definition at_pos :: "string \<Rightarrow> nat \<Rightarrow> string" where "at_pos s r = drop (length s - r) s"

lemma length_skip_ws: "length (skip_ws s) \<le> length s"
  by (simp add: skip_ws_def length_dropWhile_le)

lemma length_at_pos: "length (at_pos s r) \<le> length s"
  by (simp add: at_pos_def)

lemma scan_string_shorter: "scan_string s = Inr (t, rest) \<Longrightarrow> length rest < length s"
proof (induction s arbitrary: t rest rule: scan_string.induct)
  case (2 c cs)
  then show ?case
    by (fastforce simp: bind_result_iffs split: if_splits list.splits option.splits)
qed simp

lemma skip_ws_Cons: "skip_ws s = d # ds \<Longrightarrow> length ds < length s"
  using length_skip_ws [of s] by simp

lemma skip_at_Cons: "skip_ws (at_pos s r) = d # ds \<Longrightarrow> length ds < length s"
  using skip_ws_Cons [of "at_pos s r" d ds] length_at_pos [of s r] by simp

lemma skip_twice: "length ds < n \<Longrightarrow> length (skip_ws ds) < n"
  using length_skip_ws [of ds] by simp

function scan_once :: "string \<Rightarrow> (json \<times> nat) result"
  and scan_items :: "string \<Rightarrow> (json list \<times> nat) result"
  and scan_pairs :: "(string, json) dict \<Rightarrow> string \<Rightarrow> ((string, json) dict \<times> nat) result" where
  "scan_once s =
     (case s of
        [] \<Rightarrow> Inl (decode_error ''Expecting value'')
      | c # cs \<Rightarrow>
          if c = QUOTE then bind_result (scan_string cs) (\<lambda>(t, rest). Inr (JStr t, length rest))
          else if c = CHR ''{'' then
            (case skip_ws cs of
               d # ds \<Rightarrow>
                 if d = CHR ''}'' then Inr (JObj [], length ds)
                 else bind_result (scan_pairs [] (d # ds)) (\<lambda>(kvs, r). Inr (JObj kvs, r))
             | [] \<Rightarrow> Inl (decode_error ''Expecting property name enclosed in double quotes''))
          else if c = CHR ''['' then
            (case skip_ws cs of
               d # ds \<Rightarrow>
                 if d = CHR '']'' then Inr (JList [], length ds)
                 else bind_result (scan_items (d # ds)) (\<lambda>(vs, r). Inr (JList vs, r))
             | [] \<Rightarrow> Inl (decode_error ''Expecting value''))
          else scan_atom s)"
| "scan_items s =
     bind_result (scan_once s) (\<lambda>(v, r).
       case skip_ws (at_pos s r) of
         d # ds \<Rightarrow>
           if d = CHR '']'' then Inr ([v], length ds)
           else if d = CHR '','' then
             bind_result (scan_items (skip_ws ds)) (\<lambda>(vs, r'). Inr (v # vs, r'))
           else Inl (decode_error ''Expecting comma delimiter'')
       | [] \<Rightarrow> Inl (decode_error ''Expecting comma delimiter''))"
| "scan_pairs acc s =
     (case s of
        q # cs \<Rightarrow>
          if q = QUOTE then
            (case scan_string cs of
               Inl e \<Rightarrow> Inl e
             | Inr (k, rest) \<Rightarrow>
                 (case skip_ws rest of
                    d # ds \<Rightarrow>
                      if d = CHR '':'' then
                        bind_result (scan_once (skip_ws ds)) (\<lambda>(v, r).
                          case skip_ws (at_pos (skip_ws ds) r) of
                            e # es \<Rightarrow>
                              if e = CHR ''}'' then Inr (dict_set k v acc, length es)
                              else if e = CHR '','' then scan_pairs (dict_set k v acc) (skip_ws es)
                              else Inl (decode_error ''Expecting comma delimiter'')
                          | [] \<Rightarrow> Inl (decode_error ''Expecting comma delimiter''))
                      else Inl (decode_error ''Expecting colon delimiter'')
                  | [] \<Rightarrow> Inl (decode_error ''Expecting colon delimiter'')))
          else Inl (decode_error ''Expecting property name enclosed in double quotes'')
      | [] \<Rightarrow> Inl (decode_error ''Expecting property name enclosed in double quotes''))"
  by pat_completeness auto

termination
proof (relation "measure (\<lambda>x. case x of Inl s \<Rightarrow> 2 * length s | Inr (Inl s) \<Rightarrow> 2 * length s + 1
    | Inr (Inr (acc, s)) \<Rightarrow> 2 * length s + 1)", goal_cases)
  case 1 then show ?case by simp
next
  case (2 s c cs d ds) then show ?case using length_skip_ws [of cs] by simp
next
  case (3 s c cs d ds) then show ?case using length_skip_ws [of cs] by simp
next
  case (4 s) then show ?case by simp
next
  case (5 s v r d ds)
  then have "length (skip_ws ds) < length s" by (intro skip_twice) (rule skip_at_Cons)
  then show ?case by simp
next
  case (6 acc s q cs p k rest d ds)
  then have "length (skip_ws ds) < length rest" by (intro skip_twice) (rule skip_ws_Cons, simp)
  then show ?case using 6 scan_string_shorter [of cs k rest] by simp
next
  case (7 acc s q cs p k rest d ds v r e es)
  then have "length (skip_ws es) < length (skip_ws ds)" by (intro skip_twice) (rule skip_at_Cons, simp)
  moreover have "length (skip_ws ds) < length rest" using 7 by (intro skip_twice) (rule skip_ws_Cons, simp)
  ultimately show ?case using 7 scan_string_shorter [of cs k rest] by simp
qed

declare scan_once.simps [simp del] scan_items.simps [simp del] scan_pairs.simps [simp del]

definition loads :: "string \<Rightarrow> json result" where
  "loads s =
     bind_result (scan_once (skip_ws s)) (\<lambda>(v, r).
       if skip_ws (at_pos (skip_ws s) r) = [] then Inr v else Inl (decode_error ''Extra data''))"

section \<open>Strings and numbers are read back\<close>

lemma scan_string_escape:
  "scan_string (escape_char c @ s) = bind_result (scan_string s) (\<lambda>(t, rest). Inr (c # t, rest))"
  if "s \<noteq> []"
proof (cases "map_of escapes c")
  case None
  have c: "c \<noteq> QUOTE" "c \<noteq> BACKSLASH" using None by (auto simp: escapes_def QUOTE_def BACKSLASH_def)
  have "hex_value (hex_digits 4 (ord c)) = ord c"
    by (intro hex_value_digits less_trans [OF nat_of_char_less_256]) simp
  then show ?thesis
    using None c that hex_digits_hex [of 4 "ord c"]
    by (auto simp: escape_char_def BACKSLASH_def QUOTE_def)
next
  case (Some e)
  then have "unescape e = Some c" "e \<noteq> CHR ''u''"
    by (auto simp: escapes_def unescape_def QUOTE_def BACKSLASH_def split: if_splits)
  with Some show ?thesis by (simp add: escape_char_def BACKSLASH_def QUOTE_def)
qed

lemma scan_string_json: "scan_string (concat (map escape_char s) @ QUOTE # rest) = Inr (s, rest)"
  by (induction s) (simp_all add: scan_string_escape)

text \<open>A text that cannot continue a number.\<close>

definition number_end :: "string \<Rightarrow> bool" where
  "number_end s \<longleftrightarrow> (case s of [] \<Rightarrow> True | c # _ \<Rightarrow> \<not> is_digit c \<and> c \<notin> {CHR ''.'', CHR ''e'', CHR ''E''})"

lemma number_end_simps [simp]:
  "number_end []" "number_end (c # cs) \<longleftrightarrow> \<not> is_digit c \<and> c \<notin> {CHR ''.'', CHR ''e'', CHR ''E''}"
  by (simp_all add: number_end_def)

lemma number_end_takeWhile:
  "number_end s \<Longrightarrow> takeWhile is_digit s = []" "number_end s \<Longrightarrow> dropWhile is_digit s = s"
  by (cases s; simp)+

lemma match_frac_end: "number_end s \<Longrightarrow> match_frac s = ([], s)"
  by (auto simp: match_frac_def split: list.split)

lemma match_exp_end: "number_end s \<Longrightarrow> match_exp s = ([], s)"
  by (auto simp: match_exp_def split: list.split)

lemma match_unsigned_nat_str:
  assumes "number_end rest" shows "match_unsigned (nat_str n @ rest) = Some (nat_str n, False, rest)"
proof (cases "n = 0")
  case True
  have "dec_digit 0 = CHR ''0''" by code_simp
  then show ?thesis
    using assms True by (simp add: match_unsigned_def nat_str.simps [of 0] is_digit_def match_frac_end match_exp_end)
next
  case False
  obtain c cs where c: "nat_str n = c # cs" "is_digit c" by (rule nat_str_Cons)
  have "c \<noteq> CHR ''0''" using hd_nat_str [of n] False c by simp
  moreover have "list_all is_digit (c # cs)" using nat_str_digits [of n] c by simp
  ultimately show ?thesis
    using assms c takeWhile_digits [of "c # cs" rest]
    by (simp add: match_unsigned_def number_end_takeWhile match_frac_end match_exp_end)
qed

lemma match_unsigned_number_text:
  assumes p: "float_parts w f x" and rest: "number_end rest"
  shows "match_unsigned (number_text w f x @ rest) = Some (number_text w f x, True, rest)"
proof -
  define tail where
    "tail = (case x of None \<Rightarrow> [] | Some (neg, e) \<Rightarrow> CHR ''e'' # (if neg then CHR ''-'' else CHR ''+'') # e)"
  have t: "takeWhile is_digit (tail @ rest) = []" "dropWhile is_digit (tail @ rest) = tail @ rest"
    "match_frac (tail @ rest) = ([], tail @ rest)"
    using rest by (auto simp: tail_def is_digit_def number_end_takeWhile match_frac_def split: option.split list.split)
  have e: "match_exp (tail @ rest) = (tail, rest)"
  proof (cases x)
    case None
    then show ?thesis using rest by (simp add: tail_def match_exp_end)
  next
    case (Some ne)
    then obtain neg e where x: "x = Some (neg, e)" by (cases ne) auto
    then have "e \<noteq> []" "list_all is_digit e" using p by (simp_all add: float_parts_def)
    then show ?thesis using rest x by (simp add: tail_def match_exp_def number_end_takeWhile)
  qed
  obtain c w' where w: "w = c # w'" "is_digit c" "list_all is_digit w'" "list_all is_digit f" "c = CHR ''0'' \<longrightarrow> w' = []"
    using p by (cases w) (auto simp: float_parts_def)
  have n: "number_text w f x @ rest = w @ (if f = [] then [] else CHR ''.'' # f) @ tail @ rest"
    by (simp add: number_text_def tail_def)
  have m: "match_frac ((if f = [] then [] else CHR ''.'' # f) @ tail @ rest)
      = ((if f = [] then [] else CHR ''.'' # f), tail @ rest)"
    using w(4) t by (cases f) (simp_all add: match_frac_def)
  have s: "takeWhile is_digit ((if f = [] then [] else CHR ''.'' # f) @ tail @ rest) = []"
    "dropWhile is_digit ((if f = [] then [] else CHR ''.'' # f) @ tail @ rest) = (if f = [] then [] else CHR ''.'' # f) @ tail @ rest"
    using t by (auto simp: is_digit_def)
  have ne: "(if f = [] then [] else CHR ''.'' # f) @ tail \<noteq> []"
    using p by (auto simp: float_parts_def tail_def split: option.splits)
  have "match_unsigned (w @ (if f = [] then [] else CHR ''.'' # f) @ tail @ rest)
      = Some (w @ (if f = [] then [] else CHR ''.'' # f) @ tail, True, rest)"
    using w s m e ne by (simp add: match_unsigned_def del: append_is_Nil_conv)
  then show ?thesis unfolding n by (simp add: number_text_def tail_def)
qed

definition plain_number :: "string \<Rightarrow> bool" where
  "plain_number s \<longleftrightarrow> list_all (\<lambda>c. c \<noteq> CHR ''_'' \<and> \<not> is_space c) s"

lemma drop_underscores_plain: "plain_number s \<Longrightarrow> p \<noteq> CHR ''_'' \<Longrightarrow> drop_underscores p s = Some s"
  by (induction s arbitrary: p) (auto simp: plain_number_def)

lemma str_strip_plain: "plain_number s \<Longrightarrow> str_strip s = s"
proof -
  have d: "dropWhile is_space t = t" if "plain_number t" for t
    using that by (cases t) (auto simp: plain_number_def)
  assume "plain_number s"
  then have "plain_number (rev s)" by (simp add: plain_number_def)
  with \<open>plain_number s\<close> show ?thesis by (simp add: str_strip_def d)
qed

lemma plain_digits: "list_all is_digit s \<Longrightarrow> plain_number s"
  by (auto simp: plain_number_def list_all_iff is_digit_def is_space_def)

lemma plain_number_append [simp]: "plain_number (s @ t) \<longleftrightarrow> plain_number s \<and> plain_number t"
  "plain_number (c # s) \<longleftrightarrow> c \<noteq> CHR ''_'' \<and> \<not> is_space c \<and> plain_number s" "plain_number []"
  by (simp_all add: plain_number_def)

lemma plain_number_text: "float_parts w f x \<Longrightarrow> plain_number (number_text w f x)"
  by (auto simp: number_text_def float_parts_def plain_digits is_space_def split: option.splits)

lemma number_text_Cons:
  assumes "float_parts w f x"
  obtains c cs where "number_text w f x = c # cs" "is_digit c"
  using assms by (cases w) (auto simp: float_parts_def number_text_def)

lemma scan_unsigned_number_text:
  assumes "float_parts w f x"
  shows "scan_unsigned (number_text w f x)
         = Some (to_xfloat (of_nat (digits_value (w @ f)) * pow10 (exp_value x - int (length f))))"
proof -
  obtain c cs where c: "number_text w f x = c # cs" "is_digit c" using assms by (rule number_text_Cons)
  then have "lower_char c = c" by (auto simp: lower_char_def is_upper_def is_digit_def)
  then have "str_lower (number_text w f x) \<notin> {''inf'', ''infinity'', ''nan''}"
    using c by (auto simp: str_lower_def is_digit_def)
  then show ?thesis using scan_decimal_number_text [OF assms] by (simp add: scan_unsigned_def)
qed

lemma float_of_str_number_text:
  assumes "float_parts w f x"
  defines "v \<equiv> to_xfloat (of_nat (digits_value (w @ f)) * pow10 (exp_value x - int (length f)))"
  shows "float_of_str (number_text w f x) = Inr v" "float_of_str (CHR ''-'' # number_text w f x) = Inr (xneg v)"
proof -
  have p: "plain_number (number_text w f x)" using assms(1) by (rule plain_number_text)
  then have m: "plain_number (CHR ''-'' # number_text w f x)" by (simp add: is_space_def)
  obtain c cs where c: "number_text w f x = c # cs" "is_digit c" using assms(1) by (rule number_text_Cons)
  then have "c \<noteq> CHR ''-''" "c \<noteq> CHR ''+''" by (auto simp: is_digit_def)
  then show "float_of_str (number_text w f x) = Inr v"
    using p c scan_unsigned_number_text [OF assms(1)]
    by (simp add: float_of_str_def str_strip_plain drop_underscores_plain v_def)
  show "float_of_str (CHR ''-'' # number_text w f x) = Inr (xneg v)"
    using m scan_unsigned_number_text [OF assms(1)]
    by (simp add: float_of_str_def str_strip_plain drop_underscores_plain v_def)
qed

lemma match_number_unsigned:
  assumes "match_unsigned s = Some (t, b, rest)"
  shows "match_number s = Some (t, b, rest)" "match_number (CHR ''-'' # s) = Some (CHR ''-'' # t, b, rest)"
proof -
  obtain c cs where "s = c # cs" "is_digit c"
    using assms by (cases s) (auto simp: match_unsigned_def split: if_splits)
  then show "match_number s = Some (t, b, rest)" "match_number (CHR ''-'' # s) = Some (CHR ''-'' # t, b, rest)"
    using assms is_digit_not_sign [of c] by (simp_all add: match_number_def)
qed

lemma scan_atom_digit:
  assumes "is_digit c"
  shows "scan_atom (c # cs) = scan_number (c # cs)" "scan_atom (CHR ''-'' # c # cs) = scan_number (CHR ''-'' # c # cs)"
proof -
  have "c \<notin> {CHR ''n'', CHR ''t'', CHR ''f'', CHR ''N'', CHR ''I'', CHR ''-''}"
    using assms by (auto simp: is_digit_def)
  then show "scan_atom (c # cs) = scan_number (c # cs)"
    "scan_atom (CHR ''-'' # c # cs) = scan_number (CHR ''-'' # c # cs)"
    by (simp_all add: scan_atom_def literals_def str_startswith_def)
qed

lemma scan_atom_int:
  assumes "\<bar>i\<bar> < 10 ^ max_str_digits" "number_end rest"
  shows "scan_atom (int_str i @ rest) = Inr (JInt i, length rest)"
proof -
  define n where "n = nat \<bar>i\<bar>"
  obtain c cs where c: "nat_str n = c # cs" "is_digit c" by (rule nat_str_Cons)
  have s: "int_str i = (if i < 0 then [CHR ''-''] else []) @ nat_str n" by (simp add: int_str_def n_def)
  have "match_number (int_str i @ rest) = Some (int_str i, False, rest)"
    using match_number_unsigned [OF match_unsigned_nat_str [OF assms(2), of n]] by (simp add: s)
  then have "scan_number (int_str i @ rest) = Inr (JInt i, length rest)"
    using py_int_int_str [OF assms(1)] by (simp add: scan_number_def)
  moreover have "scan_atom (int_str i @ rest) = scan_number (int_str i @ rest)"
    using c by (simp add: s scan_atom_digit)
  ultimately show ?thesis by simp
qed

fun xfloat_ok :: "xfloat \<Rightarrow> bool" where
  "xfloat_ok (Finite x) \<longleftrightarrow> fl x = x \<and> \<bar>x\<bar> < FLOAT_LIMIT"
| "xfloat_ok _ \<longleftrightarrow> True"

lemma scan_atom_float:
  assumes "xfloat_ok x" "number_end rest"
  shows "scan_atom (json_float x @ rest) = Inr (JFloat x, length rest)"
proof (cases x)
  case (Finite r)
  with assms(1) have ok: "fl r = r" "\<bar>r\<bar> < FLOAT_LIMIT" by simp_all
  obtain w f e where t: "float_parts w f e"
    "float_repr r = (if r < 0 then [CHR ''-''] else []) @ number_text w f e"
    "fl (of_nat (digits_value (w @ f)) * pow10 (exp_value e - int (length f))) = \<bar>r\<bar>"
    using ok(1) by (rule float_repr_text)
  obtain c cs where c: "number_text w f e = c # cs" "is_digit c" using t(1) by (rule number_text_Cons)
  have "to_xfloat (of_nat (digits_value (w @ f)) * pow10 (exp_value e - int (length f))) = Finite \<bar>r\<bar>"
    using t(3) ok(2) by (simp add: to_xfloat_def Let_def)
  then have f: "float_of_str (float_repr r) = Inr (Finite r)"
    using float_of_str_number_text [OF t(1)] by (simp add: t(2))
  have "match_number (float_repr r @ rest) = Some (float_repr r, True, rest)"
    using match_number_unsigned [OF match_unsigned_number_text [OF t(1) assms(2)]] by (simp add: t(2))
  then have "scan_number (float_repr r @ rest) = Inr (JFloat (Finite r), length rest)"
    using f by (simp add: scan_number_def)
  moreover have "scan_atom (float_repr r @ rest) = scan_number (float_repr r @ rest)"
    using c by (simp add: t(2) scan_atom_digit)
  ultimately show ?thesis using Finite by simp
next
  case (Infinite b)
  then show ?thesis by (cases b) (simp_all add: scan_atom_def literals_def str_startswith_def)
qed (simp add: scan_atom_def literals_def str_startswith_def)

section \<open>The round trip\<close>

text \<open>
  The values that Python can print: floats are binary64 values, integers have at most 4300 digits and the
  keys of an object are distinct.
\<close>

fun json_ok :: "json \<Rightarrow> bool" where
  "json_ok (JInt i) \<longleftrightarrow> \<bar>i\<bar> < 10 ^ max_str_digits"
| "json_ok (JFloat x) \<longleftrightarrow> xfloat_ok x"
| "json_ok (JList xs) \<longleftrightarrow> list_all json_ok xs"
| "json_ok (JObj kvs) \<longleftrightarrow> distinct (dict_keys kvs) \<and> list_all (\<lambda>(k, v). json_ok v) kvs"
| "json_ok JNull \<longleftrightarrow> True"
| "json_ok (JBool b) \<longleftrightarrow> True"
| "json_ok (JStr s) \<longleftrightarrow> True"

definition value_start :: "string \<Rightarrow> bool" where
  "value_start t \<longleftrightarrow> (case t of [] \<Rightarrow> False | c # _ \<Rightarrow> \<not> json_space c \<and> c \<notin> {CHR '']'', CHR ''}''})"

text \<open>\<open>t\<close> is read as \<open>v\<close>, whatever follows it.\<close>

definition reads :: "string \<Rightarrow> json \<Rightarrow> bool" where
  "reads t v \<longleftrightarrow> value_start t \<and> (\<forall>rest. number_end rest \<longrightarrow> scan_once (t @ rest) = Inr (v, length rest))"

lemma skip_ws_simps [simp]:
  "skip_ws [] = []" "json_space c \<Longrightarrow> skip_ws (c # cs) = skip_ws cs" "\<not> json_space c \<Longrightarrow> skip_ws (c # cs) = c # cs"
  by (simp_all add: skip_ws_def)

lemma json_space_simps [simp]: "json_space (CHR '' '')" "\<not> json_space (CHR '','')" "\<not> json_space (CHR '']'')"
  "\<not> json_space (CHR ''}'')" "\<not> json_space (CHR '':'')" "\<not> json_space QUOTE" "\<not> json_space (CHR ''['')" "\<not> json_space (CHR ''{'')"
  by (simp_all add: json_space_def QUOTE_def)

lemma value_start_skip: "value_start t \<Longrightarrow> skip_ws (t @ rest) = t @ rest"
  by (cases t) (simp_all add: value_start_def)

lemma at_pos_append [simp]: "at_pos (t @ rest) (length rest) = rest"
  by (simp add: at_pos_def)

lemma str_join_Cons: "ts \<noteq> [] \<Longrightarrow> str_join sep (t # ts) = t @ sep @ str_join sep ts"
  by (cases ts) simp_all

lemma value_start_append: "value_start t \<Longrightarrow> value_start (t @ s)"
  by (cases t) (simp_all add: value_start_def)

lemma scan_items_join:
  assumes "list_all2 reads ts vs" "ts \<noteq> []"
  shows "value_start (str_join '', '' ts) \<and>
    scan_items (str_join '', '' ts @ CHR '']'' # rest) = Inr (vs, length rest)"
  using assms
proof (induction rule: list_all2_induct)
  case (Cons t ts v vs)
  note start = Cons.hyps(1) [unfolded reads_def, THEN conjunct1]
  note scan = Cons.hyps(1) [unfolded reads_def, THEN conjunct2, rule_format]
  show ?case
  proof (cases "ts = []")
    case True
    then have "vs = []" using Cons.hyps(2) by simp
    then show ?thesis
      using scan [of "CHR '']'' # rest"] start True at_pos_append [of t "CHR '']'' # rest"]
      by (subst scan_items.simps) (simp add: is_digit_def)
  next
    case False
    let ?s = "str_join '', '' ts @ CHR '']'' # rest"
    have ih: "scan_items ?s = Inr (vs, length rest)" "skip_ws ?s = ?s"
      using Cons.IH False by (simp_all add: value_start_skip)
    have "at_pos (t @ CHR '','' # CHR '' '' # ?s) (length (CHR '','' # CHR '' '' # ?s)) = CHR '','' # CHR '' '' # ?s"
      by (rule at_pos_append)
    then show ?thesis
      using scan [of "CHR '','' # CHR '' '' # ?s"] start ih False
      by (subst scan_items.simps) (simp add: is_digit_def str_join_Cons value_start_append)
  qed
qed simp

definition reads_pair :: "string \<Rightarrow> string \<times> json \<Rightarrow> bool" where
  "reads_pair p kv \<longleftrightarrow> (\<exists>t. p = json_string (fst kv) @ '': '' @ t \<and> reads t (snd kv))"

lemma scan_pairs_join:
  assumes "list_all2 reads_pair ps kvs" "ps \<noteq> []"
  shows "value_start (str_join '', '' ps) \<and>
    scan_pairs acc (str_join '', '' ps @ CHR ''}'' # rest)
    = Inr (foldl (\<lambda>d (k, v). dict_set k v d) acc kvs, length rest)"
  using assms
proof (induction arbitrary: acc rule: list_all2_induct)
  case (Cons p ps kv kvs)
  obtain k v t where kv: "kv = (k, v)" "p = json_string k @ '': '' @ t" "reads t v"
    using Cons.hyps(1) by (cases kv) (auto simp: reads_pair_def)
  note start = kv(3) [unfolded reads_def, THEN conjunct1]
  note scan = kv(3) [unfolded reads_def, THEN conjunct2, rule_format]
  have p: "p @ s = QUOTE # concat (map escape_char k) @ QUOTE # CHR '':'' # CHR '' '' # t @ s" for s
    by (simp add: kv(2) json_string_def)
  have vs: "value_start p" using p [of "[]"] by (simp add: value_start_def) (simp add: QUOTE_def)
  have step: "scan_pairs acc (p @ s) =
      (case skip_ws s of
         e # es \<Rightarrow>
           if e = CHR ''}'' then Inr (dict_set k v acc, length es)
           else if e = CHR '','' then scan_pairs (dict_set k v acc) (skip_ws es)
           else Inl (decode_error ''Expecting comma delimiter'')
       | [] \<Rightarrow> Inl (decode_error ''Expecting comma delimiter''))" if "number_end s" for s acc
    unfolding p
    by (subst scan_pairs.simps) (simp add: scan_string_json value_start_skip [OF start] scan [OF that])
  show ?case
  proof (cases "ps = []")
    case True
    then have "kvs = []" using Cons.hyps(2) by simp
    then show ?thesis using True kv(1) vs by (simp add: step is_digit_def)
  next
    case False
    let ?s = "str_join '', '' ps @ CHR ''}'' # rest"
    have ih: "scan_pairs (dict_set k v acc) ?s
        = Inr (foldl (\<lambda>d (k, v). dict_set k v d) (dict_set k v acc) kvs, length rest)" "skip_ws ?s = ?s"
      using Cons.IH [of "dict_set k v acc"] False by (simp_all add: value_start_skip)
    then show ?thesis
      using False vs kv(1) by (simp add: str_join_Cons step is_digit_def value_start_append)
  qed
qed simp

lemma foldl_dict_set_distinct:
  "distinct (dict_keys (acc @ kvs)) \<Longrightarrow> foldl (\<lambda>d (k, v). dict_set k v d) acc kvs = acc @ kvs"
proof (induction kvs arbitrary: acc)
  case (Cons kv kvs)
  obtain k v where kv: "kv = (k, v)" by fastforce
  have "dict_get acc k = None" using Cons.prems by (auto simp: kv map_of_eq_None_iff)
  then have "dict_set k v acc = acc @ [(k, v)]" by (rule dict_set_new)
  then show ?case using Cons.IH [of "acc @ [kv]"] Cons.prems by (simp add: kv)
qed simp

lemma scan_once_atom:
  assumes "c \<notin> {QUOTE, CHR ''{'', CHR ''[''}" shows "scan_once (c # cs) = scan_atom (c # cs)"
  using assms by (subst scan_once.simps) simp

lemma list_all2_swap_reads: "list_all2 (\<lambda>x y. P x y) xs ys \<Longrightarrow> list_all2 (\<lambda>y x. P x y) ys xs"
  by (simp add: list_all2_conv_all_nth)

lemma reads_digit_atom:
  assumes "t = c # cs" "is_digit c \<or> c \<in> {CHR ''-'', CHR ''n'', CHR ''t'', CHR ''f'', CHR ''N'', CHR ''I''}"
    and "\<And>rest. number_end rest \<Longrightarrow> scan_atom (t @ rest) = Inr (v, length rest)"
  shows "reads t v"
proof -
  have c: "c \<notin> {QUOTE, CHR ''{'', CHR ''['', CHR '']'', CHR ''}''}" "\<not> json_space c"
    using assms(2) by (auto simp: is_digit_def QUOTE_def json_space_def)
  then have "scan_once (t @ rest) = scan_atom (t @ rest)" for rest
    using scan_once_atom [of c "cs @ rest"] assms(1) by simp
  then show ?thesis using c assms(1,3) by (simp add: reads_def value_start_def)
qed

lemma json_float_start:
  assumes "xfloat_ok x"
  obtains c cs where "json_float x = c # cs" "is_digit c \<or> c \<in> {CHR ''-'', CHR ''N'', CHR ''I''}"
proof (cases x)
  case (Finite r)
  then have "fl r = r" using assms by simp
  then obtain w f e where t: "float_parts w f e"
    "float_repr r = (if r < 0 then [CHR ''-''] else []) @ number_text w f e"
    by (rule float_repr_text)
  obtain c cs where "number_text w f e = c # cs" "is_digit c" using t(1) by (rule number_text_Cons)
  then show thesis using t(2) Finite that by (cases "r < 0") simp_all
next
  case (Infinite b)
  then show thesis using that by (cases b) simp_all
qed (use that in simp)

lemma dumps_reads: "json_ok v \<Longrightarrow> dumps v = Inr t \<Longrightarrow> reads t v"
proof (induction v arbitrary: t rule: json_ok.induct)
  case (1 i)
  obtain c cs where "nat_str (nat \<bar>i\<bar>) = c # cs" "is_digit c" by (rule nat_str_Cons)
  then obtain c' cs' where "int_str i = c' # cs'" "is_digit c' \<or> c' = CHR ''-''"
    by (cases "i < 0") (auto simp: int_str_def)
  then show ?case using 1 scan_atom_int by (intro reads_digit_atom [of t c' cs']) (auto simp: repr_int_def)
next
  case (2 x)
  then have ok: "xfloat_ok x" and t: "t = json_float x" by simp_all
  obtain c cs where "json_float x = c # cs" "is_digit c \<or> c \<in> {CHR ''-'', CHR ''N'', CHR ''I''}"
    using ok by (rule json_float_start)
  then show ?case unfolding t using scan_atom_float [OF ok] by (intro reads_digit_atom [of _ c cs]) auto
next
  case (3 xs)
  then obtain ts where ts: "list_all2 (\<lambda>v t. dumps v = Inr t) xs ts" "t = ''['' @ str_join '', '' ts @ '']''"
    by (auto simp: bind_result_iffs map_result_Inr)
  have "list_all2 (\<lambda>v t. reads t v) xs ts"
    using ts(1) by (rule list.rel_mono_strong) (use 3 in \<open>auto simp: list_all_iff\<close>)
  then have r: "list_all2 reads ts xs" by (rule list_all2_swap_reads)
  show ?case
  proof (cases "ts = []")
    case True
    then have "xs = []" using r by simp
    then show ?thesis using True ts(2)
      by (auto simp: reads_def value_start_def scan_once.simps QUOTE_def)
  next
    case False
    have "scan_once (t @ rest) = Inr (JList xs, length rest)" for rest
    proof -
      note j = scan_items_join [OF r False, of rest]
      then have "skip_ws (str_join '', '' ts @ CHR '']'' # rest) = str_join '', '' ts @ CHR '']'' # rest"
        by (simp add: value_start_skip)
      moreover obtain c cs where "str_join '', '' ts = c # cs" "c \<noteq> CHR '']''"
        using j by (cases "str_join '', '' ts") (auto simp: value_start_def)
      ultimately show ?thesis using j ts(2) by (subst scan_once.simps) (simp add: QUOTE_def)
    qed
    then show ?thesis using ts(2) by (simp add: reads_def value_start_def)
  qed
next
  case (4 kvs)
  then obtain ts where ts: "list_all2 (\<lambda>(k, v) p. \<exists>t. dumps v = Inr t \<and> json_string k @ '': '' @ t = p) kvs ts"
    "t = ''{'' @ str_join '', '' ts @ ''}''"
    by (auto simp: bind_result_iffs map_result_Inr ordered_items_def split_def)
  have "list_all2 (\<lambda>kv p. reads_pair p kv) kvs ts"
    using ts(1) by (rule list.rel_mono_strong) (use 4 in \<open>fastforce simp: list_all_iff reads_pair_def\<close>)
  then have r: "list_all2 reads_pair ts kvs" by (rule list_all2_swap_reads)
  have d: "foldl (\<lambda>d (k, v). dict_set k v d) [] kvs = kvs"
    using foldl_dict_set_distinct [of "[]" kvs] 4 by simp
  show ?case
  proof (cases "ts = []")
    case True
    then have "kvs = []" using r by simp
    then show ?thesis using True ts(2)
      by (auto simp: reads_def value_start_def scan_once.simps QUOTE_def)
  next
    case False
    have "scan_once (t @ rest) = Inr (JObj kvs, length rest)" for rest
    proof -
      note j = scan_pairs_join [OF r False, of "[]" rest]
      then have "skip_ws (str_join '', '' ts @ CHR ''}'' # rest) = str_join '', '' ts @ CHR ''}'' # rest"
        by (simp add: value_start_skip)
      moreover obtain c cs where "str_join '', '' ts = c # cs" "c \<noteq> CHR ''}''"
        using j by (cases "str_join '', '' ts") (auto simp: value_start_def)
      ultimately show ?thesis using j ts(2) d by (subst scan_once.simps) (simp add: QUOTE_def)
    qed
    then show ?thesis using ts(2) by (simp add: reads_def value_start_def)
  qed
next
  case 5
  then show ?case
    by (intro reads_digit_atom [of t "CHR ''n''" "''ull''"]) (auto simp: scan_atom_def literals_def str_startswith_def)
next
  case (6 b)
  then show ?case
    by (cases b) (auto intro!: reads_digit_atom simp: scan_atom_def literals_def str_startswith_def)
next
  case (7 s)
  then have t: "t = QUOTE # concat (map escape_char s) @ [QUOTE]" by (simp add: json_string_def)
  have "scan_once (t @ rest) = Inr (JStr s, length rest)" for rest
    unfolding t by (subst scan_once.simps) (simp add: scan_string_json)
  then show ?case by (simp add: reads_def value_start_def t) (simp add: QUOTE_def)
qed

lemma dumps_total: "json_ok v \<Longrightarrow> \<exists>t. dumps_with b v = Inr t"
proof (induction v rule: json_ok.induct)
  case (3 xs)
  then have "\<exists>ts. map_result (dumps_with b) xs = Inr ts" by (intro map_result_total) (auto simp: list_all_iff)
  then show ?case by auto
next
  case (4 kvs)
  let ?f = "\<lambda>(k, v). bind_result (dumps_with b v) (\<lambda>t. Inr (json_string k @ '': '' @ t))"
  have ok: "\<exists>t. dumps_with b v = Inr t" if "(k, v) \<in> set (ordered_items b kvs)" for k v
    using that 4 by (auto simp: ordered_items_def list_all_iff split: if_splits)
  have "\<exists>ts. map_result ?f (ordered_items b kvs) = Inr ts"
    by (rule map_result_total) (use ok in fastforce)
  then show ?case by (auto simp: split_def)
qed (simp_all add: repr_int_def)

lemma json_round_trip:
  assumes "json_ok v" obtains t where "dumps v = Inr t" "loads t = Inr v"
proof -
  obtain t where t: "dumps v = Inr t" using dumps_total [OF assms] by blast
  then have "reads t v" using assms by (intro dumps_reads)
  then have "scan_once t = Inr (v, 0)" "skip_ws t = t"
    using value_start_skip [of t "[]"] by (auto simp: reads_def dest: spec [of _ "[]"])
  then have "loads t = Inr v" by (simp add: loads_def at_pos_def)
  with t show thesis by (rule that)
qed

section \<open>What json.loads returns\<close>

lemma to_xfloat_ok [simp]: "xfloat_ok (to_xfloat x)"
  by (simp add: to_xfloat_def Let_def)

lemma xneg_ok [simp]: "xfloat_ok x \<Longrightarrow> xfloat_ok (xneg x)"
  by (cases x) (simp_all add: fl_minus)

lemma float_of_str_ok: "float_of_str s = Inr x \<Longrightarrow> xfloat_ok x"
  by (auto simp: float_of_str_def scan_unsigned_def split: option.splits list.splits if_splits)

lemma scan_atom_ok: "scan_atom s = Inr (v, r) \<Longrightarrow> json_ok v"
  by (auto simp: scan_atom_def literals_def scan_number_def bind_result_iffs float_of_str_ok py_int_bound
      split: option.splits if_splits prod.splits)

lemma scan_pairs_Inr:
  assumes "scan_pairs acc s = Inr (kvs, r)"
  obtains cs k rest ds v r0 e es where "s = QUOTE # cs" "scan_string cs = Inr (k, rest)"
    "skip_ws rest = CHR '':'' # ds" "scan_once (skip_ws ds) = Inr (v, r0)" "skip_ws (at_pos (skip_ws ds) r0) = e # es"
    "e = CHR ''}'' \<and> kvs = dict_set k v acc
     \<or> e \<noteq> CHR ''}'' \<and> e = CHR '','' \<and> scan_pairs (dict_set k v acc) (skip_ws es) = Inr (kvs, r)"
proof -
  note eq = assms [unfolded scan_pairs.simps [of acc s]]
  obtain cs where s: "s = QUOTE # cs" using eq by (auto split: list.splits if_splits)
  obtain k rest where k: "scan_string cs = Inr (k, rest)" using eq s by (auto split: sum.splits)
  obtain ds where d: "skip_ws rest = CHR '':'' # ds" using eq s k by (auto split: list.splits if_splits)
  obtain v r0 where v: "scan_once (skip_ws ds) = Inr (v, r0)" using eq s k d by (auto simp: bind_result_iffs)
  obtain e es where e: "skip_ws (at_pos (skip_ws ds) r0) = e # es"
    using eq s k d v by (auto split: list.splits)
  show thesis using eq s k d v e by (intro that [OF s k d v e]) (auto split: if_splits)
qed

lemma scan_ok:
  "scan_once s = Inr (v, r) \<Longrightarrow> json_ok v"
  "scan_items s = Inr (vs, r) \<Longrightarrow> list_all json_ok vs"
  "scan_pairs acc s = Inr (kvs, r) \<Longrightarrow> json_ok (JObj acc) \<Longrightarrow> json_ok (JObj kvs)"
proof (induction s and s and acc s arbitrary: v r and vs r and kvs r rule: scan_once_scan_items_scan_pairs.induct)
  case (1 s)
  obtain c cs where s: "s = c # cs" using 1(3) by (cases s) (simp_all add: scan_once.simps)
  note eq = 1(3) [unfolded s scan_once.simps [of "c # cs"]]
  consider (string) "c = QUOTE" | (object) "c \<noteq> QUOTE" "c = CHR ''{''"
    | (array) "c \<noteq> QUOTE" "c \<noteq> CHR ''{''" "c = CHR ''[''" | (atom) "c \<noteq> QUOTE" "c \<noteq> CHR ''{''" "c \<noteq> CHR ''[''"
    by blast
  then show ?case
  proof cases
    case object
    obtain d ds where d: "skip_ws cs = d # ds" using eq object by (cases "skip_ws cs") simp_all
    show ?thesis
    proof (cases "d = CHR ''}''")
      case False
      then obtain kvs where k: "scan_pairs [] (d # ds) = Inr (kvs, r)" "v = JObj kvs"
        using eq object d by (auto simp: bind_result_iffs)
      show ?thesis using 1(1) [OF s object d False k(1)] k(2) by simp
    qed (use eq object d in auto)
  next
    case array
    obtain d ds where d: "skip_ws cs = d # ds" using eq array by (cases "skip_ws cs") simp_all
    show ?thesis
    proof (cases "d = CHR '']''")
      case False
      then obtain vs where k: "scan_items (d # ds) = Inr (vs, r)" "v = JList vs"
        using eq array d by (auto simp: bind_result_iffs)
      show ?thesis using 1(2) [OF s array d False k(1)] k(2) by simp
    qed (use eq array d in auto)
  qed (use eq in \<open>auto simp: bind_result_iffs scan_atom_ok\<close>)
next
  case (2 s)
  obtain v0 r0 where v: "scan_once s = Inr (v0, r0)" using 2(3)
    by (subst (asm) scan_items.simps) (auto simp: bind_result_iffs)
  note eq = 2(3) [unfolded scan_items.simps [of s] v, simplified]
  obtain d ds where d: "skip_ws (at_pos s r0) = d # ds" using eq by (cases "skip_ws (at_pos s r0)") simp_all
  show ?case
  proof (cases "d = CHR '']''")
    case False
    then obtain vs' where "scan_items (skip_ws ds) = Inr (vs', r)" "vs = v0 # vs'" "d = CHR '',''"
      using eq d by (auto simp: bind_result_iffs split: if_splits)
    then show ?thesis using 2(1) [OF v] 2(2) [OF d False] by simp
  qed (use eq d 2(1) [OF v] in auto)
next
  case (3 acc s)
  have set: "json_ok (JObj (dict_set k v acc))" if "json_ok v" for k v
  proof -
    have "json_ok v'" if "(k', v') \<in> set (dict_set k v acc)" for k' v'
    proof -
      have "distinct (dict_keys (dict_set k v acc))" using 3(4) by simp
      then have "dict_get (dict_set k v acc) k' = Some v'" using that by (rule map_of_is_SomeI)
      then show ?thesis using \<open>json_ok v\<close> 3(4) by (auto simp: list_all_iff split: if_splits dest: map_of_SomeD)
    qed
    then show ?thesis using 3(4) by (auto simp: list_all_iff)
  qed
  obtain cs k rest ds v r0 e es where p: "s = QUOTE # cs" "scan_string cs = Inr (k, rest)"
    "skip_ws rest = CHR '':'' # ds" "scan_once (skip_ws ds) = Inr (v, r0)" "skip_ws (at_pos (skip_ws ds) r0) = e # es"
    "e = CHR ''}'' \<and> kvs = dict_set k v acc
     \<or> e \<noteq> CHR ''}'' \<and> e = CHR '','' \<and> scan_pairs (dict_set k v acc) (skip_ws es) = Inr (kvs, r)"
    using 3(3) by (rule scan_pairs_Inr)
  have v: "json_ok v" using 3(1) [OF p(1) refl p(2) refl p(3) refl p(4)] .
  show ?case
    using p(6) set [OF v, of k] 3(2) [OF p(1) refl p(2) refl p(3) refl p(5)] by blast
qed

lemma loads_ok: "loads s = Inr v \<Longrightarrow> json_ok v"
  by (auto simp: loads_def bind_result_iffs scan_ok(1) split: if_splits)

end
