(* ===== verification/Http_Client.thy ===== *)
theory Http_Client
  imports Circuit_Breaker Cache_Store Json_Text Py_Sha256
begin

text \<open>
  \<^verbatim>\<open>app/providers/http_client.py\<close>: the client that the provider adapters share, with
  retries and exponential backoff, a circuit breaker and a response cache.  The network and the clocks
  are the record \<open>http_env\<close>, a parameter over a state \<open>'s\<close> of the world.
  The operations model one call that no other call of the same client overlaps.
\<close>

section \<open>The environment\<close>

record http_response =
  response_status :: int
  response_body :: string

text \<open>
  \<open>env_get\<close> is \<open>httpx.AsyncClient.get\<close>, \<open>env_raise_for_status\<close> and \<open>env_json\<close> are the methods of its
  response, \<open>env_sleep\<close> is \<open>asyncio.sleep\<close>, \<open>env_loop_time\<close> and \<open>env_monotonic\<close> the clocks of the breaker
  and the cache.
\<close>

record 's http_env =
  env_get :: "string \<Rightarrow> (string, json) dict option \<Rightarrow> 's \<Rightarrow> http_response outcome \<times> 's"
  env_raise_for_status :: "http_response \<Rightarrow> exn option"
  env_json :: "http_response \<Rightarrow> json result"
  env_sleep :: "pyfloat \<Rightarrow> 's \<Rightarrow> unit outcome \<times> 's"
  env_loop_time :: "'s \<Rightarrow> pyfloat"
  env_monotonic :: "'s \<Rightarrow> pyfloat"

text \<open>What httpx documents of \<open>Response.json()\<close>: the value is read from JSON text.\<close>

definition json_documented :: "'s http_env \<Rightarrow> bool" where
  "json_documented env \<longleftrightarrow> (\<forall>response v. env_json env response = Inr v \<longrightarrow> (\<exists>text. loads text = Inr v))"


section \<open>The client\<close>

record 'c http_client =
  hc_provider :: string
  hc_cache :: "'c cache_ops option"
  hc_max_retries :: int
  hc_backoff_base :: pyfloat

text \<open>
  The constructor: \<open>cache\<close>, \<open>max_retries\<close> (default 2), \<open>backoff_base\<close> (default 0.2) and the breaker
  (default: a new one named after the provider) are keyword arguments.
\<close>

definition ResilientHttpClient ::
  "string \<Rightarrow> 'c cache_ops option \<Rightarrow> int option \<Rightarrow> pyfloat option \<Rightarrow> breaker option
   \<Rightarrow> 'c http_client \<times> breaker" where
  "ResilientHttpClient provider cache max_retries backoff_base breaker =
     (\<lparr>hc_provider = provider, hc_cache = cache,
       hc_max_retries = (case max_retries of None \<Rightarrow> 2 | Some n \<Rightarrow> n),
       hc_backoff_base = (case backoff_base of None \<Rightarrow> fl (1 / 5) | Some x \<Rightarrow> x)\<rparr>,
      (case breaker of None \<Rightarrow> CircuitBreaker provider 5 30 | Some b \<Rightarrow> b))"

definition RETRYABLE_STATUS :: "int list" where
  "RETRYABLE_STATUS = [429, 500, 502, 503, 504]"

definition unavailable :: "string \<Rightarrow> exn" where
  "unavailable provider = app_error ProviderUnavailableError (provider @ '' is temporarily unavailable'')"

definition request_failed :: "'c http_client \<Rightarrow> exn" where
  "request_failed hc = app_error ProviderUnavailableError
     (hc_provider hc @ '' request failed after '' @ int_str (hc_max_retries hc + 1) @ '' attempts'')"

text \<open>The \<open>try\<close> block of one attempt.\<close>

definition get_once ::
  "'s http_env \<Rightarrow> string \<Rightarrow> (string, json) dict option \<Rightarrow> 's \<Rightarrow> json outcome \<times> 's" where
  "get_once env url params s =
     (case env_get env url params s of
        (Aborted, s') \<Rightarrow> (Aborted, s')
      | (Raised e, s') \<Rightarrow> (Raised e, s')
      | (Returned response, s') \<Rightarrow>
          (if response_status response \<in> set RETRYABLE_STATUS
           then Raised (HTTPStatusError (response_status response))
           else case env_raise_for_status env response of
                  Some e \<Rightarrow> Raised e
                | None \<Rightarrow> (case env_json env response of Inl e \<Rightarrow> Raised e | Inr v \<Rightarrow> Returned v),
           s'))"

text \<open>The exceptions that \<open>except (httpx.TransportError, httpx.HTTPStatusError)\<close> catches.\<close>

fun retry_caught :: "exn \<Rightarrow> bool" where
  "retry_caught (TransportError m) = True"
| "retry_caught (HTTPStatusError c) = True"
| "retry_caught _ = False"

definition backoff_delay :: "'c http_client \<Rightarrow> nat \<Rightarrow> pyfloat" where
  "backoff_delay hc attempt = fmul (hc_backoff_base hc) (of_int (2 ^ attempt))"

text \<open>The loop over the attempts that remain; \<open>break\<close> leaves it with the final \<open>raise\<close>.\<close>

fun retry_loop ::
  "'s http_env \<Rightarrow> 'c http_client \<Rightarrow> string \<Rightarrow> (string, json) dict option \<Rightarrow> nat list \<Rightarrow> 's
   \<Rightarrow> json outcome \<times> 's" where
  "retry_loop env hc url params [] s = (Raised (request_failed hc), s)"
| "retry_loop env hc url params (attempt # attempts) s =
     (case get_once env url params s of
        (Returned v, s') \<Rightarrow> (Returned v, s')
      | (Aborted, s') \<Rightarrow> (Aborted, s')
      | (Raised e, s') \<Rightarrow>
          if retry_caught e then
            if int attempt < hc_max_retries hc then
              (case env_sleep env (backoff_delay hc attempt) s' of
                 (Returned _, s'') \<Rightarrow> retry_loop env hc url params attempts s''
               | (Raised e', s'') \<Rightarrow> (Raised e', s'')
               | (Aborted, s'') \<Rightarrow> (Aborted, s''))
            else (Raised (request_failed hc), s')
          else (Raised e, s'))"

definition get_with_retry ::
  "'s http_env \<Rightarrow> 'c http_client \<Rightarrow> string \<Rightarrow> (string, json) dict option \<Rightarrow> 's \<Rightarrow> json outcome \<times> 's" where
  "get_with_retry env hc url params s =
     retry_loop env hc url params [0..<nat (hc_max_retries hc + 1)] s"

text \<open>The text \<open>raw\<close> that is hashed into a cache key.\<close>

definition key_text :: "'c http_client \<Rightarrow> string \<Rightarrow> (string, json) dict option \<Rightarrow> string result" where
  "key_text hc url params =
     bind_result (dumps_sorted (JObj (case params of None \<Rightarrow> [] | Some p \<Rightarrow> p)))
       (\<lambda>t. Inr (hc_provider hc @ '':'' @ url @ '':'' @ t))"

definition cache_key :: "'c http_client \<Rightarrow> string \<Rightarrow> (string, json) dict option \<Rightarrow> string result" where
  "cache_key hc url params =
     bind_result (key_text hc url params)
       (\<lambda>raw. Inr (''http:'' @ hc_provider hc @ '':'' @ take 32 (sha256_hex raw)))"

text \<open>What a call reads and changes: the breaker, the cache and the world.\<close>

record ('c, 's) http_state =
  st_breaker :: breaker
  st_cache :: 'c
  st_world :: 's

definition fetch_through_breaker ::
  "'s http_env \<Rightarrow> 'c http_client \<Rightarrow> string \<Rightarrow> (string, json) dict option \<Rightarrow> ('c, 's) http_state
   \<Rightarrow> json outcome \<times> ('c, 's) http_state" where
  "fetch_through_breaker env hc url params st =
     (case call (env_loop_time env) (get_with_retry env hc url params) (st_breaker st) (st_world st) of
        (r, b, s) \<Rightarrow>
          ((case r of
              Raised (CircuitBreakerOpen n) \<Rightarrow> Raised (unavailable (hc_provider hc))
            | _ \<Rightarrow> r),
           st\<lparr>st_breaker := b, st_world := s\<rparr>))"

text \<open>The cache that a call with this \<open>cache_ttl\<close> uses: none when either is missing or the ttl is zero.\<close>

definition active_cache :: "'c http_client \<Rightarrow> int option \<Rightarrow> ('c cache_ops \<times> int) option" where
  "active_cache hc cache_ttl =
     (case (hc_cache hc, cache_ttl) of
        (Some ops, Some ttl) \<Rightarrow> if ttl = 0 then None else Some (ops, ttl)
      | _ \<Rightarrow> None)"

definition get_json ::
  "'s http_env \<Rightarrow> 'c http_client \<Rightarrow> string \<Rightarrow> (string, json) dict option \<Rightarrow> int option
   \<Rightarrow> ('c, 's) http_state \<Rightarrow> json outcome \<times> ('c, 's) http_state" where
  "get_json env hc url params cache_ttl st =
     (case active_cache hc cache_ttl of
        None \<Rightarrow> fetch_through_breaker env hc url params st
      | Some (ops, ttl) \<Rightarrow>
          case cache_key hc url params of
            Inl e \<Rightarrow> (Raised e, st)
          | Inr key \<Rightarrow>
              (case op_get ops (env_monotonic env (st_world st)) key (st_cache st) of
                 (Some cached, c) \<Rightarrow>
                   ((case loads cached of Inl e \<Rightarrow> Raised e | Inr v \<Rightarrow> Returned v), st\<lparr>st_cache := c\<rparr>)
               | (None, c) \<Rightarrow>
                   (case fetch_through_breaker env hc url params (st\<lparr>st_cache := c\<rparr>) of
                      (Returned payload, st') \<Rightarrow>
                        (case dumps payload of
                           Inl e \<Rightarrow> (Raised e, st')
                         | Inr text \<Rightarrow>
                             (Returned payload,
                              st'\<lparr>st_cache := op_set ops (env_monotonic env (st_world st')) key text ttl
                                                (st_cache st')\<rparr>))
                    | (r, st') \<Rightarrow> (r, st'))))"


section \<open>The retry loop\<close>

text \<open>
  \<open>failed_attempts env hc url params k s s'\<close>: from \<open>s\<close> the attempts \<open>0, \<dots>, k - 1\<close> fail with a caught
  exception, each followed by its backoff, and leave the world in \<open>s'\<close>.
\<close>

inductive failed_attempts ::
  "'s http_env \<Rightarrow> 'c http_client \<Rightarrow> string \<Rightarrow> (string, json) dict option \<Rightarrow> nat \<Rightarrow> 's \<Rightarrow> 's \<Rightarrow> bool"
  for env hc url params where
  no_attempt: "failed_attempts env hc url params 0 s s"
| one_more: "failed_attempts env hc url params k s s1
     \<Longrightarrow> get_once env url params s1 = (Raised e, s2) \<Longrightarrow> retry_caught e
     \<Longrightarrow> env_sleep env (backoff_delay hc k) s2 = (Returned u, s3)
     \<Longrightarrow> failed_attempts env hc url params (Suc k) s s3"

lemma retry_loop_skip:
  assumes "failed_attempts env hc url params k s s'" and "k \<le> n" and "hc_max_retries hc = int n"
  shows "retry_loop env hc url params [0..<Suc n] s = retry_loop env hc url params [k..<Suc n] s'"
  using assms
proof (induction rule: failed_attempts.induct)
  case (one_more k s s1 e s2 u s3)
  have "[k..<Suc n] = k # [Suc k..<Suc n]" using one_more.prems(1) by (intro upt_conv_Cons) simp
  then show ?case using one_more by simp
qed simp

lemma get_with_retry_skip:
  assumes "failed_attempts env hc url params k s s'" and "int k \<le> hc_max_retries hc"
  shows "get_with_retry env hc url params s
         = retry_loop env hc url params (k # [Suc k..<nat (hc_max_retries hc + 1)]) s'"
proof -
  obtain n where n: "hc_max_retries hc = int n" using assms(2) by (metis nonneg_int_cases of_nat_0_le_iff order_trans)
  then have "nat (hc_max_retries hc + 1) = Suc n" by simp
  moreover have "[k..<Suc n] = k # [Suc k..<Suc n]" using assms(2) n by (intro upt_conv_Cons) simp
  ultimately show ?thesis
    using retry_loop_skip [OF assms(1) _ n] assms(2) n by (simp add: get_with_retry_def del: upt_Suc)
qed

lemma retry_loop_requests:
  assumes counts: "\<And>url params s. sent (snd (env_get env url params s)) = Suc (sent s)"
    and quiet: "\<And>d s. sent (snd (env_sleep env d s)) = sent s"
    and "retry_loop env hc url params attempts s = (r, s')"
  shows "sent s \<le> sent s' \<and> sent s' \<le> sent s + length attempts"
  using assms(3)
proof (induction attempts arbitrary: s)
  case (Cons attempt attempts)
  have once: "sent (snd (get_once env url params s)) = Suc (sent s)"
    using counts [of url params s] by (auto simp: get_once_def split: prod.split outcome.split)
  obtain r1 s1 where g: "get_once env url params s = (r1, s1)" by fastforce
  obtain r2 s2 where sl: "env_sleep env (backoff_delay hc attempt) s1 = (r2, s2)" by fastforce
  have "sent s1 = Suc (sent s)" "sent s2 = Suc (sent s)"
    using once quiet [of "backoff_delay hc attempt" s1] g sl by simp_all
  then show ?case
    using Cons.prems Cons.IH [of s2] g sl
    by (auto split: outcome.splits if_splits)
qed simp

lemma fetch_requests:
  assumes counts: "\<And>url params s. sent (snd (env_get env url params s)) = Suc (sent s)"
    and quiet: "\<And>d s. sent (snd (env_sleep env d s)) = sent s"
    and "fetch_through_breaker env hc url params st = (r, st')"
  shows "sent (st_world st) \<le> sent (st_world st')
    \<and> sent (st_world st') \<le> sent (st_world st) + nat (hc_max_retries hc + 1)"
proof -
  obtain r1 s1 where g: "get_with_retry env hc url params (st_world st) = (r1, s1)" by fastforce
  have "sent (st_world st) \<le> sent s1 \<and> sent s1 \<le> sent (st_world st) + nat (hc_max_retries hc + 1)"
    using retry_loop_requests [OF counts quiet] g by (fastforce simp: get_with_retry_def)
  moreover have "st_world st' = st_world st \<or> st_world st' = s1"
    using assms(3) g
    by (auto simp: fetch_through_breaker_def call_def split: prod.splits outcome.splits option.splits)
  ultimately show ?thesis by auto
qed

text \<open>A payload that comes from the network was read by \<open>response.json()\<close>.\<close>

lemma retry_loop_payload:
  "retry_loop env hc url params attempts s = (Returned v, s') \<Longrightarrow> \<exists>response. env_json env response = Inr v"
proof (induction attempts arbitrary: s)
  case (Cons attempt attempts)
  obtain r1 s1 where g: "get_once env url params s = (r1, s1)" by fastforce
  obtain r2 s2 where sl: "env_sleep env (backoff_delay hc attempt) s1 = (r2, s2)" by fastforce
  have "\<exists>response. env_json env response = Inr v" if "r1 = Returned v"
    using g that by (auto simp: get_once_def split: prod.splits outcome.splits if_splits option.splits sum.splits)
  then show ?case using Cons g sl by (auto split: outcome.splits if_splits)
qed simp

lemma fetch_payload:
  assumes "fetch_through_breaker env hc url params st = (Returned v, st')"
  shows "\<exists>response. env_json env response = Inr v"
proof -
  have "\<exists>s s'. get_with_retry env hc url params s = (Returned v, s')"
    using assms
    by (auto simp: fetch_through_breaker_def call_def split: prod.splits option.splits outcome.splits exn.splits)
  then show ?thesis using retry_loop_payload by (fastforce simp: get_with_retry_def)
qed

text \<open>An open breaker whose recovery time has not passed stops the call before the network.\<close>

lemma fetch_rejected:
  assumes "cb_state (st_breaker st) = OPEN"
    and "fsub (env_loop_time env (st_world st)) (opened_at (st_breaker st)) < recovery_seconds (st_breaker st)"
  shows "fetch_through_breaker env hc url params st = (Raised (unavailable (hc_provider hc)), st)"
proof -
  have "admit (env_loop_time env (st_world st)) (st_breaker st)
      = (Some (CircuitBreakerOpen (cb_name (st_breaker st))), st_breaker st)"
    using assms by (simp add: admit_Some_iff)
  then show ?thesis by (simp add: fetch_through_breaker_def call_def)
qed


section \<open>The response cache\<close>

context ttl_cache
begin

lemma get_json_stores:
  assumes "active_cache hc cache_ttl = Some (\<lparr>op_get = get, op_set = put, op_delete = del\<rparr>, ttl)"
    and "cache_key hc url params = Inr key"
    and "view (st_cache st) (env_monotonic env (st_world st)) key = None"
    and "get_json env hc url params cache_ttl st = (Returned v, st1)"
  obtains stored where "dumps v = Inr stored"
    and "\<And>t. t < deadline (env_monotonic env (st_world st1)) ttl \<Longrightarrow> view (st_cache st1) t key = Some stored"
proof -
  obtain c where g: "get (env_monotonic env (st_world st)) key (st_cache st) = (None, c)"
    using get_value [of "env_monotonic env (st_world st)" key "st_cache st"] assms(3)
    by (metis prod.collapse)
  obtain r st' where f: "fetch_through_breaker env hc url params (st\<lparr>st_cache := c\<rparr>) = (r, st')"
    by fastforce
  obtain stored where "dumps v = Inr stored" "st_world st1 = st_world st'"
    "st_cache st1 = put (env_monotonic env (st_world st')) key stored ttl (st_cache st')"
    using assms(1,2,4) g f by (auto simp: get_json_def split: outcome.splits sum.splits)
  then show thesis by (intro that [of stored]) (simp_all add: view_put)
qed

lemma get_json_miss:
  assumes "active_cache hc cache_ttl = Some (\<lparr>op_get = get, op_set = put, op_delete = del\<rparr>, ttl)"
    and "cache_key hc url params = Inr key"
    and "view (st_cache st) (env_monotonic env (st_world st)) key = None"
    and "get_json env hc url params cache_ttl st = (Returned v, st1)"
  shows "\<exists>response. env_json env response = Inr v"
proof -
  have "fst (get (env_monotonic env (st_world st)) key (st_cache st)) = None"
    using get_value [of "env_monotonic env (st_world st)" key "st_cache st"] assms(3) by simp
  then obtain st' c where "fetch_through_breaker env hc url params (st\<lparr>st_cache := c\<rparr>) = (Returned v, st')"
    using assms(1,2,4) by (auto simp: get_json_def split: prod.splits outcome.splits sum.splits option.splits)
  then show ?thesis by (rule fetch_payload)
qed

lemma get_json_hit:
  assumes "active_cache hc cache_ttl = Some (\<lparr>op_get = get, op_set = put, op_delete = del\<rparr>, ttl)"
    and "cache_key hc url params = Inr key"
    and "view (st_cache st) (env_monotonic env (st_world st)) key = Some stored"
    and "loads stored = Inr v"
  shows "\<exists>c. get_json env hc url params cache_ttl st = (Returned v, st\<lparr>st_cache := c\<rparr>)
    \<and> (\<forall>t k. env_monotonic env (st_world st) \<le> t \<longrightarrow> view c t k = view (st_cache st) t k)"
proof -
  let ?t = "env_monotonic env (st_world st)"
  obtain c where g: "get ?t key (st_cache st) = (Some stored, c)"
    using get_value [of ?t key "st_cache st"] assms(3) by (metis prod.collapse)
  moreover have "view c t k = view (st_cache st) t k" if "?t \<le> t" for t k
    using view_get [OF that, of key "st_cache st" k] g by simp
  ultimately show ?thesis using assms(1,2,4) by (auto simp: get_json_def)
qed

end

section \<open>An example environment\<close>

lemma json_ok_one: "json_ok (JInt 1)"
proof -
  have "(1 :: int) < 10 ^ max_str_digits" by (rule one_less_power) (simp_all add: max_str_digits_def)
  then show ?thesis by simp
qed

text \<open>
  A server that follows a script of status codes, a count of the requests sent and of the naps
  taken.  \<open>raise_for_status\<close> raises unless the status is in the 200 range.
\<close>

record script_world =
  replies :: "int list"
  sent_count :: nat
  naps :: "pyfloat list"

definition script_env :: "script_world http_env" where
  "script_env =
     \<lparr>env_get = (\<lambda>url params w.
        (case replies w of
           [] \<Rightarrow> Raised (TransportError ''connection refused'')
         | c # cs \<Rightarrow> Returned \<lparr>response_status = c, response_body = ''1''\<rparr>,
         w\<lparr>replies := tl (replies w), sent_count := Suc (sent_count w)\<rparr>)),
      env_raise_for_status = (\<lambda>r. if 200 \<le> response_status r \<and> response_status r < 300 then None
                                  else Some (HTTPStatusError (response_status r))),
      env_json = (\<lambda>r. Inr (JInt 1)),
      env_sleep = (\<lambda>d w. (Returned (), w\<lparr>naps := naps w @ [d]\<rparr>)),
      env_loop_time = (\<lambda>w. 0), env_monotonic = (\<lambda>w. 0)\<rparr>"

definition script_client :: "memory_cache http_client" where
  "script_client = fst (ResilientHttpClient ''x'' (Some memory_cache_ops) None None None)"

definition script_state :: "int list \<Rightarrow> (memory_cache, script_world) http_state" where
  "script_state cs =
     \<lparr>st_breaker = CircuitBreaker ''x'' 5 30, st_cache = InMemoryCache,
      st_world = \<lparr>replies = cs, sent_count = 0, naps = []\<rparr>\<rparr>"

lemmas script_simps = script_env_def script_client_def script_state_def ResilientHttpClient_def
  get_once_def RETRYABLE_STATUS_def memory_cache_ops_def InMemoryCache_def


section \<open>Properties\<close>

text \<open>
  C11: the retry loop.  After \<open>k\<close> failed attempts (transport errors or error statuses, each followed by a
  sleep of \<open>backoff_base * 2^attempt\<close>), with \<open>k\<close> at most \<open>max_retries\<close>: a successful attempt gives its
  payload, an exception of another kind is passed on at once, and a failure of the last allowed attempt
  raises \<open>ProviderUnavailableError\<close> with no further request or sleep.
\<close>

theorem get_with_retry_outcome:
  assumes "failed_attempts env hc url params k s s1" and "int k \<le> hc_max_retries hc"
  shows "(\<forall>v s2. get_once env url params s1 = (Returned v, s2)
            \<longrightarrow> get_with_retry env hc url params s = (Returned v, s2))
    \<and> (\<forall>e s2. get_once env url params s1 = (Raised e, s2) \<and> \<not> retry_caught e
            \<longrightarrow> get_with_retry env hc url params s = (Raised e, s2))
    \<and> (\<forall>e s2. get_once env url params s1 = (Raised e, s2) \<and> retry_caught e \<and> int k = hc_max_retries hc
            \<longrightarrow> get_with_retry env hc url params s = (Raised (request_failed hc), s2))"
  using get_with_retry_skip [OF assms] by simp

theorem get_with_retry_outcome_witness:
  "get_with_retry script_env script_client ''u'' None (st_world (script_state [503, 200]))
   = (Returned (JInt 1), \<lparr>replies = [], sent_count = 2, naps = [backoff_delay script_client 0]\<rparr>)"
proof -
  let ?w1 = "\<lparr>replies = [200], sent_count = 1, naps = [backoff_delay script_client 0]\<rparr>"
  have fail: "failed_attempts script_env script_client ''u'' None (Suc 0) (st_world (script_state [503, 200])) ?w1"
    by (rule failed_attempts.one_more, rule failed_attempts.no_attempt, simp add: script_simps,
        simp, simp add: script_simps)
  have once: "get_once script_env ''u'' None ?w1
      = (Returned (JInt 1), \<lparr>replies = [], sent_count = 2, naps = [backoff_delay script_client 0]\<rparr>)"
    by (simp add: script_env_def get_once_def RETRYABLE_STATUS_def)
  have "int (Suc 0) \<le> hc_max_retries script_client" by (simp add: script_simps)
  from get_with_retry_outcome [OF fail this] once show ?thesis by blast
qed

text \<open>
  Whatever the network does, one \<open>get_json\<close> sends at most \<open>max_retries + 1\<close> requests (for any
  counter \<open>sent\<close> that each \<open>client.get\<close> advances by one and sleeping leaves alone).
\<close>

lemma get_json_request_bound:
  assumes "\<And>url params s. sent (snd (env_get env url params s)) = Suc (sent s)"
    and "\<And>d s. sent (snd (env_sleep env d s)) = sent s"
    and "get_json env hc url params cache_ttl st = (r, st')"
  shows "sent (st_world st) \<le> sent (st_world st')
    \<and> sent (st_world st') \<le> sent (st_world st) + nat (hc_max_retries hc + 1)"
proof -
  note bound = fetch_requests [OF assms(1,2)]
  show ?thesis
    using assms(3)
    by (auto simp: get_json_def dest!: bound split: option.splits prod.splits outcome.splits sum.splits)
qed

lemma get_json_request_bound_example:
  "sent_count (st_world (snd (get_json script_env script_client ''u'' None (Some 60) (script_state [])))) \<le> 3"
proof -
  obtain r st' where g: "get_json script_env script_client ''u'' None (Some 60) (script_state []) = (r, st')"
    by fastforce
  have "sent_count (st_world st') \<le> sent_count (st_world (script_state []))
      + nat (hc_max_retries script_client + 1)"
    using get_json_request_bound [of sent_count script_env, OF _ _ g] by (simp add: script_env_def)
  then show ?thesis using g by (simp add: script_simps)
qed

text \<open>
  C12: a response is cached.  When \<open>get_json\<close> with a cache and a nonzero ttl has missed and fetched
  \<open>v\<close>, the same request repeated before the deadline gives \<open>v\<close> again without touching the network or
  the breaker, whatever the network would answer now: every value that \<open>response.json()\<close> reads survives
  \<open>json.dumps\<close> and \<open>json.loads\<close> unchanged, floats included.
\<close>

theorem get_json_served_from_cache:
  assumes "hc_cache hc = Some memory_cache_ops" and "cache_ttl = Some ttl" and "ttl \<noteq> 0"
    and "json_documented env"
    and "\<And>key. cache_key hc url params = Inr key
           \<Longrightarrow> cache_view (st_cache st) (env_monotonic env (st_world st)) key = None"
    and "get_json env hc url params cache_ttl st = (Returned v, st1)"
    and "env_monotonic env s2 < fadd (env_monotonic env (st_world st1)) (of_int ttl)"
  shows "\<exists>c. get_json env hc url params cache_ttl (st1\<lparr>st_world := s2\<rparr>)
             = (Returned v, st1\<lparr>st_world := s2, st_cache := c\<rparr>)"
proof -
  have act: "active_cache hc cache_ttl
      = Some (\<lparr>op_get = cache_get, op_set = cache_set, op_delete = cache_delete\<rparr>, ttl)"
    using assms(1-3) by (simp add: active_cache_def memory_cache_ops_def)
  obtain key where key: "cache_key hc url params = Inr key"
    using assms(6) act by (cases "cache_key hc url params") (auto simp: get_json_def)
  obtain stored where d: "dumps v = Inr stored"
    and view: "\<And>t. t < cache_deadline (env_monotonic env (st_world st1)) ttl \<Longrightarrow> cache_view (st_cache st1) t key = Some stored"
    using mem.get_json_stores [OF act key assms(5) [OF key] assms(6)] by blast
  have "\<exists>response. env_json env response = Inr v"
    using mem.get_json_miss [OF act key assms(5) [OF key] assms(6)] .
  then obtain t where "loads t = Inr v" using assms(4) by (auto simp: json_documented_def)
  then have "loads stored = Inr v" using d json_round_trip [OF loads_ok, of t v] by auto
  then show ?thesis
    using mem.get_json_hit [OF act key, of "st1\<lparr>st_world := s2\<rparr>" env stored v] view assms(7)
    by (auto simp: cache_deadline_def)
qed

theorem get_json_served_from_cache_witness:
  "\<exists>st1 c. get_json script_env script_client ''u'' None (Some 60) (script_state [200]) = (Returned (JInt 1), st1)
     \<and> get_json script_env script_client ''u'' None (Some 60)
         (st1\<lparr>st_world := \<lparr>replies = [404], sent_count = 1, naps = []\<rparr>\<rparr>)
       = (Returned (JInt 1), st1\<lparr>st_world := \<lparr>replies = [404], sent_count = 1, naps = []\<rparr>, st_cache := c\<rparr>)"
proof -
  have c: "call (env_loop_time script_env) (get_with_retry script_env script_client ''u'' None)
      (CircuitBreaker ''x'' 5 30) \<lparr>replies = [200], sent_count = 0, naps = []\<rparr>
    = (Returned (JInt 1), CircuitBreaker ''x'' 5 30, \<lparr>replies = [], sent_count = 1, naps = []\<rparr>)"
    by (simp add: call_def breaker_ops CircuitBreaker_def get_with_retry_def script_simps upt_rec)
  have act: "active_cache script_client (Some 60) = Some (memory_cache_ops, 60)"
    by (simp add: active_cache_def script_client_def ResilientHttpClient_def)
  obtain key where k: "cache_key script_client ''u'' None = Inr key"
    by (auto simp: cache_key_def key_text_def ordered_items_def)
  obtain t where t: "dumps (JInt 1) = Inr t" using dumps_total [OF json_ok_one] by blast
  obtain st1 where g: "get_json script_env script_client ''u'' None (Some 60) (script_state [200])
      = (Returned (JInt 1), st1)"
    using c by (simp add: get_json_def act k t fetch_through_breaker_def memory_cache_ops_def cache_get_def
        script_state_def InMemoryCache_def del: dumps_with.simps)
  have doc: "json_documented script_env"
    using json_round_trip [OF json_ok_one] by (auto simp: json_documented_def script_env_def)
  have "fadd 0 (60 :: pyfloat) = 60" using fl_of_int [of 60] by (simp add: fadd_def)
  then show ?thesis
    using g get_json_served_from_cache [OF _ refl _ doc _ g, of "\<lparr>replies = [404], sent_count = 1, naps = []\<rparr>"]
    by (auto simp: script_simps cache_view_def)
qed

text \<open>Query parameters: distinct names with values that are numbers, strings, booleans or \<open>None\<close>.\<close>

fun atomic :: "json \<Rightarrow> bool" where
  "atomic (JList xs) = False"
| "atomic (JObj kvs) = False"
| "atomic _ = True"

definition query_params :: "(string, json) dict \<Rightarrow> bool" where
  "query_params p \<longleftrightarrow> json_ok (JObj p) \<and> list_all (\<lambda>(k, v). atomic v) p"

lemma dumps_atomic: "atomic v \<Longrightarrow> dumps_with b v = dumps_with b' v"
  by (cases v) simp_all

lemma dumps_sorted_params:
  assumes "query_params p"
  obtains t where "dumps_sorted (JObj p) = Inr t" and "loads t = Inr (JObj (sort_key fst p))"
proof -
  have "json_ok (JObj (sort_key fst p))"
    using assms by (auto simp: query_params_def list_all_iff distinct_map)
  then obtain t where t: "dumps (JObj (sort_key fst p)) = Inr t" "loads t = Inr (JObj (sort_key fst p))"
    by (rule json_round_trip)
  have "dumps_sorted v = dumps v" if "(k, v) \<in> set p" for k v
    using assms that by (intro dumps_atomic) (auto simp: query_params_def list_all_iff)
  then have "dumps_sorted (JObj p) = dumps (JObj (sort_key fst p))"
    by (auto simp: ordered_items_def intro!: arg_cong2 [of _ _ _ _ bind_result] map_result_cong)
  with t show thesis by (intro that) simp_all
qed

text \<open>
  C33: the cache key is canonical.  Two requests of one client to one URL with query parameters \<open>p\<close> and \<open>q\<close> hash
  the same text exactly when \<open>p\<close> and \<open>q\<close> are the same parameters in any order; so the order of the parameters
  never causes a second fetch, and only a collision of the truncated SHA-256 digests could mix up two different
  requests.
\<close>

theorem cache_key_canonical:
  assumes "query_params p" "query_params q"
  shows "(key_text hc url (Some p) = key_text hc url (Some q) \<longleftrightarrow> mset p = mset q)
    \<and> (mset p = mset q \<longrightarrow> cache_key hc url (Some p) = cache_key hc url (Some q))
    \<and> (\<exists>raw. key_text hc url (Some p) = Inr raw
         \<and> cache_key hc url (Some p) = Inr (''http:'' @ hc_provider hc @ '':'' @ take 32 (sha256_hex raw)))"
proof -
  obtain t where t: "dumps_sorted (JObj p) = Inr t" "loads t = Inr (JObj (sort_key fst p))"
    using assms(1) by (rule dumps_sorted_params)
  obtain u where u: "dumps_sorted (JObj q) = Inr u" "loads u = Inr (JObj (sort_key fst q))"
    using assms(2) by (rule dumps_sorted_params)
  have texts: "key_text hc url (Some p) = Inr (hc_provider hc @ '':'' @ url @ '':'' @ t)"
    "key_text hc url (Some q) = Inr (hc_provider hc @ '':'' @ url @ '':'' @ u)"
    using t(1) u(1) by (simp_all add: key_text_def del: dumps_with.simps)
  have same: "t = u \<longleftrightarrow> mset p = mset q"
  proof
    assume "t = u"
    then have "sort_key fst p = sort_key fst q" using t(2) u(2) by simp
    then show "mset p = mset q" by (metis mset_sort)
  next
    assume "mset p = mset q"
    then have "mset p = mset (sort_key fst q)" by simp
    moreover have "inj_on fst (set p)" using assms(1) by (simp add: query_params_def distinct_map)
    ultimately have "sort_key fst p = sort_key fst q" by (intro sort_key_inj_key_eq) simp_all
    then have "dumps_sorted (JObj p) = dumps_sorted (JObj q)" by (simp add: ordered_items_def)
    then show "t = u" using t(1) u(1) by simp
  qed
  then show ?thesis using texts by (auto simp: cache_key_def)
qed

theorem cache_key_canonical_witness:
  "cache_key script_client ''u'' (Some [(''b'', JStr ''x''), (''a'', JInt 1)])
   = cache_key script_client ''u'' (Some [(''a'', JInt 1), (''b'', JStr ''x'')])
   \<and> key_text script_client ''u'' (Some [(''a'', JInt 1)]) \<noteq> key_text script_client ''u'' (Some [(''a'', JStr ''1'')])"
proof -
  have "query_params [(''b'', JStr ''x''), (''a'', JInt 1)]" "query_params [(''a'', JInt 1), (''b'', JStr ''x'')]"
    "query_params [(''a'', JInt 1)]" "query_params [(''a'', JStr ''1'')]"
    using json_ok_one by (simp_all add: query_params_def)
  from cache_key_canonical [OF this(1,2), of script_client "''u''"] cache_key_canonical [OF this(3,4), of script_client "''u''"]
  show ?thesis by (simp add: add_mset_commute)
qed

text \<open>
  While the breaker is open and its recovery time has not passed, a request that the cache cannot
  answer raises \<open>ProviderUnavailableError\<close> at once: neither the network, nor the breaker, nor what
  the cache holds from now on changes.
\<close>

lemma get_json_circuit_open:
  assumes "cb_state (st_breaker st) = OPEN"
    and "fsub (env_loop_time env (st_world st)) (opened_at (st_breaker st)) < recovery_seconds (st_breaker st)"
    and "hc_cache hc = Some memory_cache_ops"
    and "cache_key hc url params = Inr key" "cache_view (st_cache st) (env_monotonic env (st_world st)) key = None"
  shows "\<exists>c. get_json env hc url params cache_ttl st = (Raised (unavailable (hc_provider hc)), st\<lparr>st_cache := c\<rparr>)
    \<and> (\<forall>t k. env_monotonic env (st_world st) \<le> t \<longrightarrow> cache_view c t k = cache_view (st_cache st) t k)"
proof (cases "active_cache hc cache_ttl")
  case None
  have "get_json env hc url params cache_ttl st
      = (Raised (unavailable (hc_provider hc)), st\<lparr>st_cache := st_cache st\<rparr>)"
    using fetch_rejected [OF assms(1,2)] by (simp add: get_json_def None)
  then show ?thesis by blast
next
  case (Some ot)
  obtain ttl where act: "active_cache hc cache_ttl = Some (memory_cache_ops, ttl)"
    using Some assms(3) by (auto simp: active_cache_def split: option.splits if_splits)
  let ?t = "env_monotonic env (st_world st)"
  obtain c where g: "cache_get ?t key (st_cache st) = (None, c)"
    using mem.get_value [of ?t key "st_cache st"] assms(5) by (metis prod.collapse)
  have "cache_view c t k = cache_view (st_cache st) t k" if "?t \<le> t" for t k
    using mem.view_get [OF that, of key "st_cache st" k] g by simp
  moreover have "fetch_through_breaker env hc url params (st\<lparr>st_cache := c\<rparr>)
      = (Raised (unavailable (hc_provider hc)), st\<lparr>st_cache := c\<rparr>)"
    using assms(1,2) by (intro fetch_rejected) simp_all
  ultimately show ?thesis using assms(4) by (auto simp: get_json_def act g memory_cache_ops_def)
qed

lemma get_json_circuit_open_example:
  "\<exists>c. get_json script_env script_client ''u'' None None
       ((script_state [200])\<lparr>st_breaker := (CircuitBreaker ''x'' 5 30)\<lparr>cb_state := OPEN\<rparr>\<rparr>)
     = (Raised (unavailable ''x''),
        (script_state [200])\<lparr>st_breaker := (CircuitBreaker ''x'' 5 30)\<lparr>cb_state := OPEN\<rparr>, st_cache := c\<rparr>)"
proof -
  have "fsub 0 0 = 0" by (simp add: fsub_def)
  then show ?thesis
    using get_json_circuit_open [of "(script_state [200])\<lparr>st_breaker := (CircuitBreaker ''x'' 5 30)\<lparr>cb_state := OPEN\<rparr>\<rparr>"
        script_env script_client "''u''" None _ None]
    by (auto simp: script_simps CircuitBreaker_def cache_view_def cache_key_def key_text_def ordered_items_def)
qed

text \<open>
  The retries are not limited to transient failures.  A status outside the retryable set, such as
  404, for which \<open>raise_for_status\<close> raises \<open>HTTPStatusError\<close>, is retried as often as a 503: a server
  that always answers 404 is asked \<open>max_retries + 1\<close> times.
\<close>

lemma permanent_status_is_retried:
  "get_with_retry script_env script_client ''u'' None (st_world (script_state [404, 404, 404, 200]))
   = (Raised (request_failed script_client),
      \<lparr>replies = [200], sent_count = 3, naps = [backoff_delay script_client 0, backoff_delay script_client 1]\<rparr>)
   \<and> 404 \<notin> set RETRYABLE_STATUS"
  by (simp add: get_with_retry_def script_simps upt_rec numeral_eq_Suc)

end
