(* ===== verification/Http_Providers.thy ===== *)
theory Http_Providers
  imports Http_Client Domain
begin

text \<open>
  The adapters of the two HTTP providers: \<^verbatim>\<open>app/providers/weather.py\<close> (Open-Meteo) and
  \<^verbatim>\<open>app/providers/currency.py\<close> (exchangerate.host), with the DTOs of
  \<^verbatim>\<open>app/domain/dto.py\<close> that they fill.  A payload is any JSON value.
\<close>

section \<open>Weather\<close>

record WeatherForecast =
  wf_latitude :: pyfloat
  wf_longitude :: pyfloat
  wf_date :: string
  temperature_c :: xfloat
  precipitation_probability :: int
  wind_kph :: xfloat
  humidity :: int

text \<open>The Pydantic constructor on fields of the right types.\<close>

definition validate_forecast :: "WeatherForecast \<Rightarrow> WeatherForecast result" where
  "validate_forecast w =
     (if \<not> (0 \<le> precipitation_probability w \<and> precipitation_probability w \<le> 100)
      then Inl (ValueError ''precipitation_probability'')
      else if \<not> xnonneg (wind_kph w) then Inl (ValueError ''wind_kph'')
      else if \<not> (0 \<le> humidity w \<and> humidity w \<le> 100) then Inl (ValueError ''humidity'')
      else Inr w)"

record 'c OpenMeteoWeatherProvider =
  wp_http :: "'c http_client"
  wp_base_url :: string
  wp_cache_ttl :: int

definition make_weather_provider :: "'c http_client \<Rightarrow> string \<Rightarrow> int \<Rightarrow> 'c OpenMeteoWeatherProvider" where
  "make_weather_provider http base_url cache_ttl =
     \<lparr>wp_http = http, wp_base_url = str_rstrip_char (CHR ''/'') base_url, wp_cache_ttl = cache_ttl\<rparr>"

definition clamp_percent :: "int \<Rightarrow> int" where
  "clamp_percent n = max 0 (min 100 n)"

text \<open>The list comprehension of \<open>_mean_humidity\<close> over the zipped time stamps and values.\<close>

fun day_readings :: "string \<Rightarrow> (json \<times> json) list \<Rightarrow> xfloat list result" where
  "day_readings iso_day [] = Inr []"
| "day_readings iso_day ((stamp, v) # rest) =
     (case stamp of
        JStr s \<Rightarrow>
          if str_startswith s iso_day \<and> v \<noteq> JNull
          then bind_result (py_float v) (\<lambda>x. bind_result (day_readings iso_day rest) (\<lambda>xs. Inr (x # xs)))
          else day_readings iso_day rest
      | _ \<Rightarrow> Inl (AttributeError ''startswith''))"

definition mean_humidity :: "json \<Rightarrow> string \<Rightarrow> int result" where
  "mean_humidity payload iso_day =
     bind_result (json_get payload ''hourly'') (\<lambda>h.
       let hourly = json_or h (JObj []) in
       bind_result (json_get hourly ''time'') (\<lambda>t.
       bind_result (json_get hourly ''relative_humidity_2m'') (\<lambda>v.
       bind_result (json_iter (json_or t (JList []))) (\<lambda>times.
       bind_result (json_iter (json_or v (JList []))) (\<lambda>values.
       bind_result (day_readings iso_day (zip times values)) (\<lambda>readings.
         if readings = [] then Inr 0
         else bind_result (fmean readings) (\<lambda>m. bind_result (xround_int m) (\<lambda>r. Inr (clamp_percent r)))))))))"

text \<open>The \<open>try\<close> block of \<open>_normalize\<close>, and the exceptions its \<open>except\<close> clause names.\<close>

definition daily_fields :: "json \<Rightarrow> (xfloat \<times> int \<times> xfloat) result" where
  "daily_fields payload =
     bind_result (json_item payload ''daily'') (\<lambda>daily.
     bind_result (json_item daily ''temperature_2m_max'') (\<lambda>ts.
     bind_result (json_first ts) (\<lambda>t.
     bind_result (py_float t) (\<lambda>temperature.
     bind_result (json_item daily ''precipitation_probability_max'') (\<lambda>ps.
     bind_result (json_first ps) (\<lambda>p.
     bind_result (py_int_of (json_or p (JInt 0))) (\<lambda>precipitation.
     bind_result (json_item daily ''wind_speed_10m_max'') (\<lambda>ws.
     bind_result (json_first ws) (\<lambda>w.
     bind_result (py_float w) (\<lambda>wind. Inr (temperature, precipitation, wind)))))))))))"

fun payload_error :: "exn \<Rightarrow> bool" where
  "payload_error (TypeError m) = True"
| "payload_error (ValueError m) = True"
| "payload_error (PyError c m) = (c = ''KeyError'' \<or> c = ''IndexError'')"
| "payload_error _ = False"

definition except_payload :: "string \<Rightarrow> 'a result \<Rightarrow> 'a result" where
  "except_payload provider r =
     (case r of
        Inl e \<Rightarrow> Inl (if payload_error e
                      then app_error ProviderUnavailableError (provider @ '' returned an unexpected payload'') else e)
      | Inr v \<Rightarrow> Inr v)"

definition normalize_weather :: "json \<Rightarrow> pyfloat \<Rightarrow> pyfloat \<Rightarrow> string \<Rightarrow> WeatherForecast result" where
  "normalize_weather payload latitude longitude iso_day =
     bind_result (except_payload ''open-meteo'' (daily_fields payload)) (\<lambda>(temperature, precipitation, wind).
     bind_result (mean_humidity payload iso_day) (\<lambda>hum.
       validate_forecast
         \<lparr>wf_latitude = latitude, wf_longitude = longitude, wf_date = iso_day,
          temperature_c = xround 1 temperature,
          precipitation_probability = clamp_percent precipitation,
          wind_kph = xround 1 wind, humidity = hum\<rparr>))"

definition outcome_of :: "'a result \<Rightarrow> 'a outcome" where
  "outcome_of r = (case r of Inl e \<Rightarrow> Raised e | Inr v \<Rightarrow> Returned v)"

text \<open>\<open>await get_json(...)\<close> followed by the adapter's own code.\<close>

definition fetch_then ::
  "(json \<Rightarrow> 'a result) \<Rightarrow> json outcome \<times> 'st \<Rightarrow> 'a outcome \<times> 'st" where
  "fetch_then f = (\<lambda>(r, st).
     ((case r of Returned payload \<Rightarrow> outcome_of (f payload) | Raised e \<Rightarrow> Raised e | Aborted \<Rightarrow> Aborted), st))"

definition forecast_params :: "pyfloat \<Rightarrow> pyfloat \<Rightarrow> string \<Rightarrow> (string, json) dict" where
  "forecast_params latitude longitude iso_day =
     [(''latitude'', JFloat (Finite latitude)), (''longitude'', JFloat (Finite longitude)),
      (''daily'', JStr ''temperature_2m_max,precipitation_probability_max,wind_speed_10m_max''),
      (''hourly'', JStr ''relative_humidity_2m''),
      (''start_date'', JStr iso_day), (''end_date'', JStr iso_day), (''timezone'', JStr ''UTC'')]"

definition forecast ::
  "'s http_env \<Rightarrow> 'c OpenMeteoWeatherProvider \<Rightarrow> pyfloat \<Rightarrow> pyfloat \<Rightarrow> date \<Rightarrow> ('c, 's) http_state
   \<Rightarrow> WeatherForecast outcome \<times> ('c, 's) http_state" where
  "forecast env p latitude longitude d st =
     (let iso_day = date_isoformat d in
      fetch_then (\<lambda>payload. normalize_weather payload latitude longitude iso_day)
        (get_json env (wp_http p) (wp_base_url p @ ''/forecast'')
           (Some (forecast_params latitude longitude iso_day)) (Some (wp_cache_ttl p)) st))"


section \<open>Currency\<close>

record CurrencyConversion =
  cc_base :: string
  cc_quote :: string
  rate :: xfloat
  amount :: xfloat
  converted :: xfloat
  as_of :: string

definition validate_conversion :: "CurrencyConversion \<Rightarrow> CurrencyConversion result" where
  "validate_conversion c = (if \<not> xpos (rate c) then Inl (ValueError ''rate'') else Inr c)"

record 'c ExchangeRateProvider =
  cp_http :: "'c http_client"
  cp_base_url :: string
  cp_cache_ttl :: int

definition make_currency_provider :: "'c http_client \<Rightarrow> string \<Rightarrow> int \<Rightarrow> 'c ExchangeRateProvider" where
  "make_currency_provider http base_url cache_ttl =
     \<lparr>cp_http = http, cp_base_url = str_rstrip_char (CHR ''/'') base_url, cp_cache_ttl = cache_ttl\<rparr>"

text \<open>\<open>str(payload.get("date", ""))\<close>\<close>

fun date_field :: "json \<Rightarrow> string result" where
  "date_field (JObj kvs) = (case dict_get kvs ''date'' of None \<Rightarrow> Inr [] | Some d \<Rightarrow> py_str d)"
| "date_field _ = Inl (AttributeError ''get'')"

definition conversion_fields :: "json \<Rightarrow> (xfloat \<times> xfloat \<times> string) result" where
  "conversion_fields payload =
     bind_result (json_item payload ''info'') (\<lambda>info.
     bind_result (json_item info ''rate'') (\<lambda>r.
     bind_result (py_float r) (\<lambda>rate.
     bind_result (json_item payload ''result'') (\<lambda>c.
     bind_result (py_float c) (\<lambda>converted.
     bind_result (date_field payload) (\<lambda>date. Inr (rate, converted, date)))))))"

definition normalize_currency ::
  "json \<Rightarrow> string \<Rightarrow> string \<Rightarrow> xfloat \<Rightarrow> CurrencyConversion result" where
  "normalize_currency payload base quote amt =
     bind_result (except_payload ''exchangerate.host'' (conversion_fields payload)) (\<lambda>(r, conv, date).
       validate_conversion
         \<lparr>cc_base = str_upper base, cc_quote = str_upper quote, rate = r, amount = amt,
          converted = xround 4 conv, as_of = date\<rparr>)"

definition convert ::
  "'s http_env \<Rightarrow> 'c ExchangeRateProvider \<Rightarrow> string \<Rightarrow> string \<Rightarrow> xfloat \<Rightarrow> ('c, 's) http_state
   \<Rightarrow> CurrencyConversion outcome \<times> ('c, 's) http_state" where
  "convert env p base quote amt st =
     fetch_then (\<lambda>payload. normalize_currency payload base quote amt)
       (get_json env (cp_http p) (cp_base_url p @ ''/convert'')
          (Some [(''from'', JStr (str_upper base)), (''to'', JStr (str_upper quote)), (''amount'', JFloat amt)])
          (Some (cp_cache_ttl p)) st)"


section \<open>Payloads of the documented shape\<close>

text \<open>
  The hourly block of Open-Meteo: time stamps and humidity readings of equal position, a reading
  being a whole number of percent or missing.
\<close>

definition humidity_json :: "int option \<Rightarrow> json" where
  "humidity_json r = (case r of None \<Rightarrow> JNull | Some n \<Rightarrow> JInt n)"

definition readings_of_day :: "string \<Rightarrow> (string \<times> int option) list \<Rightarrow> int list" where
  "readings_of_day iso_day rows =
     List.map_filter (\<lambda>(s, r). if str_startswith s iso_day then r else None) rows"

definition hourly_json :: "(string \<times> int option) list \<Rightarrow> json" where
  "hourly_json rows =
     JObj [(''time'', JList (map (\<lambda>(s, r). JStr s) rows)),
           (''relative_humidity_2m'', JList (map (\<lambda>(s, r). humidity_json r) rows))]"

lemma json_or_list: "json_iter (json_or (JList xs) (JList [])) = Inr xs"
  by (simp add: json_or_def)

lemma day_readings_rows:
  assumes "\<forall>(s, r) \<in> set rows. \<forall>n. r = Some n \<longrightarrow> 0 \<le> n \<and> n \<le> 100"
  shows "day_readings iso_day (map (\<lambda>(s, r). (JStr s, humidity_json r)) rows)
         = Inr (map (\<lambda>n. Finite (of_int n)) (readings_of_day iso_day rows))"
  using assms
proof (induction rows)
  case (Cons row rows)
  obtain s r where row: "row = (s, r)" by fastforce
  have "py_float (JInt n) = Inr (Finite (of_int n))" if "r = Some n" for n
    using Cons.prems row that by (intro py_float_small_int) auto
  then show ?case
    using Cons row by (cases r) (auto simp: humidity_json_def readings_of_day_def List.map_filter_def simp del: py_float.simps)
qed (simp add: readings_of_day_def List.map_filter_def)

lemma mean_humidity_rows:
  assumes "dict_get kvs ''hourly'' = Some (hourly_json rows)"
    and rows: "\<forall>(s, r) \<in> set rows. \<forall>n. r = Some n \<longrightarrow> 0 \<le> n \<and> n \<le> 100"
    and "length rows \<le> 10 ^ 9"
  shows "if readings_of_day iso_day rows = [] then mean_humidity (JObj kvs) iso_day = Inr 0
         else \<exists>h. mean_humidity (JObj kvs) iso_day = Inr h
           \<and> (\<forall>lo hi. 0 \<le> lo \<and> hi \<le> 100 \<and> (\<forall>n \<in> set (readings_of_day iso_day rows). lo \<le> n \<and> n \<le> hi) \<longrightarrow> lo \<le> h \<and> h \<le> hi)"
proof -
  let ?rs = "readings_of_day iso_day rows"
  let ?xs = "map (\<lambda>n. of_int n :: rat) ?rs"
  have zip: "zip (map (\<lambda>(s, r). JStr s) rows) (map (\<lambda>(s, r). humidity_json r) rows)
      = map (\<lambda>(s, r). (JStr s, humidity_json r)) rows"
    by (induction rows) auto
  have run: "mean_humidity (JObj kvs) iso_day = (if ?rs = [] then Inr 0
      else bind_result (fmean (map Finite ?xs)) (\<lambda>m. bind_result (xround_int m) (\<lambda>r. Inr (clamp_percent r))))"
    using assms(1) day_readings_rows [OF rows, of iso_day]
    by (simp add: mean_humidity_def hourly_json_def json_or_def [of "JObj _"] json_or_list zip comp_def)
  have len: "length ?rs \<le> length rows"
    by (auto simp: readings_of_day_def List.map_filter_def intro: length_filter_le)
  have bound: "\<bar>n\<bar> * int (length ?xs) \<le> 2 ^ 53" if "0 \<le> n" "n \<le> 100" for n
  proof -
    have "\<bar>n\<bar> * int (length ?xs) \<le> 100 * int (10 ^ 9)"
      using that len assms(3) by (intro mult_mono) auto
    then show ?thesis by simp
  qed
  have mean: "\<exists>m. fmean (map Finite ?xs) = Inr (Finite m) \<and> lo \<le> round_half_even m \<and> round_half_even m \<le> hi"
    if "?rs \<noteq> []" "0 \<le> lo" "hi \<le> 100" "\<forall>n \<in> set ?rs. lo \<le> n \<and> n \<le> hi" for lo hi
  proof -
    have "lo \<le> hi" using that by (cases ?rs) auto
    then show ?thesis using that by (intro rounded_mean_bounds bound) auto
  qed
  have all: "\<forall>n \<in> set ?rs. 0 \<le> n \<and> n \<le> 100"
    using rows by (fastforce simp: readings_of_day_def List.map_filter_def split: if_splits)
  show ?thesis
  proof (cases "?rs = []")
    case False
    obtain m where m: "fmean (map Finite ?xs) = Inr (Finite m)" "0 \<le> round_half_even m" "round_half_even m \<le> 100"
      using mean [OF False, of 0 100] all by auto
    have "mean_humidity (JObj kvs) iso_day = Inr (round_half_even m)"
      using run False m by (simp add: clamp_percent_def)
    moreover have "lo \<le> round_half_even m \<and> round_half_even m \<le> hi"
      if "0 \<le> lo" "hi \<le> 100" "\<forall>n \<in> set ?rs. lo \<le> n \<and> n \<le> hi" for lo hi
      using mean [OF False that] m(1) by auto
    ultimately show ?thesis using False by auto
  qed (simp add: run)
qed


section \<open>Properties\<close>

lemma py_round_nonneg: "0 \<le> x \<Longrightarrow> 0 \<le> py_round d x"
  using round_half_even_mono [of 0 "x * 10 ^ d"] by (simp add: py_round_def b64.rnd_nonneg)

lemma daily_fields_documented:
  assumes "dict_get kvs ''daily'' = Some (JObj d)"
    and "dict_get d ''temperature_2m_max'' = Some (JList (JFloat (Finite t) # ts))"
    and "dict_get d ''precipitation_probability_max'' = Some (JList (humidity_json p # ps))"
    and "dict_get d ''wind_speed_10m_max'' = Some (JList (JFloat (Finite w) # ws))"
  shows "daily_fields (JObj kvs) = Inr (Finite t, case p of None \<Rightarrow> 0 | Some n \<Rightarrow> n, Finite w)"
  using assms by (cases p) (simp_all add: daily_fields_def humidity_json_def json_or_def)

text \<open>
  C34: an Open-Meteo payload of the documented shape always becomes a forecast: the temperature and wind of
  the day rounded to one decimal, the precipitation probability (a missing one counts as zero) clipped to
  0..100, and a humidity that is zero when the day has no reading and otherwise lies between the
  least and the greatest reading of that day, float rounding included.  Readings of other days and missing
  readings do not count.
\<close>

theorem weather_documented_payload:
  assumes "dict_get kvs ''daily'' = Some (JObj d)"
    and "dict_get d ''temperature_2m_max'' = Some (JList (JFloat (Finite t) # ts))"
    and "dict_get d ''precipitation_probability_max'' = Some (JList (humidity_json p # ps))"
    and "dict_get d ''wind_speed_10m_max'' = Some (JList (JFloat (Finite w) # ws))" and "0 \<le> w"
    and "dict_get kvs ''hourly'' = Some (hourly_json rows)"
    and "\<forall>(s, r) \<in> set rows. \<forall>n. r = Some n \<longrightarrow> 0 \<le> n \<and> n \<le> 100" and "length rows \<le> 10 ^ 9"
  shows "\<exists>f. normalize_weather (JObj kvs) lat lon iso_day = Inr f
    \<and> wf_latitude f = lat \<and> wf_longitude f = lon \<and> wf_date f = iso_day
    \<and> temperature_c f = Finite (py_round 1 t) \<and> wind_kph f = Finite (py_round 1 w)
    \<and> precipitation_probability f = max 0 (min 100 (case p of None \<Rightarrow> 0 | Some n \<Rightarrow> n))
    \<and> (if readings_of_day iso_day rows = [] then humidity f = 0
       else \<forall>lo hi. 0 \<le> lo \<and> hi \<le> 100 \<and> (\<forall>n \<in> set (readings_of_day iso_day rows). lo \<le> n \<and> n \<le> hi)
         \<longrightarrow> lo \<le> humidity f \<and> humidity f \<le> hi)"
proof -
  note hum = mean_humidity_rows [OF assms(6-8), of iso_day]
  then obtain h where h: "mean_humidity (JObj kvs) iso_day = Inr h" by (auto split: if_splits)
  have "0 \<le> h \<and> h \<le> 100"
  proof (cases "readings_of_day iso_day rows = []")
    case False
    have "\<forall>n \<in> set (readings_of_day iso_day rows). 0 \<le> n \<and> n \<le> 100"
      using assms(7) by (fastforce simp: readings_of_day_def List.map_filter_def split: if_splits)
    then show ?thesis using hum h False by auto
  qed (use hum h in simp)
  then show ?thesis
    using hum h daily_fields_documented [OF assms(1-4)] py_round_nonneg [OF assms(5), of 1]
    by (auto simp: normalize_weather_def except_payload_def validate_forecast_def clamp_percent_def split: if_splits)
qed

definition sample_daily :: "(string, json) dict" where
  "sample_daily = [(''temperature_2m_max'', JList [JFloat (Finite (107 / 4))]),
     (''precipitation_probability_max'', JList [JNull]), (''wind_speed_10m_max'', JList [JFloat (Finite 12)])]"

definition sample_rows :: "(string \<times> int option) list" where
  "sample_rows = [(''2026-01-02T00:00'', Some 40), (''2026-01-02T01:00'', None), (''2026-01-02T02:00'', Some 60),
     (''2026-01-03T00:00'', Some 99)]"

theorem weather_documented_payload_witness:
  "\<exists>f. normalize_weather (JObj [(''daily'', JObj sample_daily), (''hourly'', hourly_json sample_rows)]) 0 0 ''2026-01-02'' = Inr f
    \<and> 40 \<le> humidity f \<and> humidity f \<le> 60 \<and> precipitation_probability f = 0"
proof -
  let ?kvs = "[(''daily'', JObj sample_daily), (''hourly'', hourly_json sample_rows)]"
  have rs: "readings_of_day ''2026-01-02'' sample_rows = [40, 60]" by code_simp
  have d: "dict_get ?kvs ''daily'' = Some (JObj sample_daily)"
    "dict_get sample_daily ''temperature_2m_max'' = Some (JList (JFloat (Finite (107 / 4)) # []))"
    "dict_get sample_daily ''precipitation_probability_max'' = Some (JList (humidity_json None # []))"
    "dict_get sample_daily ''wind_speed_10m_max'' = Some (JList (JFloat (Finite 12) # []))"
    "dict_get ?kvs ''hourly'' = Some (hourly_json sample_rows)"
    by (simp_all add: sample_daily_def humidity_json_def)
  have "(0 :: pyfloat) \<le> 12" "\<forall>(s, r) \<in> set sample_rows. \<forall>n. r = Some n \<longrightarrow> 0 \<le> n \<and> n \<le> 100" "length sample_rows \<le> 10 ^ 9"
    by (simp_all add: sample_rows_def)
  from weather_documented_payload [OF d(1-4) this(1) d(5) this(2,3), of 0 0 "''2026-01-02''"] show ?thesis
    by (elim exE) (simp add: rs, elim conjE, drule spec [of _ 40], drule spec [of _ 60], simp)
qed

text \<open>
  How a payload of another shape is answered.  A missing or malformed daily block is reported as
  \<open>ProviderUnavailableError\<close>, the documented 503.  The hourly block is read outside the \<open>try\<close>: when it is a
  non-empty list instead of an object, the \<open>AttributeError\<close> escapes the adapter and the client is answered
  with an internal error 500; so does the validation error of a negative wind speed.
\<close>

lemma weather_malformed_payload:
  "((\<forall>d. dict_get kvs ''daily'' \<noteq> Some (JObj d)) \<longrightarrow>
      normalize_weather (JObj kvs) lat lon iso_day
        = Inl (app_error ProviderUnavailableError ''open-meteo returned an unexpected payload''))
   \<and> (daily_fields (JObj kvs) = Inr vals \<and> dict_get kvs ''hourly'' = Some (JList (x # xs)) \<longrightarrow>
        normalize_weather (JObj kvs) lat lon iso_day = Inl (AttributeError ''get''))
   \<and> (daily_fields (JObj kvs) = Inr (t, p, Finite (- 1)) \<and> dict_get kvs ''hourly'' = None \<longrightarrow>
        normalize_weather (JObj kvs) lat lon iso_day = Inl (ValueError ''wind_kph''))
   \<and> problem_status (handle_exception trace (app_error ProviderUnavailableError m)) = 503
   \<and> problem_status (handle_exception trace (AttributeError ''get'')) = 500
   \<and> problem_status (handle_exception trace (ValueError ''wind_kph'')) = 500"
proof (intro conjI impI)
  assume *: "\<forall>d. dict_get kvs ''daily'' \<noteq> Some (JObj d)"
  have "\<exists>e. daily_fields (JObj kvs) = Inl e \<and> payload_error e"
  proof (cases "dict_get kvs ''daily''")
    case (Some v)
    with * show ?thesis by (cases v) (auto simp: daily_fields_def)
  qed (simp add: daily_fields_def KeyError_def)
  then show "normalize_weather (JObj kvs) lat lon iso_day
      = Inl (app_error ProviderUnavailableError ''open-meteo returned an unexpected payload'')"
    by (auto simp: normalize_weather_def except_payload_def)
next
  assume "daily_fields (JObj kvs) = Inr vals \<and> dict_get kvs ''hourly'' = Some (JList (x # xs))"
  then show "normalize_weather (JObj kvs) lat lon iso_day = Inl (AttributeError ''get'')"
    by (cases vals) (simp add: normalize_weather_def except_payload_def mean_humidity_def json_or_def)
next
  assume "daily_fields (JObj kvs) = Inr (t, p, Finite (- 1)) \<and> dict_get kvs ''hourly'' = None"
  moreover have "py_round 1 (- 1) = - 1"
    using round_half_even_of_int [of "- 10"] fl_of_int [of "- 1"] by (simp add: py_round_def)
  ultimately show "normalize_weather (JObj kvs) lat lon iso_day = Inl (ValueError ''wind_kph'')"
    by (simp add: normalize_weather_def except_payload_def mean_humidity_def json_or_def validate_forecast_def clamp_percent_def)
qed (simp_all add: handle_exception_def problem_def AttributeError_def)

lemma weather_malformed_payload_example:
  "normalize_weather (JObj [(''daily'', JObj sample_daily), (''hourly'', JList [JNull])]) 0 0 ''2026-01-02''
   = Inl (AttributeError ''get'')"
proof -
  let ?kvs = "[(''daily'', JObj sample_daily), (''hourly'', JList [JNull])]"
  have "daily_fields (JObj ?kvs) = Inr (Finite (107 / 4), 0, Finite 12)"
    by (simp add: daily_fields_documented [of _ sample_daily "107 / 4" "[]" None "[]" 12 "[]"] sample_daily_def humidity_json_def)
  then show ?thesis
    using weather_malformed_payload [where kvs = ?kvs and x = JNull and xs = "[]" and lat = 0 and lon = 0
        and iso_day = "''2026-01-02''"] by simp
qed

text \<open>
  A currency conversion.  A payload with a positive finite rate and a finite result is converted with the
  result rounded to four decimals, the codes in upper case and the provider's date as text; a payload without
  \<open>info\<close> is reported as \<open>ProviderUnavailableError\<close>; a rate that is not positive passes the \<open>try\<close> block and
  fails the validation of the DTO, so the client is answered with an internal error 500.
\<close>

lemma currency_conversion_outcome:
  "(dict_get kvs ''info'' = None \<longrightarrow>
        normalize_currency (JObj kvs) base quote amt
          = Inl (app_error ProviderUnavailableError ''exchangerate.host returned an unexpected payload''))
   \<and> (dict_get kvs ''info'' = Some (JObj info) \<and> dict_get info ''rate'' = Some (JFloat (Finite r))
          \<and> dict_get kvs ''result'' = Some (JFloat (Finite c)) \<and> date_field (JObj kvs) = Inr date \<longrightarrow>
        normalize_currency (JObj kvs) base quote amt
          = (if 0 < r
             then Inr \<lparr>cc_base = str_upper base, cc_quote = str_upper quote, rate = Finite r, amount = amt,
                       converted = Finite (py_round 4 c), as_of = date\<rparr>
             else Inl (ValueError ''rate'')))
   \<and> problem_status (handle_exception trace (ValueError ''rate'')) = 500"
  by (auto simp: normalize_currency_def except_payload_def conversion_fields_def KeyError_def validate_conversion_def
      handle_exception_def problem_def simp del: date_field.simps)

lemma currency_conversion_outcome_example:
  "normalize_currency (JObj [(''info'', JObj [(''rate'', JFloat (Finite 0))]), (''result'', JFloat (Finite 0))])
     ''usd'' ''eur'' (Finite 1) = Inl (ValueError ''rate'')"
  using currency_conversion_outcome [where kvs = "[(''info'', JObj [(''rate'', JFloat (Finite 0))]), (''result'', JFloat (Finite 0))]"
      and info = "[(''rate'', JFloat (Finite 0))]" and r = 0 and c = 0 and date = "[]"]
  by simp

end
