(* ===== verification/Settings_Model.thy ===== *)
theory Settings_Model
  imports App_Errors
begin

text \<open>
  \<^verbatim>\<open>app/core/config.py\<close>: the settings record, the reader of list-valued variables and the
  validators.  Reading the environment is left to pydantic; \<open>load_settings\<close> starts from the typed
  values of the other fields.
\<close>

datatype Environment = Development | Test | Staging | Production

record Settings =
  app_name :: string
  environment :: Environment
  debug :: bool
  api_prefix :: string
  secret_key :: string
  jwt_algorithm :: string
  access_token_ttl :: int
  refresh_token_ttl :: int
  verify_token_ttl :: int
  reset_token_ttl :: int
  cors_origins :: "string list"
  cors_allow_credentials :: bool
  database_url :: string
  redis_url :: "string option"
  smtp_host :: "string option"
  smtp_port :: int
  smtp_username :: string
  smtp_password :: string
  smtp_sender :: string
  rate_limit_per_minute :: int
  trusted_proxy_cidrs :: "string list"
  weather_base_url :: string
  currency_base_url :: string
  http_timeout_seconds :: pyfloat
  http_max_retries :: int
  provider_cache_ttl :: int

definition INSECURE_DEFAULT_SECRET :: string where
  "INSECURE_DEFAULT_SECRET = ''change-me-in-production-please-32-chars-min''"

definition default_settings :: Settings where
  "default_settings =
     \<lparr>app_name = ''Smart Travel Aggregator'', environment = Development, debug = False,
      api_prefix = ''/api/v1'', secret_key = INSECURE_DEFAULT_SECRET, jwt_algorithm = ''HS256'',
      access_token_ttl = 900, refresh_token_ttl = 60 * 60 * 24 * 14, verify_token_ttl = 60 * 60 * 24,
      reset_token_ttl = 60 * 60, cors_origins = [''http://localhost:3000''], cors_allow_credentials = False,
      database_url = ''sqlite+aiosqlite:///./smart_travel.db'', redis_url = None, smtp_host = None,
      smtp_port = 587, smtp_username = '''', smtp_password = '''', smtp_sender = '''',
      rate_limit_per_minute = 120, trusted_proxy_cidrs = [],
      weather_base_url = ''https://api.open-meteo.com/v1'',
      currency_base_url = ''https://api.exchangerate.host'', http_timeout_seconds = 5,
      http_max_retries = 2, provider_cache_ttl = 300\<rparr>"

text \<open>
  The raw value of a list-valued setting: the text of an environment variable, or a list passed to
  the constructor.  A text that starts with a bracket is read by \<open>json.loads\<close>, the parameter \<open>loads\<close>;
  the field's type \<open>list[str]\<close> then admits a list of strings only.
\<close>

datatype raw_list = RawText string | RawList "string list"

definition list_of_str :: "json \<Rightarrow> string list result" where
  "list_of_str v =
     (case v of
        JList xs \<Rightarrow>
          if list_all (\<lambda>x. case x of JStr s \<Rightarrow> True | _ \<Rightarrow> False) xs
          then Inr (map (\<lambda>x. case x of JStr s \<Rightarrow> s | _ \<Rightarrow> []) xs)
          else Inl (ValueError ''Input should be a valid string'')
      | _ \<Rightarrow> Inl (ValueError ''Input should be a valid list''))"

definition split_list :: "(string \<Rightarrow> json result) \<Rightarrow> raw_list \<Rightarrow> string list result" where
  "split_list loads value =
     (case value of
        RawText t \<Rightarrow>
          let text = str_strip t in
          if str_startswith text ''['' then bind_result (loads text) list_of_str
          else Inr (filter (\<lambda>i. i \<noteq> []) (map str_strip (str_split (CHR '','') text)))
      | RawList xs \<Rightarrow> Inr xs)"

definition refuse_default_secret_in_production :: "Settings \<Rightarrow> Settings result" where
  "refuse_default_secret_in_production s =
     (if environment s \<in> {Staging, Production} \<and> secret_key s = INSECURE_DEFAULT_SECRET
      then Inl (ValueError ''SECRET_KEY must be set to a unique value in staging/production; the shipped default is not allowed.'')
      else Inr s)"

definition refuse_wildcard_cors_with_credentials :: "Settings \<Rightarrow> Settings result" where
  "refuse_wildcard_cors_with_credentials s =
     (if cors_allow_credentials s \<and> ''*'' \<in> set (cors_origins s)
      then Inl (ValueError ''CORS_ORIGINS must list explicit origins when CORS_ALLOW_CREDENTIALS is on'')
      else Inr s)"

text \<open>The field constraints, then the two model validators in the order of their declaration.\<close>

definition load_settings ::
  "(string \<Rightarrow> json result) \<Rightarrow> raw_list \<Rightarrow> raw_list \<Rightarrow> Settings \<Rightarrow> Settings result" where
  "load_settings loads raw_origins raw_cidrs base =
     bind_result (split_list loads raw_origins) (\<lambda>origins.
     bind_result (split_list loads raw_cidrs) (\<lambda>cidrs.
       if length (secret_key base) < 32
       then Inl (ValueError ''String should have at least 32 characters'')
       else bind_result
              (refuse_default_secret_in_production (base\<lparr>cors_origins := origins, trusted_proxy_cidrs := cidrs\<rparr>))
              refuse_wildcard_cors_with_credentials))"

definition is_production :: "Settings \<Rightarrow> bool" where
  "is_production s \<longleftrightarrow> environment s = Production"

definition sqlalchemy_url :: "Settings \<Rightarrow> string" where
  "sqlalchemy_url s = database_url s"

text \<open>
  No process starts with unsafe settings.  Settings that load have a secret of at least 32
  characters, which in staging and production is not the shipped default, and never allow
  credentials together with the wildcard origin; in particular a text of the form
  \<open>..., *, ...\<close> in the origin list is refused when credentials are on.
\<close>

lemma load_settings_safe:
  assumes "load_settings loads raw_origins raw_cidrs base = Inr s"
  shows "32 \<le> length (secret_key s)
    \<and> (environment s \<in> {Staging, Production} \<longrightarrow> secret_key s \<noteq> INSECURE_DEFAULT_SECRET)
    \<and> \<not> (cors_allow_credentials s \<and> ''*'' \<in> set (cors_origins s))
    \<and> (\<forall>t. raw_origins = RawText t \<and> \<not> str_startswith (str_strip t) ''[''
           \<and> ''*'' \<in> str_strip ` set (str_split (CHR '','') (str_strip t)) \<longrightarrow> \<not> cors_allow_credentials base)"
proof -
  obtain origins cidrs where o: "split_list loads raw_origins = Inr origins"
    and b: "s = base\<lparr>cors_origins := origins, trusted_proxy_cidrs := cidrs\<rparr>"
      "32 \<le> length (secret_key base)" "\<not> (cors_allow_credentials base \<and> ''*'' \<in> set origins)"
      "environment base \<in> {Staging, Production} \<longrightarrow> secret_key base \<noteq> INSECURE_DEFAULT_SECRET"
    using assms
    by (auto simp: load_settings_def bind_result_Inr_iff refuse_default_secret_in_production_def
        refuse_wildcard_cors_with_credentials_def split: if_splits)
  have "''*'' \<in> set origins"
    if "raw_origins = RawText t" "\<not> str_startswith (str_strip t) ''[''"
      "''*'' \<in> str_strip ` set (str_split (CHR '','') (str_strip t))" for t
    using o that by (auto simp: split_list_def)
  with b show ?thesis by auto
qed

lemma load_settings_safe_example:
  "\<exists>s. load_settings (\<lambda>t. Inl (ValueError t)) (RawText ''https://a.com, https://b.com'') (RawList [])
         (default_settings\<lparr>cors_allow_credentials := True\<rparr>) = Inr s
     \<and> \<not> (cors_allow_credentials s \<and> ''*'' \<in> set (cors_origins s))"
proof -
  have "split_list (\<lambda>t. Inl (ValueError t)) (RawText ''https://a.com, https://b.com'')
      = Inr [''https://a.com'', ''https://b.com'']"
    by code_simp
  then have l: "load_settings (\<lambda>t. Inl (ValueError t)) (RawText ''https://a.com, https://b.com'') (RawList [])
         (default_settings\<lparr>cors_allow_credentials := True\<rparr>)
    = Inr (default_settings\<lparr>cors_origins := [''https://a.com'', ''https://b.com''], cors_allow_credentials := True,
             trusted_proxy_cidrs := []\<rparr>)"
    by (simp add: load_settings_def split_list_def [of _ "RawList []"] default_settings_def
        INSECURE_DEFAULT_SECRET_def refuse_default_secret_in_production_def
        refuse_wildcard_cors_with_credentials_def)
  with load_settings_safe [OF l] show ?thesis by blast
qed

end
