(* ===== verification/Ip_Address.thy ===== *)
theory Ip_Address
  imports Py_Text
begin

text \<open>
  The part of Python's \<^verbatim>\<open>ipaddress\<close> module that the proxy resolution uses: reading IPv4
  and IPv6 addresses and networks from ASCII text, and membership of an address in a network.
  Addresses are natural numbers below \<open>2^32\<close> and \<open>2^128\<close>.
\<close>

unbundle bit_operations_syntax

section \<open>Addresses\<close>

text \<open>\<open>_parse_octet\<close>: one to three digits, no leading zero, at most 255.\<close>

definition parse_octet :: "string \<Rightarrow> nat option" where
  "parse_octet s =
     (if str_isdigit s \<and> length s \<le> 3 \<and> (s = ''0'' \<or> hd s \<noteq> CHR ''0'') \<and> digits_value s \<le> 255
      then Some (digits_value s) else None)"

definition parse_ipv4 :: "string \<Rightarrow> nat option" where
  "parse_ipv4 s =
     (case map parse_octet (str_split (CHR ''.'') s) of
        [Some a, Some b, Some c, Some d] \<Rightarrow> Some (((a * 256 + b) * 256 + c) * 256 + d)
      | _ \<Rightarrow> None)"

definition parse_hextet :: "string \<Rightarrow> nat option" where
  "parse_hextet s =
     (if s \<noteq> [] \<and> list_all is_hex_digit s \<and> length s \<le> 4
      then Some (foldl (\<lambda>v c. 16 * v + hex_val c) 0 s) else None)"

fun hex_str :: "nat \<Rightarrow> string" where
  "hex_str n = (if n < 16 then [hex_digit n] else hex_str (n div 16) @ [hex_digit (n mod 16)])"

declare hex_str.simps [simp del]

text \<open>An IPv4-style suffix becomes two hextets.\<close>

definition expand_ipv4_suffix :: "string list \<Rightarrow> string list option" where
  "expand_ipv4_suffix parts =
     (if CHR ''.'' \<in> set (last parts)
      then (case parse_ipv4 (last parts) of
              None \<Rightarrow> None
            | Some v \<Rightarrow> Some (butlast parts @ [hex_str (v div 65536), hex_str (v mod 65536)]))
      else Some parts)"

definition hextets_value :: "string list \<Rightarrow> nat option" where
  "hextets_value parts =
     foldl (\<lambda>acc s. case (acc, parse_hextet s) of (Some v, Some h) \<Rightarrow> Some (v * 65536 + h) | _ \<Rightarrow> None)
       (Some 0) parts"

text \<open>The positions strictly inside the list whose part is empty, i.e. the places of \<open>::\<close>.\<close>

definition skip_indices :: "string list \<Rightarrow> nat list" where
  "skip_indices parts = filter (\<lambda>i. parts ! i = []) [1..<length parts - 1]"

definition parse_ipv6_parts :: "string list \<Rightarrow> nat option" where
  "parse_ipv6_parts parts =
     (if 9 < length parts then None
      else case skip_indices parts of
        [] \<Rightarrow> if length parts = 8 \<and> hd parts \<noteq> [] \<and> last parts \<noteq> [] then hextets_value parts else None
      | [skip] \<Rightarrow>
          let hi = (if hd parts = [] then skip - 1 else skip);
              lo = (if last parts = [] then length parts - skip - 2 else length parts - skip - 1)
          in if (hd parts = [] \<and> hi \<noteq> 0) \<or> (last parts = [] \<and> lo \<noteq> 0) \<or> 8 < hi + lo + 1 then None
             else (case (hextets_value (take hi parts), hextets_value (drop (length parts - lo) parts)) of
                     (Some h, Some l) \<Rightarrow> Some (h * 65536 ^ (8 - hi) + l)
                   | _ \<Rightarrow> None)
      | _ \<Rightarrow> None)"

definition parse_ipv6_int :: "string \<Rightarrow> nat option" where
  "parse_ipv6_int s =
     (let parts = str_split (CHR '':'') s
      in if length parts < 3 then None
         else case expand_ipv4_suffix parts of None \<Rightarrow> None | Some ps \<Rightarrow> parse_ipv6_parts ps)"

text \<open>A scope id follows the first \<open>%\<close>; it is not empty and contains no other one.\<close>

definition parse_ipv6 :: "string \<Rightarrow> nat option" where
  "parse_ipv6 s =
     (case str_split (CHR ''%'') s of
        [addr] \<Rightarrow> parse_ipv6_int addr
      | [addr, scope] \<Rightarrow> if scope = [] then None else parse_ipv6_int addr
      | _ \<Rightarrow> None)"

datatype ip_addr = IPv4Address nat | IPv6Address nat

definition ip_address :: "string \<Rightarrow> ip_addr option" where
  "ip_address s =
     (if CHR ''/'' \<in> set s then None
      else case parse_ipv4 s of
        Some v \<Rightarrow> Some (IPv4Address v)
      | None \<Rightarrow> map_option IPv6Address (parse_ipv6 s))"


section \<open>Networks\<close>

text \<open>The network address and the prefix length.\<close>

datatype ip_net = IPv4Network nat nat | IPv6Network nat nat

text \<open>\<open>_ALL_ONES ^ (_ALL_ONES >> prefixlen)\<close> for addresses of \<open>w\<close> bits\<close>

definition netmask :: "nat \<Rightarrow> nat \<Rightarrow> nat" where
  "netmask w prefixlen = mask w XOR drop_bit prefixlen (mask w)"

definition parse_prefix :: "nat \<Rightarrow> string \<Rightarrow> nat option" where
  "parse_prefix w s =
     (if str_isdigit s \<and> length s \<le> max_str_digits \<and> digits_value s \<le> w then Some (digits_value s) else None)"

text \<open>The prefix length of a dotted netmask, or of a hostmask.\<close>

definition prefix_of_mask :: "nat \<Rightarrow> nat option" where
  "prefix_of_mask m = List.find (\<lambda>p. netmask 32 p = m) [0..<33]"

definition parse_mask_v4 :: "string \<Rightarrow> nat option" where
  "parse_mask_v4 s =
     (case parse_prefix 32 s of
        Some p \<Rightarrow> Some p
      | None \<Rightarrow>
          (case parse_ipv4 s of
             None \<Rightarrow> None
           | Some m \<Rightarrow>
               (case prefix_of_mask m of
                  Some p \<Rightarrow> Some p
                | None \<Rightarrow> prefix_of_mask (m XOR mask 32))))"

text \<open>\<open>ip_network(s, strict=False)\<close>: host bits are cleared.\<close>

definition ip_network :: "string \<Rightarrow> ip_net option" where
  "ip_network s =
     (case str_split (CHR ''/'') s of
        [addr] \<Rightarrow>
          (case parse_ipv4 addr of
             Some v \<Rightarrow> Some (IPv4Network v 32)
           | None \<Rightarrow> map_option (\<lambda>v. IPv6Network v 128) (parse_ipv6 addr))
      | [addr, m] \<Rightarrow>
          (case (parse_ipv4 addr, parse_mask_v4 m) of
             (Some v, Some p) \<Rightarrow> Some (IPv4Network (v AND netmask 32 p) p)
           | _ \<Rightarrow>
               (case (parse_ipv6 addr, parse_prefix 128 m) of
                  (Some v, Some p) \<Rightarrow> Some (IPv6Network (v AND netmask 128 p) p)
                | _ \<Rightarrow> None))
      | _ \<Rightarrow> None)"

fun in_network :: "ip_addr \<Rightarrow> ip_net \<Rightarrow> bool" where
  "in_network (IPv4Address a) (IPv4Network n p) = (a AND netmask 32 p = n)"
| "in_network (IPv6Address a) (IPv6Network n p) = (a AND netmask 128 p = n)"
| "in_network _ _ = False"


section \<open>Masks and prefixes\<close>

lemma bit_netmask: "p \<le> w \<Longrightarrow> bit (netmask w p) n \<longleftrightarrow> w - p \<le> n \<and> n < w"
  by (auto simp: netmask_def bit_simps)

lemma and_netmask:
  assumes "p \<le> w" "a < 2 ^ w"
  shows "a AND netmask w p = push_bit (w - p) (drop_bit (w - p) a)"
proof (rule bit_eqI)
  fix n
  have "bit a n \<Longrightarrow> n < w"
    using assms(2) by (metis bit_take_bit_iff take_bit_nat_eq_self)
  then show "bit (a AND netmask w p) n \<longleftrightarrow> bit (push_bit (w - p) (drop_bit (w - p) a)) n"
    using assms(1) by (auto simp: bit_simps bit_netmask)
qed

lemma same_prefix_iff:
  assumes "p \<le> w" "a < 2 ^ w" "b < 2 ^ w"
  shows "a AND netmask w p = b AND netmask w p \<longleftrightarrow> a div 2 ^ (w - p) = b div 2 ^ (w - p)"
  using assms by (simp add: and_netmask push_bit_eq_mult drop_bit_eq_div)


section \<open>Dotted notation\<close>

definition dotted :: "nat \<Rightarrow> nat \<Rightarrow> nat \<Rightarrow> nat \<Rightarrow> string" where
  "dotted a b c d = nat_str a @ ''.'' @ nat_str b @ ''.'' @ nat_str c @ ''.'' @ nat_str d"

lemma parse_octet_nat_str: "n \<le> 255 \<Longrightarrow> parse_octet (nat_str n) = Some n"
proof -
  assume "n \<le> 255"
  moreover have "nat_str 0 = ''0''" by code_simp
  moreover have "length (nat_str n) \<le> 3" using \<open>n \<le> 255\<close> by (intro length_nat_str) simp_all
  ultimately show ?thesis
    using nat_str_digits [of n] hd_nat_str [of n] digits_value_nat_str [of 0]
    by (cases "n = 0") (auto simp: parse_octet_def str_isdigit_def digits_value_nat_str)
qed

lemma digits_no_char: "list_all is_digit s \<Longrightarrow> \<not> is_digit c \<Longrightarrow> c \<notin> set s"
  by (auto simp: list_all_iff)

lemma split_dotted: "str_split (CHR ''.'') (dotted a b c d) = [nat_str a, nat_str b, nat_str c, nat_str d]"
proof -
  have "CHR ''.'' \<notin> set (nat_str n)" for n
    using nat_str_digits by (rule digits_no_char) (simp add: is_digit_def)
  then show ?thesis by (simp add: dotted_def str_split_append str_split_single)
qed

lemma parse_ipv4_dotted:
  assumes "a \<le> 255" "b \<le> 255" "c \<le> 255" "d \<le> 255"
  shows "parse_ipv4 (dotted a b c d) = Some (((a * 256 + b) * 256 + c) * 256 + d)"
  using assms by (simp add: parse_ipv4_def split_dotted parse_octet_nat_str)

lemma parse_octet_bound: "parse_octet s = Some v \<Longrightarrow> v \<le> 255"
  by (auto simp: parse_octet_def split: if_splits)

lemma parse_ipv4_bound: "parse_ipv4 s = Some v \<Longrightarrow> v < 2 ^ 32"
  by (auto simp: parse_ipv4_def dest!: parse_octet_bound split: list.splits option.splits)

lemma ip_address_dotted:
  assumes "a \<le> 255" "b \<le> 255" "c \<le> 255" "d \<le> 255"
  shows "ip_address (dotted a b c d) = Some (IPv4Address (((a * 256 + b) * 256 + c) * 256 + d))"
proof -
  have "CHR ''/'' \<notin> set (nat_str n)" for n
    using nat_str_digits by (rule digits_no_char) (simp add: is_digit_def)
  then have "CHR ''/'' \<notin> set (dotted a b c d)" by (simp add: dotted_def)
  then show ?thesis using assms by (simp add: ip_address_def parse_ipv4_dotted)
qed

lemma ip_network_dotted:
  assumes "a \<le> 255" "b \<le> 255" "c \<le> 255" "d \<le> 255" "p \<le> 32"
  shows "ip_network (dotted a b c d @ ''/'' @ nat_str p)
         = Some (IPv4Network ((((a * 256 + b) * 256 + c) * 256 + d) AND netmask 32 p) p)"
proof -
  have slash: "CHR ''/'' \<notin> set (nat_str n)" for n
    using nat_str_digits by (rule digits_no_char) (simp add: is_digit_def)
  then have "CHR ''/'' \<notin> set (dotted a b c d)" by (simp add: dotted_def)
  with slash have split: "str_split (CHR ''/'') (dotted a b c d @ ''/'' @ nat_str p) = [dotted a b c d, nat_str p]"
    by (simp add: str_split_append str_split_single)
  have "length (nat_str p) \<le> 2" using assms(5) by (intro length_nat_str) simp_all
  then have "parse_prefix 32 (nat_str p) = Some p"
    using assms(5) nat_str_digits [of p]
    by (simp add: parse_prefix_def str_isdigit_def digits_value_nat_str max_str_digits_def)
  then show ?thesis
    using assms unfolding ip_network_def split by (simp add: parse_ipv4_dotted parse_mask_v4_def)
qed

end
