(* ===== verification/Py_Uuid.thy ===== *)
theory Py_Uuid
  imports Ip_Address "HOL-Library.Word"
begin

text \<open>
  The part of Python's \<^verbatim>\<open>uuid\<close> module that the application uses.  A UUID is a 128-bit
  word; \<open>str\<close> prints it as five groups of lower-case hexadecimal digits, and \<open>UUID(s)\<close> reads any of
  the forms that the constructor accepts.
\<close>

type_synonym uuid = "128 word"

section \<open>The printer\<close>

definition uuid_hex :: "uuid \<Rightarrow> string" where
  "uuid_hex u = hex_digits 32 (unat u)"

definition uuid_str :: "uuid \<Rightarrow> string" where
  "uuid_str u =
     (let h = uuid_hex u
      in take 8 h @ ''-'' @ take 4 (drop 8 h) @ ''-'' @ take 4 (drop 12 h) @ ''-''
         @ take 4 (drop 16 h) @ ''-'' @ drop 20 h)"

text \<open>\<open>s.replace(p, "")\<close> for a nonempty \<open>p\<close>: occurrences are removed from left to right.\<close>

fun remove_all :: "string \<Rightarrow> string \<Rightarrow> string" where
  "remove_all p [] = []"
| "remove_all p (c # cs) =
     (if p \<noteq> [] \<and> take (length p) (c # cs) = p then remove_all p (drop (length p) (c # cs))
      else c # remove_all p cs)"

definition strip_braces :: "string \<Rightarrow> string" where
  "strip_braces s =
     (let brace = (\<lambda>c. c = CHR ''{'' \<or> c = CHR ''}'')
      in rev (dropWhile brace (rev (dropWhile brace s))))"

text \<open>
  \<open>int(s, 16)\<close> on ASCII text: white space around, a sign, the prefix \<open>0x\<close> with an optional
  underscore after it, and single underscores between digits.
\<close>

fun scan_hex :: "nat \<Rightarrow> string \<Rightarrow> (nat \<times> string) option" where
  "scan_hex v [] = Some (v, [])"
| "scan_hex v (c # cs) =
     (if is_hex_digit c then scan_hex (16 * v + hex_val c) cs
      else if c = CHR ''_'' then
        (case cs of
           d # ds \<Rightarrow> if is_hex_digit d then scan_hex (16 * v + hex_val d) ds else None
         | [] \<Rightarrow> None)
      else Some (v, c # cs))"

definition scan_hex_nat :: "string \<Rightarrow> nat option" where
  "scan_hex_nat s =
     (case s of
        c # cs \<Rightarrow>
          if is_hex_digit c then
            (case scan_hex (hex_val c) cs of
               Some (v, rest) \<Rightarrow> if list_all is_cspace rest then Some v else None
             | None \<Rightarrow> None)
          else None
      | [] \<Rightarrow> None)"

definition drop_0x :: "string \<Rightarrow> string" where
  "drop_0x s =
     (case s of
        z # x # rest \<Rightarrow>
          if z = CHR ''0'' \<and> (x = CHR ''x'' \<or> x = CHR ''X'')
          then (case rest of u # rest' \<Rightarrow> if u = CHR ''_'' then rest' else rest | [] \<Rightarrow> rest)
          else s
      | _ \<Rightarrow> s)"

definition py_int16 :: "string \<Rightarrow> int option" where
  "py_int16 s =
     (case dropWhile is_cspace s of
        [] \<Rightarrow> None
      | c # cs \<Rightarrow>
          if c = CHR ''-'' then map_option (\<lambda>n. - int n) (scan_hex_nat (drop_0x cs))
          else if c = CHR ''+'' then map_option int (scan_hex_nat (drop_0x cs))
          else map_option int (scan_hex_nat (drop_0x (c # cs))))"

text \<open>\<open>UUID(s)\<close>, \<open>None\<close> for the \<open>ValueError\<close>\<close>

definition uuid_parse :: "string \<Rightarrow> uuid option" where
  "uuid_parse s =
     (let hex = filter (\<lambda>c. c \<noteq> CHR ''-'') (strip_braces (remove_all ''uuid:'' (remove_all ''urn:'' s)))
      in if length hex \<noteq> 32 then None
         else case py_int16 hex of
           None \<Rightarrow> None
         | Some i \<Rightarrow> if 0 \<le> i \<and> i < 2 ^ 128 then Some (word_of_int i) else None)"


section \<open>Printing and reading\<close>

lemma scan_hex_digits:
  "list_all is_hex_digit s \<Longrightarrow> scan_hex v s = Some (foldl (\<lambda>v c. 16 * v + hex_val c) v s, [])"
  by (induction s arbitrary: v) auto

lemma hex_char_plain:
  "is_hex_digit c \<Longrightarrow> c \<noteq> CHR ''-'' \<and> c \<noteq> CHR ''+'' \<and> c \<noteq> CHR ''{'' \<and> c \<noteq> CHR ''}'' \<and> c \<noteq> CHR ''x''
     \<and> c \<noteq> CHR ''X'' \<and> c \<noteq> CHR '':'' \<and> \<not> is_cspace c"
  by (auto simp: is_hex_digit_def is_digit_def is_cspace_def)

lemma py_int16_hex:
  assumes "list_all is_hex_digit s" "s \<noteq> []"
  shows "py_int16 s = Some (int (hex_value s))"
proof -
  obtain c cs where s: "s = c # cs" using assms(2) by (cases s) auto
  then have c: "is_hex_digit c" "list_all is_hex_digit cs" using assms(1) by auto
  have "drop_0x s = s"
    using c hex_char_plain by (cases cs) (auto simp: s drop_0x_def)
  moreover have "scan_hex_nat s = Some (hex_value s)"
    using c scan_hex_digits [OF c(2), of "hex_val c"] by (simp add: s scan_hex_nat_def hex_value_def)
  ultimately show ?thesis using c hex_char_plain [OF c(1)] by (simp add: s py_int16_def)
qed

lemma remove_all_absent:
  "x \<in> set p \<Longrightarrow> x \<notin> set s \<Longrightarrow> remove_all p s = s"
proof (induction s)
  case (Cons c cs)
  then have "take (length p) (c # cs) \<noteq> p" by (metis in_set_takeD)
  with Cons show ?case by simp
qed simp

lemma strip_braces_plain: "CHR ''{'' \<notin> set s \<Longrightarrow> CHR ''}'' \<notin> set s \<Longrightarrow> strip_braces s = s"
proof -
  assume a: "CHR ''{'' \<notin> set s" "CHR ''}'' \<notin> set s"
  have "dropWhile (\<lambda>c. c = CHR ''{'' \<or> c = CHR ''}'') t = t" if "set t = set s" for t
    using a that by (cases t) auto
  then show ?thesis by (simp add: strip_braces_def Let_def)
qed

lemma uuid_str_parts:
  "filter (\<lambda>c. c \<noteq> CHR ''-'') (uuid_str u) = uuid_hex u"
  "set (uuid_str u) \<subseteq> insert (CHR ''-'') (set (uuid_hex u))"
proof -
  have plain: "filter (\<lambda>c. c \<noteq> CHR ''-'') t = t" if "set t \<subseteq> set (uuid_hex u)" for t
    using that hex_digits_hex [of 32 "unat u"] hex_char_plain
    by (auto simp: filter_id_conv uuid_hex_def list_all_iff)
  have sub: "set (take n (drop k (uuid_hex u))) \<subseteq> set (uuid_hex u)" for n k
    by (meson order_trans set_drop_subset set_take_subset)
  have "take 8 h @ take 4 (drop 8 h) @ take 4 (drop 12 h) @ take 4 (drop 16 h) @ drop 20 h = h" for h :: string
    using take_drop_step [of 4 16 h] take_drop_step [of 4 12 h] take_drop_step [of 4 8 h] append_take_drop_id [of 8 h]
    by (simp add: numeral_eq_Suc)
  then show "filter (\<lambda>c. c \<noteq> CHR ''-'') (uuid_str u) = uuid_hex u"
    using sub [of _ 0] sub set_drop_subset [of _ "uuid_hex u"] by (simp add: uuid_str_def Let_def plain)
  show "set (uuid_str u) \<subseteq> insert (CHR ''-'') (set (uuid_hex u))"
    using sub [of _ 0] sub set_drop_subset [of _ "uuid_hex u"] by (auto simp: uuid_str_def Let_def dest: in_set_dropD in_set_takeD)
qed

lemma uuid_round_trip: "uuid_parse (uuid_str u) = Some u"
proof -
  have hex: "list_all is_hex_digit (uuid_hex u)" by (simp add: uuid_hex_def hex_digits_hex)
  have absent: "CHR '':'' \<notin> set (uuid_str u)" "CHR ''{'' \<notin> set (uuid_str u)" "CHR ''}'' \<notin> set (uuid_str u)"
    using uuid_str_parts(2) [of u] hex hex_char_plain by (auto simp: list_all_iff)
  have "unat u < 16 ^ 32" using unsigned_less [of u, where ?'a = nat] by simp
  then have val: "py_int16 (uuid_hex u) = Some (int (unat u))"
    using py_int16_hex [OF hex] hex_value_digits [of "unat u" 32] length_hex_digits [of 32 "unat u"]
    by (metis list.size(3) uuid_hex_def zero_neq_numeral)
  have "remove_all ''urn:'' (uuid_str u) = uuid_str u" "remove_all ''uuid:'' (uuid_str u) = uuid_str u"
    using absent(1) by (auto intro: remove_all_absent [of "CHR '':''"])
  then have "filter (\<lambda>c. c \<noteq> CHR ''-'') (strip_braces (remove_all ''uuid:'' (remove_all ''urn:'' (uuid_str u)))) = uuid_hex u"
    using absent by (simp add: strip_braces_plain uuid_str_parts)
  moreover have "length (uuid_hex u) = 32" by (simp add: uuid_hex_def)
  moreover have "int (unat u) < 2 ^ 128" using unsigned_less [of u, where ?'a = int] by simp
  ultimately show ?thesis by (simp add: uuid_parse_def Let_def val)
qed

end
