(* ===== verification/Security.thy ===== *)
theory Security
  imports Settings_Model Py_Uuid
begin

text \<open>
  \<^verbatim>\<open>app/core/security.py\<close>: password hashing and the four kinds of signed tokens.  The
  Argon2 hasher and the PyJWT library are parameters; the random \<open>jti\<close> and the current time are
  arguments of the functions that draw them.
\<close>

section \<open>Passwords\<close>

text \<open>
  \<open>ph_hash salt plain\<close> is the hash with the salt the library drew, \<open>ph_verify hashed plain\<close> returns a
  truth value or raises.
\<close>

record hasher =
  ph_hash :: "string \<Rightarrow> string \<Rightarrow> string"
  ph_verify :: "string \<Rightarrow> string \<Rightarrow> bool result"
  ph_check_needs_rehash :: "string \<Rightarrow> bool"

definition hash_password :: "hasher \<Rightarrow> string \<Rightarrow> string \<Rightarrow> string" where
  "hash_password ph salt plain = ph_hash ph salt plain"

definition verify_password :: "hasher \<Rightarrow> string \<Rightarrow> string \<Rightarrow> bool result" where
  "verify_password ph plain hashed =
     (case ph_verify ph hashed plain of
        Inr ok \<Rightarrow> Inr ok
      | Inl (PyError c m) \<Rightarrow>
          if c = ''VerifyMismatchError'' \<or> c = ''InvalidHashError'' then Inr False else Inl (PyError c m)
      | Inl e \<Rightarrow> Inl e)"

definition needs_rehash :: "hasher \<Rightarrow> string \<Rightarrow> bool" where
  "needs_rehash ph hashed = ph_check_needs_rehash ph hashed"


section \<open>Tokens\<close>

datatype TokenType = Access | Refresh | Verify | Reset

fun token_type_name :: "TokenType \<Rightarrow> string" where
  "token_type_name Access = ''access''"
| "token_type_name Refresh = ''refresh''"
| "token_type_name Verify = ''verify''"
| "token_type_name Reset = ''reset''"

type_synonym payload = "(string, json) dict"

text \<open>
  \<open>jwt_encode payload key algorithm\<close> and \<open>jwt_decode now token key algorithms\<close>, with \<open>now\<close> the POSIX
  time at which the library checks the registered claims.
\<close>

datatype jwt_error = ExpiredSignatureError | OtherPyJWTError string

record jwt_lib =
  jwt_encode :: "payload \<Rightarrow> string \<Rightarrow> string \<Rightarrow> string"
  jwt_decode :: "pyfloat \<Rightarrow> string \<Rightarrow> string \<Rightarrow> string list \<Rightarrow> jwt_error + payload"

text \<open>
  Points in time as \<open>datetime.now(UTC)\<close> has them, in whole microseconds since 1970: \<open>timestamp\<close> divides
  by a million in floats, and a sum outside the years 1 to 9999 raises \<open>OverflowError\<close>.
\<close>

definition utc_timestamp :: "int \<Rightarrow> pyfloat" where
  "utc_timestamp us = int_truediv us 1000000"

definition add_seconds :: "int \<Rightarrow> int \<Rightarrow> int result" where
  "add_seconds us ttl =
     (let t = us + ttl * 1000000
      in if - 62135596800000000 \<le> t \<and> t < 253402300800000000 then Inr t
         else Inl (PyError ''OverflowError'' ''date value out of range''))"

definition create_token ::
  "jwt_lib \<Rightarrow> int \<Rightarrow> string \<Rightarrow> string \<Rightarrow> TokenType \<Rightarrow> int \<Rightarrow> Settings \<Rightarrow> string result" where
  "create_token lib now_us jti subject token_type ttl settings =
     bind_result (add_seconds now_us ttl) (\<lambda>expiry.
       Inr (jwt_encode lib
         [(''sub'', JStr subject), (''type'', JStr (token_type_name token_type)),
          (''iat'', JInt (py_trunc (utc_timestamp now_us))),
          (''exp'', JInt (py_trunc (utc_timestamp expiry))), (''jti'', JStr jti)]
         (secret_key settings) (jwt_algorithm settings)))"

definition create_access_token :: "jwt_lib \<Rightarrow> int \<Rightarrow> string \<Rightarrow> string \<Rightarrow> Settings \<Rightarrow> string result" where
  "create_access_token lib now_us jti subject settings =
     create_token lib now_us jti subject Access (access_token_ttl settings) settings"

definition create_refresh_token :: "jwt_lib \<Rightarrow> int \<Rightarrow> string \<Rightarrow> string \<Rightarrow> Settings \<Rightarrow> string result" where
  "create_refresh_token lib now_us jti subject settings =
     create_token lib now_us jti subject Refresh (refresh_token_ttl settings) settings"

definition create_verify_token :: "jwt_lib \<Rightarrow> int \<Rightarrow> string \<Rightarrow> string \<Rightarrow> Settings \<Rightarrow> string result" where
  "create_verify_token lib now_us jti subject settings =
     create_token lib now_us jti subject Verify (verify_token_ttl settings) settings"

definition create_reset_token :: "jwt_lib \<Rightarrow> int \<Rightarrow> string \<Rightarrow> string \<Rightarrow> Settings \<Rightarrow> string result" where
  "create_reset_token lib now_us jti subject settings =
     create_token lib now_us jti subject Reset (reset_token_ttl settings) settings"

definition decode_token :: "jwt_lib \<Rightarrow> pyfloat \<Rightarrow> string \<Rightarrow> TokenType \<Rightarrow> Settings \<Rightarrow> payload result" where
  "decode_token lib now token expected_type settings =
     (case jwt_decode lib now token (secret_key settings) [jwt_algorithm settings] of
        Inl ExpiredSignatureError \<Rightarrow> Inl (TokenError ''token has expired'')
      | Inl (OtherPyJWTError m) \<Rightarrow> Inl (TokenError ''token is invalid'')
      | Inr p \<Rightarrow>
          if dict_get p ''type'' \<noteq> Some (JStr (token_type_name expected_type))
          then Inl (TokenError (''expected a '' @ token_type_name expected_type @ '' token''))
          else if dict_get p ''sub'' = None then Inl (TokenError ''token is missing a subject'')
          else Inr p)"

text \<open>The outcomes of \<open>decode_token\<close>: a payload of the expected type with a subject, or a \<open>TokenError\<close>.\<close>

lemma decode_token_Inr:
  "decode_token lib now token ty settings = Inr p \<Longrightarrow>
   dict_get p ''type'' = Some (JStr (token_type_name ty)) \<and> (\<exists>sub. dict_get p ''sub'' = Some sub)
   \<and> jwt_decode lib now token (secret_key settings) [jwt_algorithm settings] = Inr p"
  by (auto simp: decode_token_def split: sum.splits jwt_error.splits if_splits)

lemma decode_token_Inl:
  "decode_token lib now token ty settings = Inl e \<Longrightarrow> \<exists>m. e = TokenError m"
  by (auto simp: decode_token_def split: sum.splits jwt_error.splits if_splits)

lemma token_type_name_inj [simp]: "token_type_name a = token_type_name b \<longleftrightarrow> a = b"
  by (cases a; cases b) simp_all


section \<open>Whole seconds\<close>

text \<open>
  Below \<open>2^33\<close> seconds (the year 2242) the float timestamp never rounds up to the next second, so the
  claims \<open>iat\<close> and \<open>exp\<close> are the whole seconds of the microsecond count.
\<close>

lemma utc_timestamp_trunc:
  assumes "0 \<le> us" "us < 2 ^ 33 * 1000000"
  shows "py_trunc (utc_timestamp us) = us div 1000000"
proof -
  let ?q = "us div 1000000" and ?x = "of_int us / 1000000 :: rat"
  have q: "0 \<le> ?q" "?q < 2 ^ 33" using assms by (auto simp: div_less_iff_less_mult)
  have us: "us = ?q * 1000000 + us mod 1000000" by simp
  have low: "of_int ?q \<le> ?x" and high: "?x \<le> of_int ?q + 999999 / 1000000"
  proof -
    have "(of_int us :: rat) = of_int ?q * 1000000 + of_int (us mod 1000000)" using us by (metis of_int_add of_int_mult of_int_numeral)
    moreover have "(of_int (us mod 1000000) :: rat) \<le> 999999"
      using of_int_le_iff [of "us mod 1000000" 999999, where ?'a = rat] by simp
    moreover have "0 \<le> (of_int (us mod 1000000) :: rat)" by simp
    ultimately show "of_int ?q \<le> ?x" "?x \<le> of_int ?q + 999999 / 1000000" by (simp_all add: field_simps)
  qed
  have fl_low: "of_int ?q \<le> fl ?x" using fl_mono [OF low] fl_of_int [of ?q] q by simp
  have fl_high: "fl ?x < of_int ?q + 1"
  proof (cases "us = 0")
    case False
    then have pos: "0 < ?x" using assms(1) by simp
    have "?x < 2 powi 33" using assms(2) of_int_less_iff [of us "2 ^ 33 * 1000000", where ?'a = rat] by (simp add: field_simps)
    moreover have "2 powi (binexp ?x) \<le> ?x" using binexp_bounds [OF pos] by simp
    ultimately have "(2 :: rat) powi (binexp ?x) < 2 powi 33" by (rule order_le_less_trans [rotated])
    then have "binexp ?x < 33" by (simp only: powi2_less_iff)
    then have "grid_exp ?x \<le> -20" by (simp add: grid_exp_def)
    then have "(2 :: rat) powi (grid_exp ?x) \<le> 2 powi (-20)" by (simp only: powi2_le_iff)
    then have "(2 :: rat) powi (grid_exp ?x) / 2 \<le> 1 / 2097152" by (simp add: power_int_minus)
    then have "fl ?x \<le> ?x + 1 / 2097152" using fl_error [OF pos] by linarith
    then show ?thesis using high by simp
  qed simp
  have "0 \<le> fl ?x" using fl_low q(1) by (meson of_int_0_le_iff order_trans)
  then show ?thesis
    using fl_low fl_high by (simp add: py_trunc_def utc_timestamp_def int_truediv_def floor_unique)
qed


section \<open>Properties\<close>

text \<open>The claims that \<open>create_token\<close> signs.\<close>

definition token_claims :: "int \<Rightarrow> string \<Rightarrow> string \<Rightarrow> TokenType \<Rightarrow> int \<Rightarrow> payload" where
  "token_claims now_us jti subject ty ttl =
     [(''sub'', JStr subject), (''type'', JStr (token_type_name ty)), (''iat'', JInt (now_us div 1000000)),
      (''exp'', JInt (now_us div 1000000 + ttl)), (''jti'', JStr jti)]"

lemma create_token_claims:
  assumes "0 \<le> now_us" "0 \<le> ttl" "now_us + ttl * 1000000 < 2 ^ 33 * 1000000"
  shows "create_token lib now_us jti subject ty ttl settings
         = Inr (jwt_encode lib (token_claims now_us jti subject ty ttl) (secret_key settings) (jwt_algorithm settings))"
proof -
  have "(now_us + ttl * 1000000) div 1000000 = now_us div 1000000 + ttl" by simp
  moreover have "now_us < 2 ^ 33 * 1000000" using assms(2,3) by linarith
  ultimately show ?thesis
    using assms utc_timestamp_trunc [of now_us] utc_timestamp_trunc [of "now_us + ttl * 1000000"]
    by (simp add: create_token_def add_seconds_def token_claims_def add.commute)
qed

text \<open>
  What PyJWT documents for a token it made: with the same key and algorithm, \<open>decode\<close> returns the
  claims before \<open>exp\<close> and raises \<open>ExpiredSignatureError\<close> from \<open>exp\<close> on.
\<close>

definition jwt_reads_back :: "jwt_lib \<Rightarrow> Settings \<Rightarrow> payload \<Rightarrow> bool" where
  "jwt_reads_back lib settings p \<longleftrightarrow>
     (\<forall>e now. dict_get p ''exp'' = Some (JInt e) \<longrightarrow>
        jwt_decode lib now (jwt_encode lib p (secret_key settings) (jwt_algorithm settings))
          (secret_key settings) [jwt_algorithm settings]
        = (if of_int e \<le> now then Inl ExpiredSignatureError else Inr p))"

lemma decode_created:
  assumes "jwt_reads_back lib settings (token_claims now_us jti subject ty ttl)"
    and "0 \<le> now_us" "0 \<le> ttl" "now_us + ttl * 1000000 < 2 ^ 33 * 1000000"
    and "create_token lib now_us jti subject ty ttl settings = Inr token"
  shows "decode_token lib t token expected settings =
    (if of_int (now_us div 1000000 + ttl) \<le> t then Inl (TokenError ''token has expired'')
     else if expected \<noteq> ty then Inl (TokenError (''expected a '' @ token_type_name expected @ '' token''))
     else Inr (token_claims now_us jti subject ty ttl))"
proof -
  let ?p = "token_claims now_us jti subject ty ttl"
  have claims: "dict_get ?p ''exp'' = Some (JInt (now_us div 1000000 + ttl))"
    "dict_get ?p ''type'' = Some (JStr (token_type_name ty))" "dict_get ?p ''sub'' = Some (JStr subject)"
    by (simp_all add: token_claims_def)
  have "token = jwt_encode lib ?p (secret_key settings) (jwt_algorithm settings)"
    using assms(5) create_token_claims [OF assms(2-4)] by simp
  then show ?thesis
    using assms(1) claims by (auto simp: decode_token_def jwt_reads_back_def)
qed

text \<open>
  Token types do not mix.  If PyJWT reads back the token it made, as documented, then a token created
  with a lifetime of \<open>ttl\<close> seconds decodes to its claims exactly for its own type and until \<open>ttl\<close>
  seconds after the whole second of its creation; for every other expected type, and for every type
  once it has expired, decoding raises \<open>TokenError\<close>.
\<close>

lemma token_type_and_lifetime:
  assumes "jwt_reads_back lib settings (token_claims now_us jti subject ty ttl)"
    and "0 \<le> now_us" "0 \<le> ttl" "now_us + ttl * 1000000 < 2 ^ 33 * 1000000"
  shows "\<exists>token. create_token lib now_us jti subject ty ttl settings = Inr token
    \<and> (\<forall>t expected. decode_token lib t token expected settings =
        (if of_int (now_us div 1000000 + ttl) \<le> t then Inl (TokenError ''token has expired'')
         else if expected \<noteq> ty then Inl (TokenError (''expected a '' @ token_type_name expected @ '' token''))
         else Inr (token_claims now_us jti subject ty ttl)))"
  using decode_created [OF assms] create_token_claims [OF assms(2-4)] by blast

text \<open>A library that knows a table of tokens: the token of the \<open>k\<close>-th payload has length \<open>k\<close>.\<close>

definition table_lib :: "payload list \<Rightarrow> jwt_lib" where
  "table_lib ps =
     \<lparr>jwt_encode = (\<lambda>q key alg. replicate (length (takeWhile (\<lambda>p. p \<noteq> q) ps)) (CHR ''x'')),
      jwt_decode = (\<lambda>now token key algs.
        if length ps \<le> length token then Inl (OtherPyJWTError ''Not enough segments'')
        else let p = ps ! length token in
             case dict_get p ''exp'' of
               Some (JInt e) \<Rightarrow> if of_int e \<le> now then Inl ExpiredSignatureError else Inr p
             | _ \<Rightarrow> Inr p)\<rparr>"

lemma table_lib_reads_back:
  assumes "p \<in> set ps" shows "jwt_reads_back (table_lib ps) settings p"
proof -
  have *: "length (takeWhile (\<lambda>q. q \<noteq> p) ps) < length ps" "ps ! length (takeWhile (\<lambda>q. q \<noteq> p) ps) = p"
    using assms by (induction ps) auto
  then show ?thesis by (simp add: jwt_reads_back_def table_lib_def)
qed

lemma token_type_and_lifetime_example:
  "let p = token_claims 1000000000 ''j'' ''u'' Refresh 60; lib = table_lib [p]
   in \<exists>token. create_token lib 1000000000 ''j'' ''u'' Refresh 60 default_settings = Inr token
     \<and> decode_token lib 1059 token Refresh default_settings = Inr p
     \<and> decode_token lib 1059 token Access default_settings = Inl (TokenError ''expected a access token'')
     \<and> decode_token lib 1060 token Refresh default_settings = Inl (TokenError ''token has expired'')"
  using token_type_and_lifetime [OF table_lib_reads_back, of 1000000000 "''j''" "''u''" Refresh 60
      "[token_claims 1000000000 ''j'' ''u'' Refresh 60]" default_settings]
  unfolding Let_def by fastforce

end
