(* ===== verification/Token_Blocklist.thy ===== *)
theory Token_Blocklist
  imports Security Cache_Store Py_Repr
begin

text \<open>
  \<^verbatim>\<open>app/services/token_blocklist.py\<close>: the denylist of revoked tokens, a client of the cache
  protocol.  \<open>wall\<close> is \<open>time.time()\<close> and \<open>tick\<close> the time of the cache.
\<close>

definition remaining_ttl :: "pyfloat \<Rightarrow> payload \<Rightarrow> int" where
  "remaining_ttl wall p =
     (case dict_get p ''exp'' of
        Some (JInt e) \<Rightarrow> max 0 (e - py_trunc wall)
      | Some (JBool b) \<Rightarrow> max 0 (of_bool b - py_trunc wall)
      | _ \<Rightarrow> 0)"

definition jti_of :: "payload \<Rightarrow> json option" where
  "jti_of p = (case dict_get p ''jti'' of None \<Rightarrow> None | Some j \<Rightarrow> if truthy j then Some j else None)"

text \<open>
  A claim in an f-string.  \<open>str\<close> fails on integers of more than 4300 digits only, and the claims of a decoded
  token cannot hold one: they were read from JSON.
\<close>

definition claim_str :: "json \<Rightarrow> string" where
  "claim_str j = (case py_str j of Inl e \<Rightarrow> [] | Inr s \<Rightarrow> s)"

lemma claim_str_JStr [simp]: "claim_str (JStr s) = s"
  by (simp add: claim_str_def)

definition revoked_key :: "json \<Rightarrow> string" where
  "revoked_key j = ''revoked:'' @ claim_str j"

definition revoke ::
  "'c cache_ops \<Rightarrow> pyfloat \<Rightarrow> pyfloat \<Rightarrow> payload \<Rightarrow> 'c \<Rightarrow> 'c" where
  "revoke ops wall tick p c =
     (case jti_of p of
        None \<Rightarrow> c
      | Some j \<Rightarrow>
          let ttl = remaining_ttl wall p
          in if 0 < ttl then op_set ops tick (revoked_key j) ''1'' ttl c else c)"

definition is_revoked ::
  "'c cache_ops \<Rightarrow> pyfloat \<Rightarrow> payload \<Rightarrow> 'c \<Rightarrow> bool \<times> 'c" where
  "is_revoked ops tick p c =
     (case jti_of p of
        None \<Rightarrow> (False, c)
      | Some j \<Rightarrow> (case op_get ops tick (revoked_key j) c of (r, c') \<Rightarrow> (r \<noteq> None, c')))"


section \<open>Over any cache\<close>

context ttl_cache
begin

abbreviation this_ops :: "'c cache_ops" where
  "this_ops \<equiv> \<lparr>op_get = get, op_set = put, op_delete = del\<rparr>"

lemma is_revoked_view:
  "jti_of p = Some j \<Longrightarrow> fst (is_revoked this_ops tick p c) = (view c tick (revoked_key j) \<noteq> None)"
  by (simp add: is_revoked_def get_value [symmetric] split_beta)

lemma view_is_revoked:
  "tick \<le> t \<Longrightarrow> view (snd (is_revoked this_ops tick p c)) t k = view c t k"
  by (simp add: is_revoked_def view_get split_beta split: option.split)

lemma view_revoke:
  assumes "jti_of p = Some j" "0 < remaining_ttl wall p"
  shows "view (revoke this_ops wall tick p c) t k =
    (if k = revoked_key j then if t < deadline tick (remaining_ttl wall p) then Some ''1'' else None
     else view c t k)"
  using assms by (simp add: revoke_def view_put)

text \<open>Revoking another token, or checking one, never lifts a revocation before its deadline.\<close>

lemma revocation_stable:
  assumes "view c t (revoked_key j) \<noteq> None" and "jti_of q = Some i" and "revoked_key i \<noteq> revoked_key j"
  shows "view (revoke this_ops wall tick q c) t (revoked_key j) \<noteq> None"
  using assms by (auto simp: revoke_def view_put Let_def)

end


section \<open>Properties\<close>

text \<open>
  The clocks between two moments: \<open>time.time()\<close> is not set back, and the monotonic clock runs no
  faster than it.
\<close>

definition clocks_advance :: "pyfloat \<Rightarrow> pyfloat \<Rightarrow> pyfloat \<Rightarrow> pyfloat \<Rightarrow> bool" where
  "clocks_advance wall tick wall' tick' \<longleftrightarrow> tick \<le> tick' \<and> tick' - tick \<le> wall' - wall"

text \<open>
  The deadline of the entry, a float sum, is not before the token's expiry \<open>e\<close>: rounding loses no more than the fraction of
  the second that \<open>int(time.time())\<close> cuts off.
\<close>

definition covers_expiry :: "pyfloat \<Rightarrow> pyfloat \<Rightarrow> int \<Rightarrow> bool" where
  "covers_expiry wall tick e \<longleftrightarrow> tick + (of_int e - wall) \<le> fadd tick (of_int (e - py_trunc wall))"

lemma not_expired_before_deadline:
  assumes "clocks_advance wall tick wall' tick'" and "0 \<le> wall" and "wall' < of_int e"
    and "covers_expiry wall tick e"
  shows "tick' < fadd tick (of_int (e - py_trunc wall))" and "0 < e - py_trunc wall"
proof -
  have floor: "of_int (py_trunc wall) \<le> wall" using assms(2) by (simp add: py_trunc_def)
  have "tick' \<le> tick + (wall' - wall)" using assms(1) by (simp add: clocks_advance_def)
  also have "\<dots> < tick + (of_int e - wall)" using assms(3) by simp
  also have "\<dots> \<le> fadd tick (of_int (e - py_trunc wall))" using assms(4) by (simp add: covers_expiry_def)
  finally show "tick' < fadd tick (of_int (e - py_trunc wall))" .
  have "wall \<le> wall'" using assms(1) by (simp add: clocks_advance_def)
  then have "(of_int (py_trunc wall) :: rat) < of_int e" using floor assms(3) by linarith
  then show "0 < e - py_trunc wall" by simp
qed

text \<open>What other requests do to the denylist between a logout and a later use of the token.\<close>

datatype denylist_op = RevokeToken pyfloat pyfloat payload | LookUp pyfloat payload

fun denylist_step :: "denylist_op \<Rightarrow> memory_cache \<Rightarrow> memory_cache" where
  "denylist_step (RevokeToken wall tick p) c = revoke memory_cache_ops wall tick p c"
| "denylist_step (LookUp tick p) c = snd (is_revoked memory_cache_ops tick p c)"

text \<open>
  An operation before the moment \<open>(wall', tick')\<close> that looks a token up, revokes another token, or
  revokes this one again.
\<close>

fun op_before :: "payload \<Rightarrow> int \<Rightarrow> pyfloat \<Rightarrow> pyfloat \<Rightarrow> denylist_op \<Rightarrow> bool" where
  "op_before p e wall' tick' (LookUp tick q) \<longleftrightarrow> tick \<le> tick'"
| "op_before p e wall' tick' (RevokeToken wall tick q) \<longleftrightarrow>
     (map_option claim_str (jti_of q) \<noteq> map_option claim_str (jti_of p))
     \<or> (q = p \<and> clocks_advance wall tick wall' tick' \<and> 0 \<le> wall
        \<and> covers_expiry wall tick e)"

lemma revoke_view:
  assumes "jti_of p = Some j" "dict_get p ''exp'' = Some (JInt e)" "clocks_advance wall tick wall' tick'"
    "0 \<le> wall" "wall' < of_int e" "covers_expiry wall tick e"
  shows "cache_view (revoke memory_cache_ops wall tick p c) tick' (revoked_key j) \<noteq> None"
proof -
  have ttl: "remaining_ttl wall p = e - py_trunc wall"
    using not_expired_before_deadline(2) [OF assms(3-6)] assms(2) by (simp add: remaining_ttl_def)
  then show ?thesis
    using not_expired_before_deadline [OF assms(3-6)] mem.view_revoke [OF assms(1), of wall tick c]
    by (simp add: memory_cache_ops_def cache_deadline_def)
qed

lemma denylist_step_view:
  assumes "jti_of p = Some j" "dict_get p ''exp'' = Some (JInt e)" "wall' < of_int e"
    "op_before p e wall' tick' op" "cache_view c tick' (revoked_key j) \<noteq> None"
  shows "cache_view (denylist_step op c) tick' (revoked_key j) \<noteq> None"
proof (cases op)
  case (LookUp tick q)
  then show ?thesis using assms mem.view_is_revoked [of tick tick' q c] by (simp add: memory_cache_ops_def)
next
  case (RevokeToken wall tick q)
  consider (other) "map_option claim_str (jti_of q) \<noteq> Some (claim_str j)"
    | (again) "q = p" "clocks_advance wall tick wall' tick'" "0 \<le> wall"
        "covers_expiry wall tick e"
    using assms(1,4) RevokeToken by auto
  then show ?thesis
  proof cases
    case other
    then show ?thesis
      using assms(5) mem.revocation_stable [of c tick' j q] RevokeToken
      by (cases "jti_of q") (auto simp: memory_cache_ops_def revoke_def revoked_key_def)
  next
    case again
    with revoke_view [OF assms(1,2) again(2,3) assms(3) again(4)] RevokeToken show ?thesis by simp
  qed
qed

text \<open>
  A revoked token stays revoked for as long as it could be used.  After \<open>revoke\<close>, and whatever
  tokens are looked up or revoked in between, \<open>is_revoked\<close> answers true at every later moment before
  the token's \<open>exp\<close> (clocks not set back, deadlines not rounded below the expiry).
\<close>

lemma revoked_until_expiry:
  assumes "jti_of p = Some j" and "dict_get p ''exp'' = Some (JInt e)"
    and "clocks_advance wall tick wall' tick'" and "0 \<le> wall" and "wall' < of_int e"
    and "covers_expiry wall tick e"
    and "\<forall>op \<in> set ops. op_before p e wall' tick' op"
  shows "fst (is_revoked memory_cache_ops tick' p
           (fold (denylist_step) ops (revoke memory_cache_ops wall tick p c)))"
proof -
  have "cache_view (fold (denylist_step) ops d) tick' (revoked_key j) \<noteq> None"
    if "cache_view d tick' (revoked_key j) \<noteq> None" for d
    using assms(7) that
  proof (induction ops arbitrary: d)
    case (Cons op ops)
    then show ?case using denylist_step_view [OF assms(1,2,5), of tick' op d] by simp
  qed simp
  from this [OF revoke_view [OF assms(1-6)]] show ?thesis
    using mem.is_revoked_view [OF assms(1)] by (simp add: memory_cache_ops_def)
qed

lemma revoked_until_expiry_example:
  "fst (is_revoked memory_cache_ops 150 (token_claims 1000000000 ''j'' ''u'' Access 100)
     (fold denylist_step
       [LookUp 120 (token_claims 1000000000 ''j'' ''u'' Access 100), RevokeToken 1030 130 (token_claims 1000000000 ''k'' ''v'' Access 5)]
       (revoke memory_cache_ops 1000 100
          (token_claims 1000000000 ''j'' ''u'' Access 100) InMemoryCache)))"
proof (rule revoked_until_expiry [where j = "JStr ''j''" and e = 1100 and wall' = 1050])
  have "fl 200 = 200" using fl_of_int [of 200] by simp
  then show "covers_expiry 1000 100 1100"
    by (simp add: covers_expiry_def fadd_def py_trunc_def)
qed (simp_all add: jti_of_def token_claims_def clocks_advance_def)

end
