(* ===== verification/Notifications.thy ===== *)
theory Notifications
  imports App_Errors
begin

text \<open>
  \<^verbatim>\<open>app/services/notifications.py\<close>: the \<open>Notifier\<close> protocol as a locale, the console
  notifier, and the SMTP notifier over a library that is a parameter.
\<close>

type_synonym mail = "string \<times> string \<times> string"

text \<open>What a client may rely on: a send that returns delivers exactly its message, one that raises nothing.\<close>

locale notifier =
  fixes send :: "string \<Rightarrow> string \<Rightarrow> string \<Rightarrow> 'n \<Rightarrow> unit result \<times> 'n"
    and delivered :: "'n \<Rightarrow> mail list"
  assumes send_delivers: "send to_addr subject body n = (Inr u, n') \<Longrightarrow>
            delivered n' = delivered n @ [(to_addr, subject, body)]"
    and send_raises: "send to_addr subject body n = (Inl e, n') \<Longrightarrow> delivered n' = delivered n"
begin

lemma send_delivered_cases:
  "delivered (snd (send to_addr subject body n))
   = delivered n @ (case fst (send to_addr subject body n) of Inr u \<Rightarrow> [(to_addr, subject, body)] | Inl e \<Rightarrow> [])"
  using send_delivers send_raises by (cases "send to_addr subject body n"; cases "fst (send to_addr subject body n)") fastforce+

end


section \<open>Console\<close>

definition ConsoleNotifier :: "mail list" where
  "ConsoleNotifier = []"

definition console_send :: "string \<Rightarrow> string \<Rightarrow> string \<Rightarrow> mail list \<Rightarrow> unit result \<times> mail list" where
  "console_send to_addr subject body sent = (Inr (), sent @ [(to_addr, subject, body)])"

interpretation console: notifier console_send id
  by unfold_locales (auto simp: console_send_def)


section \<open>SMTP\<close>

text \<open>
  The calls on \<open>smtplib.SMTP\<close>, over the state \<open>'w\<close> of the connection and the server.
  \<open>smtp_starttls\<close> is the call with \<open>ssl.create_default_context()\<close>, which checks the certificate.
\<close>

record 'w smtp_lib =
  smtp_connect :: "string \<Rightarrow> int \<Rightarrow> 'w \<Rightarrow> unit result \<times> 'w"
  smtp_starttls :: "'w \<Rightarrow> unit result \<times> 'w"
  smtp_login :: "string \<Rightarrow> string \<Rightarrow> 'w \<Rightarrow> unit result \<times> 'w"
  smtp_send_message :: "string \<Rightarrow> string \<Rightarrow> string \<Rightarrow> string \<Rightarrow> 'w \<Rightarrow> unit result \<times> 'w"
  smtp_quit :: "'w \<Rightarrow> unit result \<times> 'w"

record SmtpNotifier =
  sn_host :: string
  sn_port :: int
  sn_username :: string
  sn_password :: string
  sn_sender :: string

text \<open>Assigning a header of \<open>EmailMessage\<close>: line breaks are refused.\<close>

definition header_ok :: "string \<Rightarrow> bool" where
  "header_ok v \<longleftrightarrow> list_all (\<lambda>c. ord c \<noteq> 10 \<and> ord c \<noteq> 13) v"

definition then_do :: "('w \<Rightarrow> unit result \<times> 'w) \<Rightarrow> ('w \<Rightarrow> unit result \<times> 'w) \<Rightarrow> 'w \<Rightarrow> unit result \<times> 'w" where
  "then_do f g w = (case f w of (Inr u, w') \<Rightarrow> g w' | (Inl e, w') \<Rightarrow> (Inl e, w'))"

text \<open>Leaving the \<open>with\<close> block quits the connection; an exception of \<open>QUIT\<close> replaces the block's.\<close>

definition with_connection :: "'w smtp_lib \<Rightarrow> ('w \<Rightarrow> unit result \<times> 'w) \<Rightarrow> 'w \<Rightarrow> unit result \<times> 'w" where
  "with_connection lib block w =
     (case block w of
        (r, w') \<Rightarrow> (case smtp_quit lib w' of (Inl e, w'') \<Rightarrow> (Inl e, w'') | (Inr u, w'') \<Rightarrow> (r, w'')))"

definition smtp_notifier_send ::
  "'w smtp_lib \<Rightarrow> SmtpNotifier \<Rightarrow> string \<Rightarrow> string \<Rightarrow> string \<Rightarrow> 'w \<Rightarrow> unit result \<times> 'w" where
  "smtp_notifier_send lib sn to_addr subject body w =
     (if \<not> (header_ok (sn_sender sn) \<and> header_ok to_addr \<and> header_ok subject)
      then (Inl (ValueError ''Header values may not contain linefeed or carriage return characters''), w)
      else then_do (smtp_connect lib (sn_host sn) (sn_port sn))
             (with_connection lib
               (then_do (smtp_starttls lib)
                 (then_do (smtp_login lib (sn_username sn) (sn_password sn))
                   (smtp_send_message lib (sn_sender sn) to_addr subject body)))) w)"

text \<open>
  SMTP credentials travel only over a verified channel.  When the TLS handshake of the connection
  fails, the notifier neither logs in nor sends: all that follows is the \<open>QUIT\<close>, and the handshake's
  exception (or that of \<open>QUIT\<close>) is raised.  No message with a line break in its address or subject
  reaches the server at all.
\<close>

lemma smtp_no_login_without_tls:
  shows "(\<forall>w1 w2 u e. smtp_connect lib (sn_host sn) (sn_port sn) w = (Inr u, w1) \<and> smtp_starttls lib w1 = (Inl e, w2)
            \<and> header_ok (sn_sender sn) \<and> header_ok to_addr \<and> header_ok subject
          \<longrightarrow> smtp_notifier_send lib sn to_addr subject body w
              = (case smtp_quit lib w2 of (Inl e', w3) \<Rightarrow> (Inl e', w3) | (Inr u', w3) \<Rightarrow> (Inl e, w3)))
    \<and> (\<not> header_ok to_addr \<or> \<not> header_ok subject
          \<longrightarrow> snd (smtp_notifier_send lib sn to_addr subject body w) = w)"
  by (auto simp: smtp_notifier_send_def then_do_def with_connection_def)

end
