(* ===== verification/Rate_Limit.thy ===== *)
theory Rate_Limit
  imports App_Errors
begin

text \<open>
  \<^verbatim>\<open>app/core/rate_limit.py\<close>: the in-process sliding-window limiter and the fixed-window
  limiter over Redis.  A check of the in-process limiter never awaits while it holds the lock, so it
  is one atomic step at the time it reads from the clock.
\<close>

section \<open>The protocol\<close>

fun run_checks ::
  "(pyfloat \<Rightarrow> string \<Rightarrow> 'l \<Rightarrow> (bool \<times> int) \<times> 'l) \<Rightarrow> (pyfloat \<times> string) list \<Rightarrow> 'l \<Rightarrow> (bool \<times> int) list \<times> 'l" where
  "run_checks check [] l = ([], l)"
| "run_checks check ((now, who) # calls) l =
     (case check now who l of (r, l') \<Rightarrow> case run_checks check calls l' of (rs, l'') \<Rightarrow> (r # rs, l''))"

text \<open>What a caller of \<open>check\<close> may rely on, for the states \<open>ok\<close> that the limiter can be in.\<close>

locale rate_limiter =
  fixes check :: "pyfloat \<Rightarrow> string \<Rightarrow> 'l \<Rightarrow> (bool \<times> int) \<times> 'l"
    and limit_of :: "'l \<Rightarrow> int"
    and ok :: "'l \<Rightarrow> bool"
  assumes check_ok: "ok l \<Longrightarrow> ok (snd (check t who l))"
    and check_limit: "limit_of (snd (check t who l)) = limit_of l"
    and check_remaining: "ok l \<Longrightarrow> fst (check t who l) = (allowed, remaining) \<Longrightarrow>
           0 \<le> remaining \<and> (allowed \<longrightarrow> remaining < limit_of l) \<and> (\<not> allowed \<longrightarrow> remaining = 0)"
begin

lemma checks_ok: "ok l \<Longrightarrow> run_checks check calls l = (rs, l') \<Longrightarrow> ok l' \<and> limit_of l' = limit_of l"
proof (induction calls arbitrary: l rs l')
  case (Cons c calls)
  obtain t who where c: "c = (t, who)" by fastforce
  obtain r l1 where k: "check t who l = (r, l1)" by fastforce
  obtain rs' l2 where ks: "run_checks check calls l1 = (rs', l2)" by fastforce
  have "ok l1" "limit_of l1 = limit_of l" using check_ok [of l t who] check_limit [of t who l] Cons.prems k by simp_all
  then show ?case using Cons.IH [OF _ ks] Cons.prems by (simp add: c k ks)
qed simp

lemma checks_remaining:
  assumes "ok l" "run_checks check calls l = (rs, l')" "(allowed, remaining) \<in> set rs"
  shows "0 \<le> remaining \<and> (allowed \<longrightarrow> remaining < limit_of l) \<and> (\<not> allowed \<longrightarrow> remaining = 0)"
  using assms
proof (induction calls arbitrary: l rs l')
  case (Cons c calls)
  obtain t who where c: "c = (t, who)" by fastforce
  obtain r l1 where k: "check t who l = (r, l1)" by fastforce
  obtain rs' l2 where ks: "run_checks check calls l1 = (rs', l2)" by fastforce
  have l1: "ok l1" "limit_of l1 = limit_of l"
    using check_ok [of l t who] check_limit [of t who l] Cons.prems k by simp_all
  have "(allowed, remaining) = r \<or> (allowed, remaining) \<in> set rs'" using Cons.prems by (auto simp: c k ks)
  then show ?case
    using check_remaining [of l t who allowed remaining] Cons.IH [OF l1(1) ks] l1 Cons.prems(1) k by auto
qed simp

end


section \<open>The in-process limiter\<close>

record limiter =
  limit :: int
  window :: int
  hits :: "(string, pyfloat list) dict"
  last_sweep :: pyfloat

definition InMemoryRateLimiter :: "int \<Rightarrow> int \<Rightarrow> pyfloat \<Rightarrow> limiter" where
  "InMemoryRateLimiter max_hits window_seconds clock_now =
     \<lparr>limit = max_hits, window = window_seconds, hits = [], last_sweep = clock_now\<rparr>"

definition tracked :: "limiter \<Rightarrow> int" where
  "tracked l = int (length (hits l))"

definition sweep :: "pyfloat \<Rightarrow> pyfloat \<Rightarrow> limiter \<Rightarrow> limiter" where
  "sweep now cutoff l =
     (if fsub now (last_sweep l) < of_int (window l) then l
      else l\<lparr>last_sweep := now,
             hits := filter (\<lambda>(k, ts). list_ex (\<lambda>t. cutoff < t) ts) (hits l)\<rparr>)"

definition check :: "pyfloat \<Rightarrow> string \<Rightarrow> limiter \<Rightarrow> (bool \<times> int) \<times> limiter" where
  "check now identity l =
     (let cutoff = fsub now (float_of_int (window l));
          l = sweep now cutoff l;
          recent = filter (\<lambda>t. cutoff < t) (case dict_get (hits l) identity of None \<Rightarrow> [] | Some ts \<Rightarrow> ts)
      in if limit l \<le> int (length recent)
         then ((False, 0), l\<lparr>hits := dict_set identity recent (hits l)\<rparr>)
         else let recent = recent @ [now]
              in ((True, limit l - int (length recent)), l\<lparr>hits := dict_set identity recent (hits l)\<rparr>))"

abbreviation limiter_ok :: "limiter \<Rightarrow> bool" where
  "limiter_ok l \<equiv> distinct (dict_keys (hits l))"

lemma sweep_config [simp]:
  "limit (sweep now cutoff l) = limit l" "window (sweep now cutoff l) = window l"
  by (simp_all add: sweep_def)

lemma sweep_distinct: "limiter_ok l \<Longrightarrow> limiter_ok (sweep now cutoff l)"
  by (simp add: sweep_def dict_filter_keys_distinct)

lemma check_config [simp]:
  "limit (snd (check now who l)) = limit l" "window (snd (check now who l)) = window l"
  "last_sweep (snd (check now who l)) = last_sweep (sweep now (fsub now (float_of_int (window l))) l)"
  by (simp_all add: check_def Let_def)

text \<open>A limiter that has seen nobody admits its first caller.\<close>

lemma check_first: "0 < n \<Longrightarrow> fst (check now who (InMemoryRateLimiter n w t0)) = (True, n - 1)"
  by (simp add: check_def sweep_def InMemoryRateLimiter_def Let_def)

lemma check_distinct: "limiter_ok l \<Longrightarrow> limiter_ok (snd (check now who l))"
  by (simp add: check_def Let_def sweep_distinct)

interpretation in_process: rate_limiter check limit limiter_ok
  by unfold_locales (auto simp: sweep_distinct check_def Let_def split: if_splits)


section \<open>The limiter as a log\<close>

text \<open>
  The specification keeps every admitted request for ever and looks at those inside the window.
\<close>

type_synonym admission_log = "string \<Rightarrow> pyfloat list"

definition in_window :: "int \<Rightarrow> pyfloat \<Rightarrow> pyfloat list \<Rightarrow> nat" where
  "in_window w now ts = length (filter (\<lambda>t. fsub now (float_of_int w) < t) ts)"

fun log_checks :: "int \<Rightarrow> int \<Rightarrow> (pyfloat \<times> string) list \<Rightarrow> admission_log \<Rightarrow> (bool \<times> int) list" where
  "log_checks n_max w [] m = []"
| "log_checks n_max w ((now, who) # calls) m =
     (let n = int (in_window w now (m who))
      in if n_max \<le> n then (False, 0) # log_checks n_max w calls m
         else (True, n_max - n - 1) # log_checks n_max w calls (m(who := m who @ [now])))"

text \<open>
  \<open>agrees t l m\<close>: for every time from \<open>t\<close> on, the limiter and the log have the same requests inside
  the window.
\<close>

definition hits_of :: "limiter \<Rightarrow> string \<Rightarrow> pyfloat list" where
  "hits_of l who = (case dict_get (hits l) who of None \<Rightarrow> [] | Some ts \<Rightarrow> ts)"

definition agrees :: "pyfloat \<Rightarrow> limiter \<Rightarrow> admission_log \<Rightarrow> bool" where
  "agrees t l m \<longleftrightarrow> (\<forall>t' who. t \<le> t' \<longrightarrow>
     filter (\<lambda>x. fsub t' (float_of_int (window l)) < x) (hits_of l who)
     = filter (\<lambda>x. fsub t' (float_of_int (window l)) < x) (m who))"

lemma fsub_mono: "a \<le> b \<Longrightarrow> fsub a c \<le> fsub b c"
  by (simp add: fsub_def fl_mono)

lemma agreesD:
  "agrees t l m \<Longrightarrow> t \<le> t' \<Longrightarrow>
   filter (\<lambda>x. fsub t' (float_of_int (window l)) < x) (hits_of l who)
   = filter (\<lambda>x. fsub t' (float_of_int (window l)) < x) (m who)"
  by (simp add: agrees_def)

lemma filter_cutoff_twice:
  "a \<le> b \<Longrightarrow> filter (\<lambda>x. a < x \<and> b < x) xs = filter (\<lambda>x. b < x) (xs :: pyfloat list)"
  by (induction xs) auto

lemma filter_cutoff_none:
  "a \<le> b \<Longrightarrow> \<forall>x \<in> set xs. \<not> a < x \<Longrightarrow> filter (\<lambda>x. b < x) xs = ([] :: pyfloat list)"
  by (induction xs) auto

lemma map_of_filter_entries:
  "distinct (map fst d) \<Longrightarrow>
   map_of (filter P d) k = (case map_of d k of None \<Rightarrow> None | Some v \<Rightarrow> if P (k, v) then Some v else None)"
proof (induction d)
  case (Cons a d)
  then show ?case by (cases a) (auto simp: map_of_eq_None_iff image_iff split: option.split)
qed simp

lemma hits_of_sweep:
  assumes "limiter_ok l" "now \<le> t'"
  shows "filter (\<lambda>x. fsub t' (float_of_int (window l)) < x)
           (hits_of (sweep now (fsub now (float_of_int (window l))) l) who)
         = filter (\<lambda>x. fsub t' (float_of_int (window l)) < x) (hits_of l who)"
proof -
  have "fsub now (float_of_int (window l)) \<le> fsub t' (float_of_int (window l))"
    using assms(2) by (rule fsub_mono)
  then show ?thesis
    using assms(1)
    by (auto simp: hits_of_def sweep_def map_of_filter_entries list_ex_iff filter_cutoff_none
        split: option.splits)
qed

lemma sweep_agrees:
  "limiter_ok l \<Longrightarrow> agrees t l m \<Longrightarrow> t \<le> now \<Longrightarrow>
   agrees now (sweep now (fsub now (float_of_int (window l))) l) m"
  by (simp add: agrees_def hits_of_sweep)

text \<open>One check answers as the log does and keeps the agreement.\<close>

lemma check_cases:
  fixes l now who
  defines "w \<equiv> window l" and "l1 \<equiv> sweep now (fsub now (float_of_int (window l))) l"
  defines "recent \<equiv> filter (\<lambda>x. fsub now (float_of_int w) < x) (hits_of l1 who)"
  shows "check now who l =
    (if limit l \<le> int (length recent)
     then ((False, 0), l1\<lparr>hits := dict_set who recent (hits l1)\<rparr>)
     else ((True, limit l - int (length recent) - 1), l1\<lparr>hits := dict_set who (recent @ [now]) (hits l1)\<rparr>))"
  by (simp add: check_def Let_def assms hits_of_def)

lemma hits_of_set: "hits_of (l\<lparr>hits := dict_set who ts (hits l)\<rparr>) x = (if x = who then ts else hits_of l x)"
  by (simp add: hits_of_def)

lemma agrees_set:
  assumes "agrees now l m"
  shows "agrees now (l\<lparr>hits := dict_set who (filter (\<lambda>x. fsub now (float_of_int (window l)) < x) (hits_of l who))
           (hits l)\<rparr>) m"
    and "agrees now (l\<lparr>hits := dict_set who (filter (\<lambda>x. fsub now (float_of_int (window l)) < x) (hits_of l who) @ [now])
           (hits l)\<rparr>) (m(who := m who @ [now]))"
  using assms by (auto simp: agrees_def hits_of_set filter_cutoff_twice [OF fsub_mono])

lemma check_refines:
  assumes ok: "limiter_ok l" and agr: "agrees t l m" and le: "t \<le> now"
    and chk: "check now who l = (r, l')"
  shows "let n = int (in_window (window l) now (m who))
    in if limit l \<le> n then r = (False, 0) \<and> agrees now l' m
       else r = (True, limit l - n - 1) \<and> agrees now l' (m(who := m who @ [now]))"
proof -
  let ?l1 = "sweep now (fsub now (float_of_int (window l))) l"
  let ?recent = "filter (\<lambda>x. fsub now (float_of_int (window l)) < x) (hits_of ?l1 who)"
  have agr1: "agrees now ?l1 m" using ok agr le by (rule sweep_agrees)
  have "?recent = filter (\<lambda>x. fsub now (float_of_int (window l)) < x) (m who)"
    using agreesD [OF agr1, of now who] by simp
  then have n: "length ?recent = in_window (window l) now (m who)" by (simp add: in_window_def)
  show ?thesis
    using chk agrees_set [OF agr1, of who]
    by (auto simp: check_cases n Let_def)
qed

lemma run_checks_refines:
  assumes "limiter_ok l" and "agrees t l m" and "sorted (t # map fst calls)"
  shows "fst (run_checks check calls l) = log_checks (limit l) (window l) calls m"
  using assms
proof (induction calls arbitrary: t l m)
  case (Cons c calls)
  obtain now who where c: "c = (now, who)" by fastforce
  obtain r l1 where k: "check now who l = (r, l1)" by fastforce
  have l1: "limiter_ok l1" "limit l1 = limit l" "window l1 = window l"
    using check_distinct [OF Cons.prems(1), of now who] check_config [of now who l] k by simp_all
  have le: "t \<le> now" "sorted (now # map fst calls)" using Cons.prems(3) c by auto
  have step: "let n = int (in_window (window l) now (m who))
    in if limit l \<le> n then r = (False, 0) \<and> agrees now l1 m
       else r = (True, limit l - n - 1) \<and> agrees now l1 (m(who := m who @ [now]))"
    using Cons.prems(1,2) le(1) k by (rule check_refines)
  show ?case
  proof (cases "limit l \<le> int (in_window (window l) now (m who))")
    case True
    then show ?thesis using step Cons.IH [OF l1(1) _ le(2), of m] by (simp add: c k l1 Let_def split_beta)
  next
    case False
    then have "agrees now l1 (m(who := m who @ [now]))" using step by (simp add: Let_def)
    from Cons.IH [OF l1(1) this le(2)] show ?thesis using step False by (simp add: c k l1 Let_def split_beta fun_upd_def)
  qed
qed simp

text \<open>How many of the caller's requests a log admits inside one window is at most the limit.\<close>

fun admitted :: "string \<Rightarrow> (pyfloat \<times> string) list \<Rightarrow> (bool \<times> int) list \<Rightarrow> pyfloat list" where
  "admitted who ((now, w) # calls) ((a, r) # rs) =
     (if w = who \<and> a then now # admitted who calls rs else admitted who calls rs)"
| "admitted who _ _ = []"

lemma in_window_append [simp]: "in_window w now (xs @ ys) = in_window w now xs + in_window w now ys"
  by (simp add: in_window_def)

lemma in_window_antimono: "a \<le> b \<Longrightarrow> in_window w b xs \<le> in_window w a xs"
proof (induction xs)
  case (Cons x xs)
  then show ?case using fsub_mono [OF Cons.prems, of "float_of_int w"] by (auto simp: in_window_def)
qed (simp add: in_window_def)

lemma in_window_sublist_bound:
  assumes "0 \<le> n_max" and "sorted (t # map fst calls)"
    and "\<And>t'. t \<le> t' \<Longrightarrow> int (in_window w t' (m who)) \<le> n_max"
    and "\<forall>x \<in> set (map fst calls). x \<le> t'" and "t \<le> t'"
  shows "int (in_window w t' (m who @ admitted who calls (log_checks n_max w calls m))) \<le> n_max"
  using assms(2-5)
proof (induction calls arbitrary: t m)
  case (Cons c calls)
  obtain now w' where c: "c = (now, w')" by fastforce
  have le: "t \<le> now" "sorted (now # map fst calls)" "now \<le> t'" using Cons.prems(1,3) c by auto
  have old: "int (in_window w x (m who)) \<le> n_max" if "now \<le> x" for x
    using Cons.prems(2) le(1) that by (meson order_trans)
  show ?case
  proof (cases "w' = who \<and> \<not> n_max \<le> int (in_window w now (m w'))")
    case True
    let ?m = "m(who := m who @ [now])"
    have "int (in_window w x (?m who)) \<le> n_max" if "now \<le> x" for x
      using in_window_antimono [OF that, of w "m who"] True by (auto simp: in_window_def)
    then have "int (in_window w t' (?m who @ admitted who calls (log_checks n_max w calls ?m))) \<le> n_max"
      using Cons.prems(3) c le by (intro Cons.IH [of now]) auto
    then show ?thesis using True by (auto simp: c Let_def in_window_def)
  next
    case False
    let ?m = "if n_max \<le> int (in_window w now (m w')) then m else m(w' := m w' @ [now])"
    have "int (in_window w t' (?m who @ admitted who calls (log_checks n_max w calls ?m))) \<le> n_max"
      using Cons.prems(3) c le old False by (intro Cons.IH [of now]) (auto split: if_splits)
    then show ?thesis using False by (auto simp: c Let_def split: if_splits)
  qed
qed simp

lemma sliding_window:
  assumes "0 \<le> n_max" and "sorted (t0 # map fst calls)"
  shows "fst (run_checks check calls (InMemoryRateLimiter n_max w t0)) = log_checks n_max w calls (\<lambda>who. [])
    \<and> (\<forall>t who. (\<forall>x \<in> set (t0 # map fst calls). x \<le> t) \<longrightarrow>
         int (in_window w t (admitted who calls (fst (run_checks check calls (InMemoryRateLimiter n_max w t0))))) \<le> n_max)"
proof -
  have agr: "agrees t0 (InMemoryRateLimiter n_max w t0) (\<lambda>who. [])"
    by (simp add: agrees_def hits_of_def InMemoryRateLimiter_def)
  have "fst (run_checks check calls (InMemoryRateLimiter n_max w t0))
      = log_checks (limit (InMemoryRateLimiter n_max w t0)) (window (InMemoryRateLimiter n_max w t0)) calls (\<lambda>who. [])"
    by (rule run_checks_refines [OF _ agr assms(2)]) (simp add: InMemoryRateLimiter_def)
  then have refines: "fst (run_checks check calls (InMemoryRateLimiter n_max w t0)) = log_checks n_max w calls (\<lambda>who. [])"
    by (simp add: InMemoryRateLimiter_def)
  have "int (in_window w t ([] @ admitted who calls (log_checks n_max w calls (\<lambda>who. [])))) \<le> n_max"
    if "\<forall>x \<in> set (t0 # map fst calls). x \<le> t" for t who
    using in_window_sublist_bound [OF assms, of w "\<lambda>who. []" who t] assms(1) that by (simp add: in_window_def)
  with refines show ?thesis by simp
qed


section \<open>The memory of the limiter\<close>

text \<open>
  \<open>remembers trace l\<close>: every tracked identity made a call after the cutoff of the last sweep, and its
  timestamps are times of its calls.
\<close>

definition called_since :: "(pyfloat \<times> string) list \<Rightarrow> limiter \<Rightarrow> string \<Rightarrow> bool" where
  "called_since trace l k \<longleftrightarrow>
     (\<exists>t. (t, k) \<in> set trace \<and> (fsub (last_sweep l) (float_of_int (window l)) < t \<or> last_sweep l \<le> t))"

definition remembers :: "(pyfloat \<times> string) list \<Rightarrow> limiter \<Rightarrow> bool" where
  "remembers trace l \<longleftrightarrow>
     (\<forall>k ts. dict_get (hits l) k = Some ts \<longrightarrow> (\<forall>t \<in> set ts. (t, k) \<in> set trace) \<and> called_since trace l k)"

lemma called_since_mono:
  "called_since trace l k \<Longrightarrow> called_since (trace @ calls) (l\<lparr>hits := h\<rparr>) k"
  by (auto simp: called_since_def)

lemma sweep_remembers:
  "limiter_ok l \<Longrightarrow> remembers trace l \<Longrightarrow> remembers trace (sweep now (fsub now (float_of_int (window l))) l)"
  by (auto simp: remembers_def sweep_def called_since_def list_ex_iff map_of_filter_entries
      split: option.splits if_splits)

lemma hits_of_remembers: "remembers trace l \<Longrightarrow> t \<in> set (hits_of l k) \<Longrightarrow> (t, k) \<in> set trace"
  by (cases "dict_get (hits l) k") (auto simp: remembers_def hits_of_def)

lemma remembers_set:
  assumes "remembers trace l" and "last_sweep l \<le> now" and "set ts \<subseteq> insert now (set (hits_of l who))"
  shows "remembers (trace @ [(now, who)]) (l\<lparr>hits := dict_set who ts (hits l)\<rparr>)"
  unfolding remembers_def
proof (intro allI impI)
  fix k ts' assume k: "dict_get (hits (l\<lparr>hits := dict_set who ts (hits l)\<rparr>)) k = Some ts'"
  show "(\<forall>t \<in> set ts'. (t, k) \<in> set (trace @ [(now, who)]))
    \<and> called_since (trace @ [(now, who)]) (l\<lparr>hits := dict_set who ts (hits l)\<rparr>) k"
  proof (cases "k = who")
    case True
    then show ?thesis
      using k assms(2,3) hits_of_remembers [OF assms(1)] by (auto simp: called_since_def)
  next
    case False
    then show ?thesis using k assms(1) by (auto simp: remembers_def called_since_mono)
  qed
qed

lemma sweep_last:
  "last_sweep l \<le> now \<Longrightarrow> last_sweep (sweep now cutoff l) \<le> now"
  "0 < window l \<Longrightarrow> fsub now (last_sweep (sweep now cutoff l)) < of_int (window l)"
  by (simp_all add: sweep_def fsub_def)

lemma check_remembers:
  assumes "limiter_ok l" "remembers trace l" "last_sweep l \<le> now"
  shows "remembers (trace @ [(now, who)]) (snd (check now who l))"
proof -
  let ?l1 = "sweep now (fsub now (float_of_int (window l))) l"
  have r: "remembers trace ?l1" using assms(1,2) by (rule sweep_remembers)
  show ?thesis
    unfolding check_cases using remembers_set [OF r sweep_last(1) [OF assms(3)]]
    by (auto simp: subset_iff)
qed

lemma run_checks_remembers:
  assumes "limiter_ok l" "remembers trace l" "sorted (last_sweep l # map fst calls)"
  shows "remembers (trace @ calls) (snd (run_checks check calls l))"
  using assms
proof (induction calls arbitrary: l trace)
  case (Cons c calls)
  obtain now who where c: "c = (now, who)" by fastforce
  obtain r l1 where k: "check now who l = (r, l1)" by fastforce
  have le: "last_sweep l \<le> now" "sorted (now # map fst calls)" using Cons.prems(3) c by auto
  have "last_sweep l1 \<le> now"
    using sweep_last(1) [OF le(1)] check_config(3) [of now who l] k by simp
  then have "sorted (last_sweep l1 # map fst calls)" using le(2) by auto
  moreover have "limiter_ok l1" "remembers (trace @ [(now, who)]) l1"
    using check_distinct [OF Cons.prems(1), of now who] check_remembers [OF Cons.prems(1,2) le(1), of who] k
    by simp_all
  ultimately show ?case using Cons.IH [of l1 "trace @ [(now, who)]"] by (simp add: c k split_beta)
qed simp

lemma run_checks_append:
  "snd (run_checks chk (xs @ ys) l) = snd (run_checks chk ys (snd (run_checks chk xs l)))"
  by (induction xs arbitrary: l) (auto simp: split_beta)

lemma run_checks_keeps:
  "limiter_ok l \<Longrightarrow> limiter_ok (snd (run_checks check calls l))"
  "window (snd (run_checks check calls l)) = window l"
  by (induction calls arbitrary: l) (auto simp: split_beta check_distinct)


section \<open>The Redis limiter\<close>

text \<open>
  \<open>execute t key w r\<close> is the transaction \<open>INCR key; EXPIRE key w NX\<close> of the client at time \<open>t\<close>: the
  new count and the new state of the server.
\<close>

definition limit_key :: "string \<Rightarrow> string" where
  "limit_key identity = ''ratelimit:'' @ identity"

lemma limit_key_inj [simp]: "limit_key a = limit_key b \<longleftrightarrow> a = b"
  by (simp add: limit_key_def)

definition redis_check ::
  "(pyfloat \<Rightarrow> string \<Rightarrow> int \<Rightarrow> 'r \<Rightarrow> int \<times> 'r) \<Rightarrow> int \<Rightarrow> int \<Rightarrow> pyfloat \<Rightarrow> string \<Rightarrow> 'r \<Rightarrow> (bool \<times> int) \<times> 'r" where
  "redis_check execute limit_per_window window_seconds t identity r =
     (case execute t (limit_key identity) window_seconds r of
        (hit_count, r') \<Rightarrow> ((hit_count \<le> limit_per_window, max 0 (limit_per_window - hit_count)), r'))"

text \<open>The answers of a window that counts each identity's calls, starting from the counts \<open>n\<close>.\<close>

fun counted_answers :: "int \<Rightarrow> (pyfloat \<times> string) list \<Rightarrow> (string \<Rightarrow> int) \<Rightarrow> (bool \<times> int) list" where
  "counted_answers n_max [] n = []"
| "counted_answers n_max ((t, who) # calls) n =
     (n who + 1 \<le> n_max, max 0 (n_max - (n who + 1))) # counted_answers n_max calls (n(who := n who + 1))"


section \<open>Properties\<close>

text \<open>
  C8: over any sequence of checks in clock order, the in-process limiter answers exactly as one that
  keeps every admitted request for ever and admits a caller while fewer than \<open>limit\<close> of its admitted
  requests are newer than \<open>now - window\<close>; pruning and sweeping are never observed.  In particular no
  caller has more than \<open>limit\<close> admitted requests inside any window that ends at or after the last
  check.
\<close>

theorem rate_limiter_sliding_window:
  assumes "0 \<le> n_max" and "sorted (t0 # map fst calls)"
  shows "fst (run_checks check calls (InMemoryRateLimiter n_max w t0)) = log_checks n_max w calls (\<lambda>who. [])
    \<and> (\<forall>t who. (\<forall>x \<in> set (t0 # map fst calls). x \<le> t) \<longrightarrow>
         int (in_window w t (admitted who calls (fst (run_checks check calls (InMemoryRateLimiter n_max w t0))))) \<le> n_max)"
  using assms by (rule sliding_window)

theorem rate_limiter_sliding_window_witness:
  "fst (run_checks check [(0, ''a''), (1, ''a''), (2, ''b''), (70, ''a'')] (InMemoryRateLimiter 1 60 0))
   = [(True, 0), (False, 0), (True, 0), (True, 0)]"
proof -
  have s: "sorted (0 # map fst [(0, ''a''), (1, ''a''), (2, ''b''), (70 :: pyfloat, ''a'')])" by simp
  have "fsub 0 60 = -60" "fsub 1 60 = -59" "fsub 70 60 = 10" "float_of_int 60 = 60"
    using fl_of_int [of "-60"] fl_of_int [of "-59"] fl_of_int [of 10] fl_of_int [of 60]
    by (simp_all add: fsub_def float_of_int_def)
  then show ?thesis
    using rate_limiter_sliding_window [OF _ s, of 1 60] by (simp add: in_window_def)
qed

text \<open>
  C14: the limiter's memory stays bounded by recent traffic.  After a check at time \<open>now\<close> the last sweep
  is less than one window old, and the number of tracked identities is at most the number of
  identities that made a call after that sweep or inside the window that ended with it.
\<close>

theorem rate_limiter_memory_bounded:
  assumes "0 < w" and "sorted (t0 # map fst (calls @ [(now, who)]))"
    and "l = snd (run_checks check (calls @ [(now, who)]) (InMemoryRateLimiter n_max w t0))"
  shows "fsub now (last_sweep l) < of_int w
    \<and> tracked l \<le> int (card {k. \<exists>t. (t, k) \<in> set (calls @ [(now, who)])
                          \<and> (fsub (last_sweep l) (float_of_int w) < t \<or> last_sweep l \<le> t)})"
proof -
  let ?l0 = "InMemoryRateLimiter n_max w t0" and ?all = "calls @ [(now, who)]"
  have w: "window l = w" using assms(3) run_checks_keeps(2) by (simp add: InMemoryRateLimiter_def)
  have l: "l = snd (check now who (snd (run_checks check calls ?l0)))"
    using assms(3) by (simp add: run_checks_append split_beta)
  have ok: "limiter_ok l" using assms(3) run_checks_keeps(1) by (simp add: InMemoryRateLimiter_def)
  have "window (snd (run_checks check calls ?l0)) = w"
    by (simp add: run_checks_keeps InMemoryRateLimiter_def)
  then have recent: "fsub now (last_sweep l) < of_int w"
    using sweep_last(2) [of "snd (run_checks check calls ?l0)" now] assms(1) by (simp add: l)
  have "remembers ([] @ ?all) l"
    unfolding assms(3) using assms(2)
    by (intro run_checks_remembers) (simp_all add: InMemoryRateLimiter_def remembers_def)
  then have "set (dict_keys (hits l)) \<subseteq> {k. called_since ?all l k}"
    using ok by (auto simp: remembers_def)
  moreover have "finite {k. called_since ?all l k}"
    by (rule finite_subset [of _ "snd ` set ?all"]) (force simp: called_since_def)+
  ultimately have "card (set (dict_keys (hits l))) \<le> card {k. called_since ?all l k}"
    by (intro card_mono)
  moreover have "card (set (dict_keys (hits l))) = length (hits l)" using distinct_card [OF ok] by simp
  ultimately show ?thesis
    using recent by (simp only: tracked_def called_since_def w) simp
qed

theorem rate_limiter_memory_bounded_witness:
  "tracked (snd (run_checks check ([(0, ''a'')] @ [(200, ''b'')]) (InMemoryRateLimiter 1 60 0))) \<le> 1"
proof -
  let ?l = "snd (run_checks check ([(0, ''a'')] @ [(200, ''b'')]) (InMemoryRateLimiter 1 60 0))"
  have f: "fsub 200 0 = 200" "fsub 0 0 = 0" "fsub 200 60 = 140" "float_of_int 60 = 60"
    using fl_of_int [of 200] fl_of_int [of 140] fl_of_int [of 60]
    by (simp_all add: fsub_def float_of_int_def)
  have sw: "last_sweep ?l = 200"
    by (simp add: InMemoryRateLimiter_def sweep_def split_beta f)
  have "tracked ?l \<le> int (card {k. \<exists>t. (t, k) \<in> set ([(0, ''a'')] @ [(200, ''b'')])
      \<and> (fsub (last_sweep ?l) (float_of_int 60) < t \<or> last_sweep ?l \<le> t)})"
    using rate_limiter_memory_bounded [of 60 0 "[(0, ''a'')]" 200 "''b''" ?l 1] by simp
  also have "{k. \<exists>t. (t, k) \<in> set ([(0, ''a'')] @ [(200, ''b'')])
      \<and> (fsub (last_sweep ?l) (float_of_int 60) < t \<or> last_sweep ?l \<le> t)} = {''b''}"
    unfolding sw f by auto
  finally show ?thesis by simp
qed

text \<open>
  The Redis limiter.  If the transaction behaves as Redis documents it (\<open>INCR\<close> counts from zero
  on an absent key and otherwise adds one, \<open>EXPIRE NX\<close> dates only a key without an expiry, other keys
  are left alone), then from a server without live counters, and for calls less than one window after
  the start, the \<open>n\<close>-th call of each identity is admitted exactly when \<open>n \<le> limit\<close>, with
  \<open>max 0 (limit - n)\<close> remaining, however the identities interleave.
\<close>

lemma redis_limiter_fixed_window:
  fixes counter :: "'r \<Rightarrow> pyfloat \<Rightarrow> string \<Rightarrow> (int \<times> pyfloat) option"
  assumes incr_absent: "\<And>t k r. counter r t k = None \<Longrightarrow> fst (execute t k w r) = 1
      \<and> (\<forall>t' \<ge> t. counter (snd (execute t k w r)) t' k
           = (if t' < t + of_int w then Some (1, t + of_int w) else None))"
    and incr_present: "\<And>t k r c e. counter r t k = Some (c, e) \<Longrightarrow> fst (execute t k w r) = c + 1
      \<and> (\<forall>t' \<ge> t. counter (snd (execute t k w r)) t' k = (if t' < e then Some (c + 1, e) else None))"
    and other_keys: "\<And>t k k' t' r. k' \<noteq> k \<Longrightarrow> counter (snd (execute t k w r)) t' k' = counter r t' k'"
    and no_counters: "\<And>t k. t0 \<le> t \<Longrightarrow> counter r t k = None"
    and "sorted (t0 # map fst calls)" and "\<forall>t \<in> set (map fst calls). t < t0 + of_int w"
  shows "fst (run_checks (redis_check execute n_max w) calls r) = counted_answers n_max calls (\<lambda>who. 0)"
proof -
  define live where "live t r n \<longleftrightarrow> (\<forall>t' who. t \<le> t' \<longrightarrow> t' < t0 + of_int w \<longrightarrow>
      (if n who = 0 then counter r t' (limit_key who) = None
       else \<exists>e. t0 + of_int w \<le> e \<and> counter r t' (limit_key who) = Some (n who, e)))"
    for t r and n :: "string \<Rightarrow> int"
  have step: "fst (execute now (limit_key who) w r) = n who + 1
      \<and> live now (snd (execute now (limit_key who) w r)) (n(who := n who + 1))"
    if "live t r n" "t \<le> now" "now < t0 + of_int w" "\<And>x. 0 \<le> n x" "t0 \<le> now" for t r n now who
  proof (cases "n who = 0")
    case True
    then have "counter r now (limit_key who) = None" using that by (simp add: live_def)
    from incr_absent [OF this] True that show ?thesis
      by (auto simp: live_def other_keys add_increasing2)
  next
    case False
    moreover have "if n who = 0 then counter r now (limit_key who) = None
        else \<exists>e. t0 + of_int w \<le> e \<and> counter r now (limit_key who) = Some (n who, e)"
      using that(1-3) by (simp add: live_def)
    ultimately obtain e where "t0 + of_int w \<le> e" "counter r now (limit_key who) = Some (n who, e)" by auto
    from incr_present [OF this(2)] this(1) False that(1-3) that(4) [of who] show ?thesis
      by (auto simp: live_def other_keys)
  qed
  have "fst (run_checks (redis_check execute n_max w) calls r) = counted_answers n_max calls n"
    if "live t r n" "\<And>x. 0 \<le> n x" "sorted (t # map fst calls)" "t0 \<le> t"
      "\<forall>t \<in> set (map fst calls). t < t0 + of_int w" for t r n
    using that
  proof (induction calls arbitrary: t r n)
    case (Cons c calls)
    obtain now who where c: "c = (now, who)" by fastforce
    let ?r = "snd (execute now (limit_key who) w r)"
    have le: "t \<le> now" "sorted (now # map fst calls)" "now < t0 + of_int w" "t0 \<le> now"
      using Cons.prems(3-5) c by auto
    note st = step [OF Cons.prems(1) le(1,3) Cons.prems(2) le(4), of who]
    have "fst (run_checks (redis_check execute n_max w) calls ?r) = counted_answers n_max calls (n(who := n who + 1))"
      by (rule Cons.IH [OF conjunct2 [OF st] _ le(2,4)]) (use Cons.prems(2,5) in auto)
    moreover have "redis_check execute n_max w now who r
        = ((n who + 1 \<le> n_max, max 0 (n_max - (n who + 1))), ?r)"
      using st by (simp add: redis_check_def split_beta)
    ultimately show ?case by (simp add: c split_beta)
  qed simp
  from this [of t0 r "\<lambda>who. 0"] show ?thesis using assms(5,6) no_counters by (simp add: live_def)
qed

lemma redis_limiter_fixed_window_example:
  "fst (run_checks (redis_check
      (\<lambda>t k w m. case m k of
           Some (c, e) \<Rightarrow> if t < e then (c + 1, m(k \<mapsto> (c + 1, e))) else (1, m(k \<mapsto> (1, t + of_int w)))
         | None \<Rightarrow> (1, m(k \<mapsto> (1, t + of_int w)))) 1 60)
      [(0, ''a''), (1, ''b''), (59, ''a'')] (\<lambda>k. None))
   = [(True, 0), (True, 0), (False, 0)]"
proof -
  let ?counter = "\<lambda>m t k. case m k of Some (c :: int, e) \<Rightarrow> if t < e then Some (c, e) else None | None \<Rightarrow> None"
  have "fst (run_checks (redis_check
      (\<lambda>t k w m. case m k of
           Some (c, e) \<Rightarrow> if t < e then (c + 1, m(k \<mapsto> (c + 1, e))) else (1, m(k \<mapsto> (1, t + of_int w)))
         | None \<Rightarrow> (1, m(k \<mapsto> (1, t + of_int w)))) 1 60)
      [(0, ''a''), (1, ''b''), (59, ''a'')] (\<lambda>k. None))
    = counted_answers 1 [(0, ''a''), (1, ''b''), (59, ''a'')] (\<lambda>who. 0)"
    by (rule redis_limiter_fixed_window [where counter = ?counter and ?t0.0 = 0])
       (auto split: option.splits if_splits prod.splits)
  then show ?thesis by simp
qed

end
