(* ===== verification/Client_Ip.thy ===== *)
theory Client_Ip
  imports Ip_Address App_Errors
begin

text \<open>
  \<^verbatim>\<open>app/core/client_ip.py\<close>: who is calling when the application stands behind reverse
  proxies.  A request carries the address of its immediate peer and its headers, with lower-case
  names, in the order received.
\<close>

record http_request =
  req_client :: "string option"
  req_headers :: "(string \<times> string) list"

definition FORWARDED_FOR_HEADER :: string where
  "FORWARDED_FOR_HEADER = ''x-forwarded-for''"

text \<open>The configured networks; an entry that does not parse is skipped.\<close>

type_synonym proxy_trust = "ip_net list"

definition ProxyTrust :: "string list \<Rightarrow> proxy_trust" where
  "ProxyTrust trusted_cidrs = List.map_filter ip_network trusted_cidrs"

definition configured :: "proxy_trust \<Rightarrow> bool" where
  "configured networks \<longleftrightarrow> networks \<noteq> []"

definition trusts :: "proxy_trust \<Rightarrow> string option \<Rightarrow> bool" where
  "trusts networks address =
     (case address of
        None \<Rightarrow> False
      | Some a \<Rightarrow>
          if a = [] \<or> networks = [] then False
          else case ip_address a of None \<Rightarrow> False | Some ip \<Rightarrow> list_ex (in_network ip) networks)"

definition forwarded_hops :: "string \<Rightarrow> string list" where
  "forwarded_hops forwarded = filter (\<lambda>p. p \<noteq> []) (map str_strip (str_split (CHR '','') forwarded))"

definition client_ip :: "proxy_trust \<Rightarrow> http_request \<Rightarrow> string option" where
  "client_ip networks request =
     (let peer = req_client request in
      if \<not> trusts networks peer then peer
      else
        let forwarded = (case map_of (req_headers request) FORWARDED_FOR_HEADER of None \<Rightarrow> [] | Some v \<Rightarrow> v)
        in case List.find (\<lambda>hop. \<not> trusts networks (Some hop)) (rev (forwarded_hops forwarded)) of
             Some hop \<Rightarrow> Some hop
           | None \<Rightarrow> peer)"


section \<open>Hops\<close>

lemma forwarded_hops_append:
  "forwarded_hops (a @ '','' @ b) = forwarded_hops a @ forwarded_hops b"
  by (simp add: forwarded_hops_def str_split_append)

lemma forwarded_hops_single:
  "CHR '','' \<notin> set h \<Longrightarrow> forwarded_hops h = (if str_strip h = [] then [] else [str_strip h])"
  by (simp add: forwarded_hops_def str_split_single)

lemma find_app: "List.find P (xs @ ys) = (case List.find P xs of None \<Rightarrow> List.find P ys | Some x \<Rightarrow> Some x)"
  by (induction xs) auto

text \<open>A header built by appending each hop after a comma.\<close>

definition append_hops :: "string \<Rightarrow> string list \<Rightarrow> string" where
  "append_hops forwarded hops = foldl (\<lambda>h hop. h @ '','' @ hop) forwarded hops"

lemma forwarded_hops_append_hops:
  "(\<And>h. h \<in> set hops \<Longrightarrow> CHR '','' \<notin> set h) \<Longrightarrow>
   forwarded_hops (append_hops forwarded hops)
   = forwarded_hops forwarded @ filter (\<lambda>p. p \<noteq> []) (map str_strip hops)"
proof (induction hops rule: rev_induct)
  case (snoc h hops)
  then show ?case
    by (simp add: append_hops_def forwarded_hops_append forwarded_hops_single [of h] del: append_Cons append_Nil)
qed (simp add: append_hops_def)

lemma trusts_nonempty: "trusts networks (Some a) \<Longrightarrow> a \<noteq> []"
  by (auto simp: trusts_def)


lemma trusts_dotted:
  assumes "a \<le> 255" "b \<le> 255" "c \<le> 255" "d \<le> 255" "p \<le> 32"
    and "w \<le> 255" "x \<le> 255" "y \<le> 255" "z \<le> 255"
  shows "trusts (ProxyTrust [dotted a b c d @ ''/'' @ nat_str p]) (Some (dotted w x y z))
    \<longleftrightarrow> (((w * 256 + x) * 256 + y) * 256 + z) div 2 ^ (32 - p)
        = (((a * 256 + b) * 256 + c) * 256 + d) div 2 ^ (32 - p)"
proof -
  have "((w * 256 + x) * 256 + y) * 256 + z < 2 ^ 32" "((a * 256 + b) * 256 + c) * 256 + d < 2 ^ 32"
    using assms by auto
  then have pre: "((((w * 256 + x) * 256 + y) * 256 + z) AND netmask 32 p)
        = ((((a * 256 + b) * 256 + c) * 256 + d) AND netmask 32 p)
      \<longleftrightarrow> (((w * 256 + x) * 256 + y) * 256 + z) div 2 ^ (32 - p)
        = (((a * 256 + b) * 256 + c) * 256 + d) div 2 ^ (32 - p)"
    using assms(5) by (intro same_prefix_iff) simp_all
  have nets: "ProxyTrust [dotted a b c d @ ''/'' @ nat_str p]
      = [IPv4Network ((((a * 256 + b) * 256 + c) * 256 + d) AND netmask 32 p) p]"
    using assms by (simp add: ProxyTrust_def map_filter_simps ip_network_dotted del: append_Cons)
  have "dotted w x y z \<noteq> []" by (simp add: dotted_def)
  with assms pre show ?thesis unfolding nets by (simp add: trusts_def ip_address_dotted)
qed

lemma ten_slash_eight:
  "ProxyTrust [''10.0.0.0/8''] = ProxyTrust [dotted 10 0 0 0 @ ''/'' @ nat_str 8]"
  "''10.0.0.1'' = dotted 10 0 0 1" "''10.9.9.9'' = dotted 10 9 9 9" "''8.8.8.8'' = dotted 8 8 8 8"
  by (rule arg_cong [of _ _ ProxyTrust], code_simp, code_simp, code_simp, code_simp)


section \<open>Properties\<close>

text \<open>
  A caller that is not a trusted proxy cannot choose its address: the header is ignored and the
  peer's own address is the answer.  With no trusted network configured this is every caller.
\<close>

lemma client_ip_ignores_header_of_untrusted_peer:
  assumes "\<not> trusts networks peer"
  shows "client_ip networks \<lparr>req_client = peer, req_headers = headers\<rparr> = peer"
  using assms by (simp add: client_ip_def)

text \<open>
  C9: behind trusted proxies the answer cannot be forged.  Whatever text the caller put into
  \<open>X-Forwarded-For\<close>, when the first proxy appended the caller's address \<open>hop\<close> (not a trusted one) and
  the later proxies appended trusted addresses, the answer is \<open>hop\<close>.
\<close>

theorem client_ip_unforgeable:
  assumes "trusts networks peer"
    and "map_of headers ''x-forwarded-for'' = Some (append_hops forged (hop # proxies))"
    and "\<forall>h \<in> set (hop # proxies). CHR '','' \<notin> set h"
    and "str_strip hop \<noteq> []" and "\<not> trusts networks (Some (str_strip hop))"
    and "\<forall>h \<in> set proxies. trusts networks (Some (str_strip h))"
  shows "client_ip networks \<lparr>req_client = peer, req_headers = headers\<rparr> = Some (str_strip hop)"
proof -
  have "forwarded_hops (append_hops forged (hop # proxies))
      = forwarded_hops forged @ [str_strip hop] @ map str_strip proxies"
    using assms(3,4,6) by (subst forwarded_hops_append_hops) (auto simp: trusts_nonempty filter_id_conv)
  moreover have "List.find (\<lambda>hop. \<not> trusts networks (Some hop)) (rev (map str_strip proxies)) = None"
    using assms(6) by (auto simp: find_None_iff)
  ultimately show ?thesis
    using assms(1,2,5) by (simp add: client_ip_def FORWARDED_FOR_HEADER_def find_app)
qed

theorem client_ip_unforgeable_witness:
  "client_ip (ProxyTrust [''10.0.0.0/8''])
     \<lparr>req_client = Some ''10.0.0.1'', req_headers = [(''x-forwarded-for'', ''1.1.1.1, evil,8.8.8.8, 10.9.9.9'')]\<rparr>
   = Some ''8.8.8.8''"
proof -
  let ?nets = "ProxyTrust [''10.0.0.0/8'']"
  have "client_ip ?nets \<lparr>req_client = Some ''10.0.0.1'', req_headers = [(''x-forwarded-for'', ''1.1.1.1, evil,8.8.8.8, 10.9.9.9'')]\<rparr>
      = Some (str_strip ''8.8.8.8'')"
  proof (rule client_ip_unforgeable [where forged = "''1.1.1.1, evil''" and hop = "''8.8.8.8''"
        and proxies = "['' 10.9.9.9'']"])
    have t: "trusts ?nets (Some ''10.0.0.1'')" "trusts ?nets (Some ''10.9.9.9'')" "\<not> trusts ?nets (Some ''8.8.8.8'')"
      unfolding ten_slash_eight by (subst trusts_dotted; simp)+
    have "str_strip ''8.8.8.8'' = ''8.8.8.8''" "str_strip '' 10.9.9.9'' = ''10.9.9.9''" by code_simp+
    with t show "trusts ?nets (Some ''10.0.0.1'')" "\<not> trusts ?nets (Some (str_strip ''8.8.8.8''))"
      "\<forall>h \<in> set ['' 10.9.9.9'']. trusts ?nets (Some (str_strip h))" by simp_all
    show "str_strip ''8.8.8.8'' \<noteq> []" by code_simp
  qed (simp_all add: append_hops_def)
  also have "str_strip ''8.8.8.8'' = ''8.8.8.8''" by code_simp
  finally show ?thesis .
qed

text \<open>
  Which IPv4 addresses are trusted.  With the single network \<open>a.b.c.d/p\<close> configured, host bits
  allowed, the dotted address \<open>w.x.y.z\<close> is trusted exactly when the leading \<open>p\<close> of its 32 bits are
  those of \<open>a.b.c.d\<close>.
\<close>

lemma trusts_iff_same_prefix:
  assumes "a \<le> 255" "b \<le> 255" "c \<le> 255" "d \<le> 255" "p \<le> 32"
    and "w \<le> 255" "x \<le> 255" "y \<le> 255" "z \<le> 255"
  shows "trusts (ProxyTrust [dotted a b c d @ ''/'' @ nat_str p]) (Some (dotted w x y z))
    \<longleftrightarrow> (((w * 256 + x) * 256 + y) * 256 + z) div 2 ^ (32 - p)
        = (((a * 256 + b) * 256 + c) * 256 + d) div 2 ^ (32 - p)"
  using assms by (rule trusts_dotted)

lemma trusts_iff_same_prefix_example:
  "trusts (ProxyTrust [dotted 192 168 7 1 @ ''/'' @ nat_str 16]) (Some (dotted 192 168 200 3))
   \<and> \<not> trusts (ProxyTrust [dotted 192 168 7 1 @ ''/'' @ nat_str 16]) (Some (dotted 192 169 7 1))"
  using trusts_iff_same_prefix [of 192 168 7 1 16 192 168 200 3] trusts_iff_same_prefix [of 192 168 7 1 16 192 169 7 1]
  by simp

end
