(* ===== verification/Container.thy ===== *)
theory Container
  imports Sample_Providers Hotel_Aggregation Http_Providers Token_Blocklist Notifications Rate_Limit Client_Ip
begin

text \<open>
  The composition root \<^verbatim>\<open>app/container.py\<close>: which backend each collaborator gets from the
  settings, the HTTP clients of the two providers, and the shipped flight and hotel services.  The
  database engine, the Redis connection and the \<open>httpx\<close> client are only passed on.  One cache object serves
  the responses of the HTTP clients and the token denylist.
\<close>

section \<open>Backends\<close>

datatype 'c cache_backend = GivenCache 'c | RedisBackend string | InMemoryBackend

datatype limiter_backend = MemoryLimiter limiter | RedisLimiter string int int

datatype notifier_backend = Smtp SmtpNotifier | Console

definition cache_backend :: "Settings \<Rightarrow> 'c option \<Rightarrow> 'c cache_backend" where
  "cache_backend settings given =
     (case given of
        Some c \<Rightarrow> GivenCache c
      | None \<Rightarrow> (case redis_url settings of Some url \<Rightarrow> RedisBackend url | None \<Rightarrow> InMemoryBackend))"

text \<open>\<open>clock_now\<close> is the monotonic clock at construction; both limiters have a window of 60 seconds.\<close>

definition limiter_backend :: "Settings \<Rightarrow> 'c option \<Rightarrow> pyfloat \<Rightarrow> limiter_backend" where
  "limiter_backend settings given clock_now =
     (case (given, redis_url settings) of
        (None, Some url) \<Rightarrow> RedisLimiter url (rate_limit_per_minute settings) 60
      | _ \<Rightarrow> MemoryLimiter (InMemoryRateLimiter (rate_limit_per_minute settings) 60 clock_now))"

definition notifier_backend :: "Settings \<Rightarrow> notifier_backend" where
  "notifier_backend settings =
     (case smtp_host settings of
        None \<Rightarrow> Console
      | Some host \<Rightarrow>
          if host = [] then Console
          else Smtp \<lparr>sn_host = host, sn_port = smtp_port settings, sn_username = smtp_username settings,
                     sn_password = smtp_password settings,
                     sn_sender = (if smtp_sender settings \<noteq> [] then smtp_sender settings else smtp_username settings)\<rparr>)"


section \<open>Providers and services\<close>

definition resilient :: "Settings \<Rightarrow> 'c cache_ops \<Rightarrow> string \<Rightarrow> 'c http_client \<times> breaker" where
  "resilient settings cache provider =
     ResilientHttpClient provider (Some cache) (Some (http_max_retries settings)) None
       (Some (CircuitBreaker provider 5 30))"

definition flight_samples :: "SampleFlightProvider list" where
  "flight_samples =
     [\<lparr>sf_name = ''skyfare'', sf_airlines = [''Lufthansa'', ''KLM'', ''Emirates''], sf_base_price = 12000\<rparr>,
      \<lparr>sf_name = ''globehop'', sf_airlines = [''Turkish Airlines'', ''Qatar Airways'', ''Emirates''], sf_base_price = 10500\<rparr>]"

definition hotel_samples :: "SampleHotelProvider list" where
  "hotel_samples =
     [\<lparr>sh_name = ''stayfinder'', sh_base_price = 8000\<rparr>, \<lparr>sh_name = ''roomhub'', sh_base_price = 6500\<rparr>]"

text \<open>A sample provider behind its port; the second case is a search that never ends.\<close>

definition flight_port :: "'g rng \<Rightarrow> SampleFlightProvider \<Rightarrow> FlightProvider" where
  "flight_port rng p = \<lparr>fp_name = sf_name p,
     fp_search = (\<lambda>q. case sample_flight_search rng p q of Some r \<Rightarrow> r | None \<Rightarrow> Inl (PyError ''NonTermination'' []))\<rparr>"

definition hotel_port :: "'g rng \<Rightarrow> SampleHotelProvider \<Rightarrow> HotelProvider" where
  "hotel_port rng p = \<lparr>hp_name = sh_name p,
     hp_search = (\<lambda>q. case sample_hotel_search rng p q of Some r \<Rightarrow> r | None \<Rightarrow> Inl (PyError ''NonTermination'' []))\<rparr>"

record 'c container =
  ct_cache :: "'c cache_backend"
  ct_rate_limiter :: limiter_backend
  ct_proxy_trust :: proxy_trust
  ct_notifier :: notifier_backend
  ct_weather :: "'c OpenMeteoWeatherProvider \<times> breaker"
  ct_currency :: "'c ExchangeRateProvider \<times> breaker"
  ct_flights :: "FlightProvider list result"
  ct_hotels :: "HotelProvider list result"

text \<open>The constructor; \<open>ops\<close> are the operations of the chosen cache.\<close>

definition make_container :: "'g rng \<Rightarrow> Settings \<Rightarrow> 'c option \<Rightarrow> 'c cache_ops \<Rightarrow> pyfloat \<Rightarrow> 'c container" where
  "make_container rng settings given ops clock_now =
     \<lparr>ct_cache = cache_backend settings given,
      ct_rate_limiter = limiter_backend settings given clock_now,
      ct_proxy_trust = ProxyTrust (trusted_proxy_cidrs settings),
      ct_notifier = notifier_backend settings,
      ct_weather = (case resilient settings ops ''open-meteo'' of
         (http, b) \<Rightarrow> (make_weather_provider http (weather_base_url settings) (provider_cache_ttl settings), b)),
      ct_currency = (case resilient settings ops ''exchangerate.host'' of
         (http, b) \<Rightarrow> (make_currency_provider http (currency_base_url settings) (provider_cache_ttl settings), b)),
      ct_flights = FlightAggregationService (map (flight_port rng) flight_samples),
      ct_hotels = HotelAggregationService (map (hotel_port rng) hotel_samples)\<rparr>"


section \<open>One cache for two clients\<close>

lemma cache_key_not_revoked: "cache_key hc url params = Inr k \<Longrightarrow> k \<noteq> revoked_key j"
  by (auto simp: cache_key_def revoked_key_def bind_result_iffs)

context ttl_cache
begin

lemma view_get_json_other:
  assumes "get_json env hc url params ttl st = (r, st')" and "hc_cache hc = Some this_ops"
    and "env_monotonic env (st_world st) \<le> t" and "cache_key hc url params \<noteq> Inr k"
  shows "view (st_cache st') t k = view (st_cache st) t k"
proof -
  have fetch: "st_cache (snd (fetch_through_breaker env hc url params s)) = st_cache s" for s
    by (simp add: fetch_through_breaker_def split: prod.split)
  show ?thesis
  proof (cases "active_cache hc ttl")
    case None
    then have "fetch_through_breaker env hc url params st = (r, st')" using assms(1) by (simp add: get_json_def)
    then show ?thesis using fetch [of st] by simp
  next
    case act: (Some a)
    then obtain n where a: "a = (this_ops, n)" using assms(2) by (auto simp: active_cache_def split: option.splits if_splits)
    show ?thesis
    proof (cases "cache_key hc url params")
      case key: (Inr key)
      obtain v c where g: "get (env_monotonic env (st_world st)) key (st_cache st) = (v, c)" by fastforce
      have c: "view c t k = view (st_cache st) t k" using view_get [OF assms(3)] g by (metis snd_conv)
      obtain o' s where f: "fetch_through_breaker env hc url params (st\<lparr>st_cache := c\<rparr>) = (o', s)" by fastforce
      then have "st_cache s = c" using fetch [of "st\<lparr>st_cache := c\<rparr>"] by simp
      then show ?thesis
        using assms(1,4) act a key g f c
        by (cases v; cases o') (auto simp: get_json_def view_put split: sum.splits)
    qed (use assms(1) act a in \<open>simp add: get_json_def\<close>)
  qed
qed

lemma view_revoke_other: "k \<noteq> revoked_key j \<Longrightarrow> jti_of p = Some j \<Longrightarrow>
   view (revoke this_ops wall tick p c) t k = view c t k"
  by (simp add: revoke_def view_put Let_def)

end

text \<open>
  The response cache and the token denylist share one cache without touching each other.  A call of a
  provider client, whatever it fetches or stores, changes the answer of \<open>is_revoked\<close> for no token at no
  later moment; and revoking a token changes what is cached for no request.
\<close>

lemma shared_cache_isolation:
  assumes "get_json env hc url params ttl st = (r, st')" and "hc_cache hc = Some memory_cache_ops"
    and "env_monotonic env (st_world st) \<le> t"
  shows "fst (is_revoked memory_cache_ops t p (st_cache st')) = fst (is_revoked memory_cache_ops t p (st_cache st))
    \<and> (\<forall>key. cache_key hc url params = Inr key \<longrightarrow>
         cache_view (revoke memory_cache_ops wall tick q c) t key = cache_view c t key)"
proof (intro conjI allI impI)
  show "fst (is_revoked memory_cache_ops t p (st_cache st')) = fst (is_revoked memory_cache_ops t p (st_cache st))"
  proof (cases "jti_of p")
    case (Some j)
    have "cache_view (st_cache st') t (revoked_key j) = cache_view (st_cache st) t (revoked_key j)"
      using assms unfolding memory_cache_ops_def
      by (rule mem.view_get_json_other) (metis cache_key_not_revoked)
    then show ?thesis using mem.is_revoked_view [OF Some] by (simp add: memory_cache_ops_def)
  qed (simp add: is_revoked_def)
  fix key assume key: "cache_key hc url params = Inr key"
  show "cache_view (revoke memory_cache_ops wall tick q c) t key = cache_view c t key"
  proof (cases "jti_of q")
    case (Some j)
    then show ?thesis
      using mem.view_revoke_other [OF cache_key_not_revoked [OF key] Some] by (simp add: memory_cache_ops_def)
  qed (simp add: revoke_def)
qed

lemma shared_cache_isolation_example:
  "fst (is_revoked memory_cache_ops 5 [(''jti'', JStr ''a'')]
     (st_cache (snd (get_json script_env script_client ''u'' None (Some 60) (script_state [200])))))
   = fst (is_revoked memory_cache_ops 5 [(''jti'', JStr ''a'')] (st_cache (script_state [200])))"
proof -
  obtain r st' where d: "get_json script_env script_client ''u'' None (Some 60) (script_state [200]) = (r, st')" by fastforce
  have "hc_cache script_client = Some memory_cache_ops" by (simp add: script_client_def ResilientHttpClient_def)
  moreover have "env_monotonic script_env (st_world (script_state [200])) \<le> 5" by (simp add: script_env_def)
  ultimately show ?thesis using shared_cache_isolation [OF d] d by simp
qed


section \<open>The shipped flight service\<close>

text \<open>A request of a valid query for a date before the last year of the calendar.\<close>

definition answerable :: "FlightSearchQuery \<Rightarrow> bool" where
  "answerable q \<longleftrightarrow> valid_date (q_departure_date q) \<and> year (q_departure_date q) < 9999
     \<and> length (q_origin q) = 3 \<and> length (q_destination q) = 3 \<and> 0 \<le> q_adults q"

lemma flight_port_answers:
  assumes "rng_documented rng" "answerable q" "p \<in> set (map (flight_port rng) flight_samples)"
  shows "\<exists>fs. fp_search p q = Inr fs \<and> fs \<noteq> [] \<and> (\<forall>f \<in> set fs. valid_flight f \<and> is_aware (departure_time f)
    \<and> origin f = q_origin q \<and> destination f = q_destination q)"
proof -
  obtain sp where sp: "sp \<in> set flight_samples" "p = flight_port rng sp" using assms(3) by auto
  have "bookable sp q" using sp(1) assms(2) by (auto simp: bookable_def answerable_def flight_samples_def)
  from sample_flight_search_ok [OF assms(1) this] obtain fs where
    "sample_flight_search rng sp q = Some (Inr fs)" "3 \<le> length fs" "\<forall>i < length fs. sample_offer sp q i (fs ! i)" by blast
  then show ?thesis using sp(2) by (auto simp: flight_port_def sample_offer_def in_set_conv_nth)
qed

lemma in_offers: "f \<in> set (offers ps q) \<longleftrightarrow> (\<exists>p \<in> set ps. f \<in> set (answer (fp_search p q)))"
  by (simp add: offers_def)

text \<open>
  The flight service that the container ships always answers.  For every generator that meets the
  documentation of \<open>random.Random\<close> and every valid query, a search in any order, with any filters, page size and
  cursor returns a result that is not degraded, with both providers counted as answering; every listed
  flight is well formed and on the route asked for; and when the filters let everything pass there is a flight.
\<close>

lemma shipped_search_ok:
  assumes "rng_documented rng" and "answerable q"
  shows "\<exists>providers res. ct_flights (make_container rng settings given ops clock_now) = Inr providers
    \<and> search providers q key fo n cursor = Inr res
    \<and> \<not> degraded (meta res) \<and> providers_ok (meta res) = 2 \<and> providers_failed (meta res) = 0
    \<and> (\<forall>r \<in> set (items res). valid_flight (flight r) \<and> origin (flight r) = q_origin q \<and> destination (flight r) = q_destination q)
    \<and> (matches (effective_filters fo) = (\<lambda>_. True) \<longrightarrow> 1 \<le> total (meta res))"
proof -
  let ?ps = "map (flight_port rng) flight_samples"
  have ct: "ct_flights (make_container rng settings given ops clock_now) = Inr ?ps"
    by (simp add: make_container_def FlightAggregationService_def flight_samples_def)
  note ans = flight_port_answers [OF assms]
  have ok: "\<not> is_failure (fp_search p q)" if "p \<in> set ?ps" for p
    using ans [OF that] by (auto simp: is_failure_def)
  have off: "valid_flight f \<and> is_aware (departure_time f) \<and> origin f = q_origin q \<and> destination f = q_destination q"
    if in_off: "f \<in> set (offers ?ps q)" for f
  proof -
    obtain p where "p \<in> set ?ps" "f \<in> set (answer (fp_search p q))" using in_off unfolding in_offers by blast
    then show ?thesis using ans [of p] by (auto simp: answer_def)
  qed
  have comp: "comparable key (map departure_time (offers ?ps q))"
    using off by (fastforce simp: comparable_def mixed_awareness_def)
  have len: "length ?ps = 2" by (simp add: flight_samples_def)
  have none: "filter (\<lambda>p. is_failure (fp_search p q)) ?ps = []" using ok by (simp add: filter_empty_conv)
  have all: "filter (\<lambda>p. \<not> is_failure (fp_search p q)) ?ps = ?ps" using ok by (simp add: filter_id_conv)
  obtain res where res: "search ?ps q key fo n cursor = Inr res"
    and m: "\<not> degraded (meta res)" "providers_ok (meta res) = 2" "providers_failed (meta res) = 0"
      "total (meta res) = int (length (ranked_offers ?ps q fo))"
    using search_ok [OF comp, of fo n cursor] ok len unfolding all none by (auto simp: Let_def)
  have "valid_flight (flight r) \<and> origin (flight r) = q_origin q \<and> destination (flight r) = q_destination q"
    if "r \<in> set (items res)" for r
  proof -
    have "flight r \<in> set (offers ?ps q)"
      using rank_entry(1) fd.dedupe_least(1) search_Inr_items [OF res that] by (fastforce simp: ranked_offers_def)
    then show ?thesis using off by blast
  qed
  moreover have "1 \<le> total (meta res)" if all: "matches (effective_filters fo) = (\<lambda>_. True)"
  proof -
    have "\<exists>p. p \<in> set ?ps" using len by (metis last_in_set length_0_conv zero_neq_numeral)
    then obtain p f where "p \<in> set ?ps" "f \<in> set (answer (fp_search p q))"
      using ans by (fastforce simp: answer_def neq_Nil_conv)
    then have "f \<in> set (offers ?ps q)" unfolding in_offers by blast
    then have "dedupe (offers ?ps q) \<noteq> []" using fd.dedupe_covers by fastforce
    moreover have "length (ranked_offers ?ps q fo) = length (dedupe (offers ?ps q))"
      by (simp add: ranked_offers_def all)
    ultimately show ?thesis using m(4) by (cases "dedupe (offers ?ps q)") auto
  qed
  ultimately show ?thesis using ct res m by blast
qed

end
