(* ===== verification/Database.thy ===== *)
theory Database
  imports App_Errors Py_Uuid
begin

text \<open>
  \<^verbatim>\<open>app/db/models.py\<close>, \<^verbatim>\<open>app/repositories/\<close> and the session scope of
  \<^verbatim>\<open>app/api/deps.py\<close>: the four tables as lists of rows in insertion order, one function
  per repository method, and the commit or rollback around a request.  Times are microseconds since
  1970; random primary keys and the current time are arguments.
\<close>

section \<open>Rows\<close>

datatype UserRole = USER | ADMIN

record User =
  u_id :: uuid
  u_email :: string
  u_hashed_password :: string
  u_full_name :: "string option"
  u_role :: UserRole
  u_is_active :: bool
  u_is_verified :: bool
  u_created_at :: int
  u_updated_at :: int

record SearchHistory =
  s_id :: uuid
  s_user_id :: uuid
  s_origin :: string
  s_destination :: string
  s_departure_date :: string
  s_result_count :: int
  s_latency_ms :: int
  s_created_at :: int

datatype AlertChannel = EMAIL | PUSH

record PriceAlert =
  a_id :: uuid
  a_user_id :: uuid
  a_origin :: string
  a_destination :: string
  a_departure_date :: string
  a_target_amount_minor :: int
  a_currency :: string
  a_channel :: AlertChannel
  a_is_active :: bool
  a_triggered_at :: "int option"
  a_created_at :: int
  a_updated_at :: int

record AuditLog =
  l_id :: uuid
  l_actor_id :: "uuid option"
  l_action :: string
  l_detail :: string
  l_ip_address :: "string option"
  l_created_at :: int

record database =
  users :: "User list"
  search_history :: "SearchHistory list"
  price_alerts :: "PriceAlert list"
  audit_log :: "AuditLog list"

definition empty_database :: database where
  "empty_database = \<lparr>users = [], search_history = [], price_alerts = [], audit_log = []\<rparr>"

text \<open>\<open>scalar_one_or_none\<close>\<close>

definition scalar_one_or_none :: "'a list \<Rightarrow> 'a option result" where
  "scalar_one_or_none rows =
     (case rows of
        [] \<Rightarrow> Inr None
      | [r] \<Rightarrow> Inr (Some r)
      | _ \<Rightarrow> Inl (PyError ''MultipleResultsFound'' ''Multiple rows were found''))"


section \<open>Users\<close>

definition get_by_id :: "uuid \<Rightarrow> database \<Rightarrow> User option" where
  "get_by_id user_id db = List.find (\<lambda>u. u_id u = user_id) (users db)"

definition get_by_email :: "string \<Rightarrow> database \<Rightarrow> User option result" where
  "get_by_email email db = scalar_one_or_none (filter (\<lambda>u. u_email u = str_lower email) (users db))"

definition exists_by_email :: "string \<Rightarrow> database \<Rightarrow> bool" where
  "exists_by_email email db = list_ex (\<lambda>u. u_email u = str_lower email) (users db)"

text \<open>The unique index on the email and the primary key reject a second row.\<close>

definition create_user ::
  "uuid \<Rightarrow> int \<Rightarrow> string \<Rightarrow> string \<Rightarrow> string option \<Rightarrow> UserRole \<Rightarrow> database \<Rightarrow> User result \<times> database" where
  "create_user new_id now_us email hashed_password full_name role db =
     (let user = \<lparr>u_id = new_id, u_email = str_lower email, u_hashed_password = hashed_password,
                  u_full_name = full_name, u_role = role, u_is_active = True, u_is_verified = False,
                  u_created_at = now_us, u_updated_at = now_us\<rparr>
      in if list_ex (\<lambda>u. u_email u = u_email user \<or> u_id u = u_id user) (users db)
         then (Inl (PyError ''IntegrityError'' ''UNIQUE constraint failed''), db)
         else (Inr user, db\<lparr>users := users db @ [user]\<rparr>))"

text \<open>The flush of a changed user: its row is replaced and \<open>updated_at\<close> renewed.\<close>

definition flush_user :: "int \<Rightarrow> User \<Rightarrow> database \<Rightarrow> database" where
  "flush_user now_us user db =
     db\<lparr>users := map (\<lambda>u. if u_id u = u_id user then user\<lparr>u_updated_at := now_us\<rparr> else u) (users db)\<rparr>"

definition update_password :: "int \<Rightarrow> User \<Rightarrow> string \<Rightarrow> database \<Rightarrow> User \<times> database" where
  "update_password now_us user hashed_password db =
     (if u_hashed_password user = hashed_password then (user, db)
      else let user' = user\<lparr>u_hashed_password := hashed_password\<rparr>
           in (user'\<lparr>u_updated_at := now_us\<rparr>, flush_user now_us user' db))"

definition mark_verified :: "int \<Rightarrow> User \<Rightarrow> database \<Rightarrow> User \<times> database" where
  "mark_verified now_us user db =
     (if u_is_verified user then (user, db)
      else let user' = user\<lparr>u_is_verified := True\<rparr>
           in (user'\<lparr>u_updated_at := now_us\<rparr>, flush_user now_us user' db))"


section \<open>Price alerts\<close>

definition create_alert_row ::
  "uuid \<Rightarrow> int \<Rightarrow> uuid \<Rightarrow> string \<Rightarrow> string \<Rightarrow> string \<Rightarrow> int \<Rightarrow> string \<Rightarrow> AlertChannel \<Rightarrow> database
   \<Rightarrow> PriceAlert result \<times> database" where
  "create_alert_row new_id now_us user_id origin destination departure_date target currency channel db =
     (let alert = \<lparr>a_id = new_id, a_user_id = user_id, a_origin = origin, a_destination = destination,
                   a_departure_date = departure_date, a_target_amount_minor = target,
                   a_currency = currency, a_channel = channel, a_is_active = True,
                   a_triggered_at = None, a_created_at = now_us, a_updated_at = now_us\<rparr>
      in if list_ex (\<lambda>a. a_id a = new_id) (price_alerts db)
         then (Inl (PyError ''IntegrityError'' ''UNIQUE constraint failed''), db)
         else (Inr alert, db\<lparr>price_alerts := price_alerts db @ [alert]\<rparr>))"

text \<open>Newest first; rows of the same microsecond in insertion order.\<close>

definition list_for_user :: "uuid \<Rightarrow> database \<Rightarrow> PriceAlert list" where
  "list_for_user user_id db =
     sort_key (\<lambda>a. - a_created_at a) (filter (\<lambda>a. a_user_id a = user_id) (price_alerts db))"

definition get_owned :: "uuid \<Rightarrow> uuid \<Rightarrow> database \<Rightarrow> PriceAlert option result" where
  "get_owned alert_id user_id db =
     scalar_one_or_none (filter (\<lambda>a. a_id a = alert_id \<and> a_user_id a = user_id) (price_alerts db))"

definition delete_alert_row :: "PriceAlert \<Rightarrow> database \<Rightarrow> database" where
  "delete_alert_row alert db =
     db\<lparr>price_alerts := filter (\<lambda>a. a_id a \<noteq> a_id alert) (price_alerts db)\<rparr>"

definition list_active :: "database \<Rightarrow> PriceAlert list" where
  "list_active db = filter a_is_active (price_alerts db)"


section \<open>The session scope\<close>

text \<open>\<open>get_session\<close>: the request's changes are committed when it returns and dropped when it raises.\<close>

definition with_session :: "(database \<Rightarrow> 'a result \<times> database) \<Rightarrow> database \<Rightarrow> 'a result \<times> database" where
  "with_session handler db =
     (case handler db of (Inr v, db') \<Rightarrow> (Inr v, db') | (Inl e, db') \<Rightarrow> (Inl e, db))"


section \<open>The invariant\<close>

definition db_ok :: "database \<Rightarrow> bool" where
  "db_ok db \<longleftrightarrow>
     distinct (map u_id (users db)) \<and> distinct (map u_email (users db))
     \<and> list_all (\<lambda>u. str_lower (u_email u) = u_email u) (users db)
     \<and> distinct (map a_id (price_alerts db))
     \<and> list_all (\<lambda>a. a_user_id a \<in> set (map u_id (users db))) (price_alerts db)"

lemma filter_key_le_1:
  "distinct (map f xs) \<Longrightarrow> filter (\<lambda>x. f x = k) xs
   = (case List.find (\<lambda>x. f x = k) xs of None \<Rightarrow> [] | Some x \<Rightarrow> [x])"
proof (induction xs)
  case (Cons a xs)
  show ?case
  proof (cases "f a = k")
    case True
    then have "filter (\<lambda>x. f x = k) xs = []" using Cons.prems by (auto simp: filter_empty_conv image_iff)
    with True show ?thesis by simp
  qed (use Cons in simp)
qed simp

lemma get_by_email_ok:
  "db_ok db \<Longrightarrow> get_by_email email db = Inr (List.find (\<lambda>u. u_email u = str_lower email) (users db))"
  by (auto simp: get_by_email_def scalar_one_or_none_def db_ok_def filter_key_le_1 split: option.split)

lemma find_Some_iff_distinct:
  "distinct (map f xs) \<Longrightarrow> List.find (\<lambda>x. f x = k) xs = Some y \<longleftrightarrow> y \<in> set xs \<and> f y = k"
  by (induction xs) (auto simp: image_iff)

lemma get_by_id_Some: "db_ok db \<Longrightarrow> get_by_id i db = Some u \<longleftrightarrow> u \<in> set (users db) \<and> u_id u = i"
  by (simp add: get_by_id_def db_ok_def find_Some_iff_distinct)

lemma get_by_email_Some:
  "db_ok db \<Longrightarrow> get_by_email e db = Inr (Some u) \<longleftrightarrow> u \<in> set (users db) \<and> u_email u = str_lower e"
  by (simp add: get_by_email_ok) (simp add: db_ok_def find_Some_iff_distinct)

lemma exists_by_email_iff: "db_ok db \<Longrightarrow> exists_by_email e db \<longleftrightarrow> get_by_email e db \<noteq> Inr None"
  by (auto simp: exists_by_email_def get_by_email_ok list_ex_iff find_None_iff)

lemma create_user_ok:
  "db_ok db \<Longrightarrow> create_user i now email h n r db = (res, db') \<Longrightarrow> db_ok db'"
  by (fastforce simp: create_user_def db_ok_def Let_def list_ex_iff list_all_iff split: if_splits)

lemma map_flush_key:
  "f (user\<lparr>u_updated_at := t\<rparr>) = f user \<Longrightarrow> (\<And>u. u \<in> set us \<Longrightarrow> u_id u = u_id user \<Longrightarrow> f user = f u) \<Longrightarrow>
   map f (map (\<lambda>u. if u_id u = u_id user then user\<lparr>u_updated_at := t\<rparr> else u) us) = map f us"
  by (induction us) auto

lemma flush_user_ok:
  assumes "db_ok db" and "\<And>u. u \<in> set (users db) \<Longrightarrow> u_id u = u_id user \<Longrightarrow> u_email u = u_email user"
  shows "db_ok (flush_user now user db)"
proof -
  have keys: "map u_id (users (flush_user now user db)) = map u_id (users db)"
    "map u_email (users (flush_user now user db)) = map u_email (users db)"
    using assms(2) unfolding flush_user_def by (simp_all del: map_map add: map_flush_key)
  have low: "list_all (\<lambda>u. str_lower (u_email u) = u_email u) us \<longleftrightarrow> list_all (\<lambda>e. str_lower e = e) (map u_email us)" for us
    by (simp add: list_all_iff)
  have "price_alerts (flush_user now user db) = price_alerts db" by (simp add: flush_user_def)
  then show ?thesis
    using assms(1) unfolding db_ok_def low keys by simp
qed

lemma updates_ok:
  assumes "db_ok db" "user \<in> set (users db)"
  shows "db_ok (snd (update_password now user h db))" "db_ok (snd (mark_verified now user db))"
proof -
  have "u_email u = u_email user" if "u \<in> set (users db)" "u_id u = u_id user" for u
    using assms that by (auto simp: db_ok_def distinct_map inj_on_def)
  then show "db_ok (snd (update_password now user h db))" "db_ok (snd (mark_verified now user db))"
    using assms(1) by (simp_all add: update_password_def mark_verified_def Let_def flush_user_ok)
qed

end
