(* ===== verification/Price_Monitor.thy ===== *)
theory Price_Monitor
  imports Flight_Aggregation Database Notifications
begin

text \<open>
  \<^verbatim>\<open>app/services/price_monitor.py\<close> and the task of \<^verbatim>\<open>app/workers/tasks.py\<close>
  that runs it: every active price alert is compared with the cheapest current fare.
\<close>

section \<open>The monitor\<close>

record MonitorReport =
  checked :: int
  triggered :: int

record 'n monitor_state =
  ms_db :: database
  ms_mail :: 'n

definition alert_query :: "PriceAlert \<Rightarrow> date \<Rightarrow> FlightSearchQuery" where
  "alert_query alert departure =
     \<lparr>q_origin = a_origin alert, q_destination = a_destination alert, q_departure_date = departure,
      q_adults = 1, q_cabin_class = ''economy''\<rparr>"

definition cheapest_price :: "FlightProvider list \<Rightarrow> PriceAlert \<Rightarrow> int option result" where
  "cheapest_price providers alert =
     (case date_fromisoformat (a_departure_date alert) of
        None \<Rightarrow> Inr None
      | Some departure \<Rightarrow>
          bind_result (search providers (alert_query alert departure) PRICE None 1 None) (\<lambda>result.
            Inr (case items result of [] \<Rightarrow> None | r # rs \<Rightarrow> Some (amount_minor (price (flight r))))))"

definition notify_subject :: "PriceAlert \<Rightarrow> string" where
  "notify_subject alert = ''Price drop: '' @ a_origin alert @ '' to '' @ a_destination alert"

definition notify_body :: "PriceAlert \<Rightarrow> int \<Rightarrow> string" where
  "notify_body alert price_minor =
     ''A fare of '' @ format_fixed 2 (int_truediv price_minor 100) @ '' '' @ a_currency alert @ '' is now available ''
     @ ''for '' @ a_origin alert @ ''-'' @ a_destination alert @ '' on '' @ a_departure_date alert @ '', ''
     @ ''below your target of '' @ format_fixed 2 (int_truediv (a_target_amount_minor alert) 100) @ '' ''
     @ a_currency alert @ ''.''"

definition notify ::
  "(string \<Rightarrow> string \<Rightarrow> string \<Rightarrow> 'n \<Rightarrow> unit result \<times> 'n) \<Rightarrow> User \<Rightarrow> PriceAlert \<Rightarrow> int
   \<Rightarrow> 'n monitor_state \<Rightarrow> unit result \<times> 'n monitor_state" where
  "notify send user alert price_minor st =
     (case send (u_email user) (notify_subject alert) (notify_body alert price_minor) (ms_mail st) of
        (r, n) \<Rightarrow> (r, st\<lparr>ms_mail := n\<rparr>))"

text \<open>\<open>alert.is_active = False; alert.triggered_at = now\<close>, as the commit writes it.\<close>

definition triggered_row :: "int \<Rightarrow> PriceAlert \<Rightarrow> PriceAlert" where
  "triggered_row now alert = alert\<lparr>a_is_active := False, a_triggered_at := Some now, a_updated_at := now\<rparr>"

definition deactivate :: "int \<Rightarrow> PriceAlert \<Rightarrow> database \<Rightarrow> database" where
  "deactivate now alert db =
     db\<lparr>price_alerts := map (\<lambda>a. if a_id a = a_id alert then triggered_row now a else a) (price_alerts db)\<rparr>"

definition check_alert ::
  "FlightProvider list \<Rightarrow> (string \<Rightarrow> string \<Rightarrow> string \<Rightarrow> 'n \<Rightarrow> unit result \<times> 'n) \<Rightarrow> int \<Rightarrow> PriceAlert
   \<Rightarrow> 'n monitor_state \<Rightarrow> bool result \<times> 'n monitor_state" where
  "check_alert providers send now alert =
     bind_state (lift_result (cheapest_price providers alert)) (\<lambda>cheapest.
       case cheapest of
         None \<Rightarrow> return_state False
       | Some c \<Rightarrow>
           if a_target_amount_minor alert < c then return_state False
           else bind_state
             (\<lambda>st. case get_by_id (a_user_id alert) (ms_db st) of
                     None \<Rightarrow> (Inr (), st)
                   | Some user \<Rightarrow> notify send user alert c st)
             (\<lambda>_ st. (Inr True, st\<lparr>ms_db := deactivate now alert (ms_db st)\<rparr>)))"

fun check_all ::
  "FlightProvider list \<Rightarrow> (string \<Rightarrow> string \<Rightarrow> string \<Rightarrow> 'n \<Rightarrow> unit result \<times> 'n) \<Rightarrow> int \<Rightarrow> PriceAlert list \<Rightarrow> int
   \<Rightarrow> 'n monitor_state \<Rightarrow> int result \<times> 'n monitor_state" where
  "check_all providers send now [] hits st = (Inr hits, st)"
| "check_all providers send now (alert # alerts) hits st =
     bind_state (check_alert providers send now alert)
       (\<lambda>hit. check_all providers send now alerts (if hit then hits + 1 else hits)) st"

definition run_once ::
  "FlightProvider list \<Rightarrow> (string \<Rightarrow> string \<Rightarrow> string \<Rightarrow> 'n \<Rightarrow> unit result \<times> 'n) \<Rightarrow> int
   \<Rightarrow> 'n monitor_state \<Rightarrow> MonitorReport result \<times> 'n monitor_state" where
  "run_once providers send now st =
     (let active = list_active (ms_db st)
      in bind_state (check_all providers send now active 0)
           (\<lambda>hits. return_state \<lparr>checked = int (length active), triggered = hits\<rparr>) st)"

text \<open>The Celery task: the session is committed when the run returns and dropped when it raises.\<close>

definition monitor_prices ::
  "FlightProvider list \<Rightarrow> (string \<Rightarrow> string \<Rightarrow> string \<Rightarrow> 'n \<Rightarrow> unit result \<times> 'n) \<Rightarrow> int
   \<Rightarrow> 'n monitor_state \<Rightarrow> int result \<times> 'n monitor_state" where
  "monitor_prices providers send now st =
     (case run_once providers send now st of
        (Inr report, st') \<Rightarrow> (Inr (triggered report), st')
      | (Inl e, st') \<Rightarrow> (Inl e, st'\<lparr>ms_db := ms_db st\<rparr>))"


section \<open>The cheapest fare\<close>

text \<open>The offers for an alert's route and date; none when the date does not parse.\<close>

definition alert_offers :: "FlightProvider list \<Rightarrow> PriceAlert \<Rightarrow> NormalizedFlight list" where
  "alert_offers providers alert =
     (case date_fromisoformat (a_departure_date alert) of
        None \<Rightarrow> []
      | Some departure \<Rightarrow> offers providers (alert_query alert departure))"

definition min_cost :: "NormalizedFlight list \<Rightarrow> int option" where
  "min_cost fs = (if fs = [] then None else Some (Min (flight_cost ` set fs)))"

lemma min_cost_dedupe: "min_cost (dedupe fs) = min_cost fs"
proof (cases "fs = []")
  case False
  then obtain f where "f \<in> set fs" by (cases fs) auto
  then have ne: "dedupe fs \<noteq> []" using fd.dedupe_covers [of f fs] by auto
  have "Min (flight_cost ` set (dedupe fs)) = Min (flight_cost ` set fs)"
  proof (rule antisym)
    show "Min (flight_cost ` set (dedupe fs)) \<le> Min (flight_cost ` set fs)"
      using False fd.dedupe_covers [of _ fs] by (auto intro!: Min.boundedI) (meson Min_le finite_imageI finite_set imageI order_trans)
    show "Min (flight_cost ` set fs) \<le> Min (flight_cost ` set (dedupe fs))"
      using ne fd.dedupe_least(1) [of _ fs] by (auto intro!: Min.boundedI)
  qed
  then show ?thesis using False ne by (simp add: min_cost_def)
qed (simp add: dedupe_def min_cost_def)

lemma default_filters_match: "filter (matches (effective_filters None)) fs = fs"
  by (simp add: effective_filters_def default_filters_def matches_def filter_id_conv)

lemma ranked_offers_flights: "map flight (ranked_offers providers query None) = dedupe (offers providers query)"
  by (simp add: ranked_offers_def default_filters_match)

lemma hd_sort_key_Min:
  assumes "xs \<noteq> []" shows "f (hd (sort_key f xs)) = Min (f ` set xs)"
proof -
  obtain y ys where y: "sort_key f xs = y # ys"
    using assms by (metis length_0_conv length_sort neq_Nil_conv)
  then have "set xs = set (y # ys)" using set_sort [of f xs] by simp
  moreover have "\<forall>z \<in> set ys. f y \<le> f z" using sorted_sort_key [of f xs] by (simp add: y)
  ultimately have "Min (f ` set xs) = f y" by (auto intro!: Min_eqI)
  then show ?thesis by (simp add: y)
qed

lemma cheapest_price_eq: "cheapest_price providers alert = Inr (min_cost (alert_offers providers alert))"
proof (cases "date_fromisoformat (a_departure_date alert)")
  case None
  then show ?thesis by (simp add: cheapest_price_def alert_offers_def min_cost_def)
next
  case (Some d)
  let ?q = "alert_query alert d"
  let ?rs = "ranked_offers providers ?q None"
  have sorted: "sort_key (flight_order PRICE) ?rs = sort_key (\<lambda>r. flight_cost (flight r)) ?rs"
    by (simp add: flight_order_def [abs_def] sort_key_of_int)
  have "decode_cursor None = 0" by (simp add: decode_cursor_def)
  then have s: "\<exists>res. search providers ?q PRICE None 1 None = Inr res
      \<and> items res = take 1 (sort_key (\<lambda>r. flight_cost (flight r)) ?rs)"
    using search_ok [of PRICE providers ?q None 1 None] sorted paginate_page [of 1 "sort_key (flight_order PRICE) ?rs" None]
    by (simp add: comparable_def Let_def)
  have costs: "flight_cost ` set (dedupe (offers providers ?q)) = (\<lambda>r. flight_cost (flight r)) ` set ?rs"
    by (metis image_image list.set_map ranked_offers_flights)
  have empty: "dedupe (offers providers ?q) = [] \<longleftrightarrow> ?rs = []" by (metis map_is_Nil_conv ranked_offers_flights)
  have "(case take 1 (sort_key (\<lambda>r. flight_cost (flight r)) ?rs) of [] \<Rightarrow> None | r # rs \<Rightarrow> Some (flight_cost (flight r)))
      = min_cost (dedupe (offers providers ?q))"
  proof (cases "?rs = []")
    case True
    then show ?thesis using empty by (simp add: min_cost_def)
  next
    case False
    then obtain y ys where y: "sort_key (\<lambda>r. flight_cost (flight r)) ?rs = y # ys"
      by (metis length_0_conv length_sort neq_Nil_conv)
    then show ?thesis
      using hd_sort_key_Min [OF False, of "\<lambda>r. flight_cost (flight r)"] False empty costs by (simp add: min_cost_def)
  qed
  with s Some show ?thesis
    by (auto simp: cheapest_price_def alert_offers_def min_cost_dedupe)
qed

text \<open>An alert is met when some offer of its route and date costs at most the target.\<close>

definition met :: "FlightProvider list \<Rightarrow> PriceAlert \<Rightarrow> bool" where
  "met providers alert \<longleftrightarrow> (\<exists>f \<in> set (alert_offers providers alert). flight_cost f \<le> a_target_amount_minor alert)"

lemma met_min_cost:
  "met providers alert \<longleftrightarrow> (\<exists>c. min_cost (alert_offers providers alert) = Some c \<and> c \<le> a_target_amount_minor alert)"
  by (auto simp: met_def min_cost_def Min_le_iff)


section \<open>One run\<close>

text \<open>What a run mails for an alert that is met: nothing when the owner's row is gone.\<close>

definition alert_mail :: "FlightProvider list \<Rightarrow> database \<Rightarrow> PriceAlert \<Rightarrow> mail list" where
  "alert_mail providers db alert =
     (case get_by_id (a_user_id alert) db of
        None \<Rightarrow> []
      | Some u \<Rightarrow> [(u_email u, notify_subject alert,
                    notify_body alert (the (min_cost (alert_offers providers alert))))])"

lemma get_by_id_deactivate [simp]: "get_by_id i (deactivate now a db) = get_by_id i db"
  by (simp add: get_by_id_def deactivate_def)

lemma check_alert_console:
  "check_alert providers console_send now alert st =
     (Inr (met providers alert),
      if met providers alert
      then st\<lparr>ms_mail := ms_mail st @ alert_mail providers (ms_db st) alert,
              ms_db := deactivate now alert (ms_db st)\<rparr>
      else st)"
  by (auto simp: check_alert_def cheapest_price_eq bind_state_def lift_result_def return_state_def met_min_cost
      alert_mail_def notify_def console_send_def split: option.split)

lemma alert_mail_deactivate [simp]: "alert_mail providers (deactivate now a db) = alert_mail providers db"
  by (rule ext) (simp add: alert_mail_def)

text \<open>Deactivating a list of alerts, in order.\<close>

definition deactivate_all :: "int \<Rightarrow> PriceAlert list \<Rightarrow> database \<Rightarrow> database" where
  "deactivate_all now alerts db =
     db\<lparr>price_alerts := map (\<lambda>a. if a_id a \<in> a_id ` set alerts then triggered_row now a else a) (price_alerts db)\<rparr>"

lemma triggered_row_idem [simp]: "triggered_row now (triggered_row now a) = triggered_row now a" "a_id (triggered_row now a) = a_id a"
  by (simp_all add: triggered_row_def)

lemma deactivate_all_Cons: "deactivate_all now (a # as) db = deactivate_all now as (deactivate now a db)"
  by (auto simp: deactivate_all_def deactivate_def)

lemma deactivate_all_Nil [simp]: "deactivate_all now [] db = db"
  by (simp add: deactivate_all_def)

lemma check_all_console:
  "check_all providers console_send now alerts hits st =
     (Inr (hits + int (length (filter (met providers) alerts))),
      st\<lparr>ms_mail := ms_mail st @ concat (map (alert_mail providers (ms_db st)) (filter (met providers) alerts)),
         ms_db := deactivate_all now (filter (met providers) alerts) (ms_db st)\<rparr>)"
proof (induction alerts arbitrary: hits st)
  case (Cons a alerts)
  then show ?case by (simp add: bind_state_def check_alert_console deactivate_all_Cons)
qed simp

lemma run_once_console:
  "run_once providers console_send now st =
     (let hit = filter (met providers) (list_active (ms_db st))
      in (Inr \<lparr>checked = int (length (list_active (ms_db st))), triggered = int (length hit)\<rparr>,
          st\<lparr>ms_mail := ms_mail st @ concat (map (alert_mail providers (ms_db st)) hit),
             ms_db := deactivate_all now hit (ms_db st)\<rparr>))"
  by (simp add: run_once_def check_all_console bind_state_def return_state_def Let_def)

lemma met_triggered_row [simp]: "met providers (triggered_row now a) = met providers a"
  by (simp add: met_def alert_offers_def triggered_row_def alert_query_def split: option.split)

lemma deactivate_all_hits:
  assumes "distinct (map a_id (price_alerts db))"
  shows "price_alerts (deactivate_all now (filter P (list_active db)) db)
       = map (\<lambda>a. if a_is_active a \<and> P a then triggered_row now a else a) (price_alerts db)"
proof -
  have "a_id a \<in> a_id ` set (filter P (list_active db)) \<longleftrightarrow> a_is_active a \<and> P a" if "a \<in> set (price_alerts db)" for a
    using assms that by (auto simp: list_active_def distinct_map inj_on_def)
  then show ?thesis by (simp add: deactivate_all_def)
qed


section \<open>Properties\<close>


text \<open>An example: one alert on a route that the example provider serves for 100.00.\<close>

definition example_alert :: "uuid \<Rightarrow> int \<Rightarrow> string \<Rightarrow> PriceAlert" where
  "example_alert i target currency_code =
     \<lparr>a_id = i, a_user_id = 7, a_origin = ''THR'', a_destination = ''IST'', a_departure_date = ''2026-08-10'',
      a_target_amount_minor = target, a_currency = currency_code, a_channel = EMAIL, a_is_active = True,
      a_triggered_at = None, a_created_at = 0, a_updated_at = 0\<rparr>"

definition alert_user :: User where
  "alert_user =
     \<lparr>u_id = 7, u_email = ''ann@x.org'', u_hashed_password = [], u_full_name = None, u_role = USER,
      u_is_active = True, u_is_verified = False, u_created_at = 0, u_updated_at = 0\<rparr>"

definition alert_db :: "PriceAlert list \<Rightarrow> database" where
  "alert_db alerts = empty_database\<lparr>users := [alert_user], price_alerts := alerts\<rparr>"

definition fare_provider :: FlightProvider where
  "fare_provider = \<lparr>fp_name = ''a'', fp_search = (\<lambda>q. Inr [example_flight ''f1'' ''KLM'' 10000 0])\<rparr>"

lemma example_date: "date_fromisoformat ''2026-08-10'' = Some (Date 2026 8 10)"
  by code_simp

lemma example_offers: "alert_offers [fare_provider] (example_alert i t c) = [example_flight ''f1'' ''KLM'' 10000 0]"
  by (simp add: alert_offers_def example_alert_def example_date offers_def fare_provider_def answer_def)

lemma example_met: "met [fare_provider] (example_alert i t c) \<longleftrightarrow> 10000 \<le> t"
  by (simp add: met_def example_offers) (simp add: example_alert_def example_flight_def)

lemma alert_db_ok: "distinct (map a_id alerts) \<Longrightarrow> list_all (\<lambda>a. a_user_id a = 7) alerts \<Longrightarrow> db_ok (alert_db alerts)"
proof -
  have "str_lower ''ann@x.org'' = ''ann@x.org''" by code_simp
  then show "distinct (map a_id alerts) \<Longrightarrow> list_all (\<lambda>a. a_user_id a = 7) alerts \<Longrightarrow> db_ok (alert_db alerts)"
    by (simp add: db_ok_def alert_db_def alert_user_def empty_database_def list_all_iff)
qed


text \<open>
  The comparison ignores currencies.  An alert for 100 euros is triggered by a fare of 100 US dollars, and
  the mail to its owner calls the fare \<open>100.00 EUR\<close>.
\<close>

lemma monitor_ignores_currency:
  "let st = \<lparr>ms_db = alert_db [example_alert 1 10000 ''EUR''], ms_mail = []\<rparr>;
       offer = example_flight ''f1'' ''KLM'' 10000 0
   in alert_offers [fare_provider] (example_alert 1 10000 ''EUR'') = [offer] \<and> currency (price offer) = ''USD''
    \<and> (\<exists>st' rest. run_once [fare_provider] console_send 5 st = (Inr \<lparr>checked = 1, triggered = 1\<rparr>, st')
         \<and> ms_mail st' = [(''ann@x.org'', ''Price drop: THR to IST'', ''A fare of 100.00 EUR is now available'' @ rest)])"
proof -
  let ?st = "\<lparr>ms_db = alert_db [example_alert 1 10000 ''EUR''], ms_mail = [] :: mail list\<rparr>"
  have act: "list_active (ms_db ?st) = [example_alert 1 10000 ''EUR'']"
    by (simp add: list_active_def alert_db_def) (simp add: example_alert_def)
  have cents: "format_fixed 2 (int_truediv 10000 100) = ''100.00''"
  proof -
    have "format_fixed 2 (int_truediv 10000 100) = nat_str (nat 10000 div 100) @ ''.'' @ zero_pad 2 (nat 10000 mod 100)"
      by (rule format_cents) simp_all
    moreover have "nat_str 100 = ''100''" "zero_pad 2 0 = ''00''" by code_simp+
    ultimately show ?thesis by simp
  qed
  have mail: "\<exists>rest. alert_mail [fare_provider] (alert_db [example_alert 1 10000 ''EUR'']) (example_alert 1 10000 ''EUR'')
      = [(''ann@x.org'', ''Price drop: THR to IST'', ''A fare of 100.00 EUR is now available'' @ rest)]"
    unfolding alert_mail_def example_offers
    by (simp add: alert_db_def get_by_id_def alert_user_def example_alert_def notify_subject_def notify_body_def
        min_cost_def example_flight_def cents)
  then show ?thesis
    using run_once_console [of "[fare_provider]" 5 ?st] unfolding act
    by (auto simp: Let_def example_met example_offers example_flight_def)
qed

text \<open>
  A failing mail server undoes the whole run but not the mails already sent.  When the notifier raises
  at some alert, the task raises and no alert is deactivated, so the next run mails the owners of the
  earlier alerts again.
\<close>

definition one_mail_send :: "string \<Rightarrow> string \<Rightarrow> string \<Rightarrow> mail list \<Rightarrow> unit result \<times> mail list" where
  "one_mail_send to_addr subject body sent =
     (if sent = [] then console_send to_addr subject body sent else (Inl (TransportError ''421''), sent))"

lemma check_alert_one_mail:
  assumes "min_cost (alert_offers providers alert) = Some c" "c \<le> a_target_amount_minor alert"
    and "get_by_id (a_user_id alert) (ms_db st) = Some u"
  shows "check_alert providers one_mail_send now alert st =
    (if ms_mail st = []
     then (Inr True, st\<lparr>ms_mail := [(u_email u, notify_subject alert, notify_body alert c)], ms_db := deactivate now alert (ms_db st)\<rparr>)
     else (Inl (TransportError ''421''), st))"
  using assms
  by (simp add: check_alert_def cheapest_price_eq bind_state_def lift_result_def notify_def one_mail_send_def console_send_def)

lemma monitor_failure_resends:
  "\<exists>m st1 st2. monitor_prices [fare_provider] one_mail_send 5
       \<lparr>ms_db = alert_db [example_alert 1 10000 ''USD'', example_alert 2 20000 ''USD''], ms_mail = []\<rparr>
       = (Inl (TransportError ''421''), st1)
    \<and> ms_db st1 = alert_db [example_alert 1 10000 ''USD'', example_alert 2 20000 ''USD''] \<and> ms_mail st1 = [m]
    \<and> monitor_prices [fare_provider] console_send 6 st1 = (Inr 2, st2) \<and> (\<exists>m'. ms_mail st2 = [m, m, m'])"
proof -
  let ?a = "example_alert 1 10000 ''USD''" and ?b = "example_alert 2 20000 ''USD''"
  let ?db = "alert_db [?a, ?b]" and ?m = "\<lambda>a. (u_email alert_user, notify_subject a, notify_body a 10000)"
  have cost: "min_cost (alert_offers [fare_provider] (example_alert i t c)) = Some 10000" for i t c
    by (simp add: example_offers min_cost_def example_flight_def)
  have user: "get_by_id (a_user_id (example_alert i t c)) (deactivate now x ?db) = Some alert_user"
    "get_by_id (a_user_id (example_alert i t c)) ?db = Some alert_user" for i t c now x
    by (simp_all add: get_by_id_def alert_db_def example_alert_def alert_user_def deactivate_def)
  have act: "list_active ?db = [?a, ?b]" by (simp add: list_active_def alert_db_def) (simp add: example_alert_def)
  have target: "a_target_amount_minor ?a = 10000" "a_target_amount_minor ?b = 20000" by (simp_all add: example_alert_def)
  have one: "monitor_prices [fare_provider] one_mail_send 5 \<lparr>ms_db = ?db, ms_mail = []\<rparr>
      = (Inl (TransportError ''421''), \<lparr>ms_db = ?db, ms_mail = [?m ?a]\<rparr>)"
    by (simp add: monitor_prices_def run_once_def Let_def act bind_state_def target
        check_alert_one_mail [OF cost, where u = alert_user] user)
  have mails: "alert_mail [fare_provider] ?db (example_alert i t c) = [?m (example_alert i t c)]" for i t c
    by (simp add: alert_mail_def user cost)
  have two: "monitor_prices [fare_provider] console_send 6 \<lparr>ms_db = ?db, ms_mail = [?m ?a]\<rparr>
      = (Inr 2, \<lparr>ms_db = deactivate_all 6 [?a, ?b] ?db, ms_mail = [?m ?a, ?m ?a, ?m ?b]\<rparr>)"
    by (simp add: monitor_prices_def run_once_console Let_def act example_met mails)
  show ?thesis using one two by auto
qed

end
