(* ===== verification/Workers.thy ===== *)
theory Workers
  imports Database Settings_Model Py_Json
begin

text \<open>
  The periodic clean-up of \<^verbatim>\<open>app/workers/tasks.py\<close> and the schedule of
  \<^verbatim>\<open>app/workers/celery_app.py\<close>.  The price monitor task is in \<open>Price_Monitor\<close>.  Times are
  microseconds since the epoch; a \<open>datetime\<close> holds the years 1 to 9999 and a \<open>timedelta\<close> less than \<open>10^9\<close> days.
\<close>

definition DATETIME_MIN :: int where "DATETIME_MIN = - 62135596800000000"
definition DATETIME_MAX :: int where "DATETIME_MAX = 253402300799999999"

text \<open>\<open>datetime.now(UTC) - timedelta(days=retention_days)\<close>\<close>

definition audit_cutoff :: "int \<Rightarrow> int \<Rightarrow> int result" where
  "audit_cutoff t_now retention_days =
     (if 999999999 < \<bar>retention_days\<bar> then Inl OverflowError
      else let c = t_now - retention_days * 86400000000
           in if c < DATETIME_MIN \<or> DATETIME_MAX < c then Inl OverflowError else Inr c)"

text \<open>The task returns the number of deleted rows; the deletion is committed on its own.\<close>

definition cleanup_audit_log :: "int \<Rightarrow> int \<Rightarrow> database \<Rightarrow> int result \<times> database" where
  "cleanup_audit_log t_now retention_days db =
     (case audit_cutoff t_now retention_days of
        Inl e \<Rightarrow> (Inl e, db)
      | Inr cutoff \<Rightarrow>
          (Inr (int (length (filter (\<lambda>l. l_created_at l < cutoff) (audit_log db)))),
           db\<lparr>audit_log := filter (\<lambda>l. \<not> l_created_at l < cutoff) (audit_log db)\<rparr>))"

definition DEFAULT_RETENTION_DAYS :: int where "DEFAULT_RETENTION_DAYS = 90"

definition celery_broker :: "Settings \<Rightarrow> string" where
  "celery_broker settings = (case redis_url settings of None \<Rightarrow> ''memory://'' | Some url \<Rightarrow> url)"

text \<open>Name, task and period in seconds.\<close>

definition beat_schedule :: "(string \<times> string \<times> pyfloat) list" where
  "beat_schedule =
     [(''monitor-prices-every-15-min'', ''app.workers.tasks.monitor_prices'', 900),
      (''cleanup-audit-log-daily'', ''app.workers.tasks.cleanup_audit_log'', 86400)]"

lemma cleanup_ok: "db_ok db \<Longrightarrow> db_ok (snd (cleanup_audit_log t n db))"
  by (auto simp: cleanup_audit_log_def db_ok_def split: sum.split)

text \<open>
  The audit log clean-up.  Running every day with the default retention, the task never fails; each run
  deletes exactly the entries older than 90 days and keeps all others in their order, reports how many it
  deleted, leaves the other tables alone, and a run that follows within the same moment finds nothing to do.
  An entry therefore survives as long as every run happens less than 90 days after it was written.
\<close>

lemma cleanup_exact:
  assumes "0 \<le> t_now" and "t_now \<le> DATETIME_MAX"
  shows "\<exists>n db'. cleanup_audit_log t_now DEFAULT_RETENTION_DAYS db = (Inr n, db')
    \<and> audit_log db' = filter (\<lambda>l. t_now - 90 * 86400000000 \<le> l_created_at l) (audit_log db)
    \<and> n = int (length (audit_log db)) - int (length (audit_log db'))
    \<and> users db' = users db \<and> price_alerts db' = price_alerts db \<and> search_history db' = search_history db
    \<and> cleanup_audit_log t_now DEFAULT_RETENTION_DAYS db' = (Inr 0, db')"
proof -
  let ?c = "t_now - 90 * 86400000000"
  have c: "audit_cutoff t_now DEFAULT_RETENTION_DAYS = Inr ?c"
    using assms by (simp add: audit_cutoff_def DEFAULT_RETENTION_DAYS_def DATETIME_MIN_def DATETIME_MAX_def Let_def)
  let ?db = "db\<lparr>audit_log := filter (\<lambda>l. \<not> l_created_at l < ?c) (audit_log db)\<rparr>"
  have count: "int (length (filter (\<lambda>l. l_created_at l < ?c) (audit_log db)))
      = int (length (audit_log db)) - int (length (audit_log ?db))"
    using sum_length_filter_compl [of "\<lambda>l. l_created_at l < ?c" "audit_log db"] by simp
  have kept: "audit_log ?db = filter (\<lambda>l. ?c \<le> l_created_at l) (audit_log db)" by (simp add: not_less)
  have run: "cleanup_audit_log t_now DEFAULT_RETENTION_DAYS db
      = (Inr (int (length (filter (\<lambda>l. l_created_at l < ?c) (audit_log db)))), ?db)"
    by (simp add: cleanup_audit_log_def c)
  have again: "cleanup_audit_log t_now DEFAULT_RETENTION_DAYS ?db = (Inr 0, ?db)"
    by (simp add: cleanup_audit_log_def c filter_empty_conv)
  show ?thesis using run count kept again by (intro exI conjI) (assumption | simp)+
qed

lemma cleanup_exact_example:
  "\<exists>n db'. cleanup_audit_log 1790000000000000 DEFAULT_RETENTION_DAYS
      \<lparr>users = [], search_history = [], price_alerts = [], audit_log =
        [\<lparr>l_id = 1, l_actor_id = None, l_action = ''user.login'', l_detail = [], l_ip_address = None, l_created_at = 0\<rparr>]\<rparr> = (Inr n, db')
    \<and> audit_log db' = []"
  using cleanup_exact [of 1790000000000000 "\<lparr>users = [], search_history = [], price_alerts = [], audit_log =
        [\<lparr>l_id = 1, l_actor_id = None, l_action = ''user.login'', l_detail = [], l_ip_address = None, l_created_at = 0\<rparr>]\<rparr>"]
  by (auto simp: DATETIME_MAX_def)

end
