(* ===== verification/Migration.thy ===== *)
theory Migration
  imports App_Errors
begin

text \<open>
  The database schema, twice: as the migration
  \<^verbatim>\<open>alembic/versions/20260730_0812_a77395e94755_initial_schema.py\<close> builds it with Alembic
  operations, and as \<^verbatim>\<open>app/prestart.py\<close> creates it from the ORM classes of
  \<^verbatim>\<open>app/db/models.py\<close> and the mixins of \<^verbatim>\<open>app/db/base.py\<close>.
\<close>

section \<open>Schemas and their operations\<close>

datatype column_type = Uuid | String nat | Enum "string list" nat | Boolean | Integer | DateTime bool

record column =
  c_name :: string
  c_type :: column_type
  c_nullable :: bool
  c_server_now :: bool \<comment> \<open>\<open>CURRENT_TIMESTAMP\<close> as the server default\<close>

datatype foreign_key = ForeignKey (fk_column: string) (fk_table: string) (fk_target: string) (fk_ondelete: string)

record table =
  t_columns :: "column list"
  t_primary_key :: "string list"
  t_foreign_keys :: "foreign_key list"

record index =
  i_table :: string
  i_columns :: "string list"
  i_unique :: bool

record schema =
  tables :: "(string, table) dict"
  indexes :: "(string, index) dict"

definition empty_schema :: schema where "empty_schema = \<lparr>tables = [], indexes = []\<rparr>"

definition ddl_error :: "string \<Rightarrow> exn" where "ddl_error m = PyError ''ProgrammingError'' m"

definition has_columns :: "schema \<Rightarrow> string \<Rightarrow> string list \<Rightarrow> bool" where
  "has_columns s t cols =
     (case dict_get (tables s) t of
        None \<Rightarrow> False
      | Some tb \<Rightarrow> list_all (\<lambda>c. c \<in> set (map c_name (t_columns tb))) cols)"

text \<open>The statements of the database: each fails instead of leaving a dangling reference.\<close>

definition create_table :: "string \<Rightarrow> table \<Rightarrow> schema \<Rightarrow> schema result" where
  "create_table name tb s =
     (if dict_get (tables s) name \<noteq> None then Inl (ddl_error ''table already exists'')
      else if \<not> list_all (\<lambda>k. has_columns s (fk_table k) [fk_target k]) (t_foreign_keys tb)
      then Inl (ddl_error ''referenced table or column does not exist'')
      else Inr (s\<lparr>tables := tables s @ [(name, tb)]\<rparr>))"

definition create_index :: "string \<Rightarrow> string \<Rightarrow> string list \<Rightarrow> bool \<Rightarrow> schema \<Rightarrow> schema result" where
  "create_index name t cols uniq s =
     (if dict_get (indexes s) name \<noteq> None then Inl (ddl_error ''index already exists'')
      else if \<not> has_columns s t cols then Inl (ddl_error ''indexed table or column does not exist'')
      else Inr (s\<lparr>indexes := indexes s @ [(name, \<lparr>i_table = t, i_columns = cols, i_unique = uniq\<rparr>)]\<rparr>))"

definition drop_index :: "string \<Rightarrow> string \<Rightarrow> schema \<Rightarrow> schema result" where
  "drop_index name t s =
     (case dict_get (indexes s) name of
        None \<Rightarrow> Inl (ddl_error ''index does not exist'')
      | Some i \<Rightarrow> if i_table i = t then Inr (s\<lparr>indexes := dict_pop name (indexes s)\<rparr>)
                  else Inl (ddl_error ''index does not exist''))"

definition drop_table :: "string \<Rightarrow> schema \<Rightarrow> schema result" where
  "drop_table name s =
     (if dict_get (tables s) name = None then Inl (ddl_error ''table does not exist'')
      else if list_ex (\<lambda>(n, tb). n \<noteq> name \<and> list_ex (\<lambda>k. fk_table k = name) (t_foreign_keys tb)) (tables s)
      then Inl (ddl_error ''other objects depend on the table'')
      else Inr \<lparr>tables = dict_pop name (tables s),
                indexes = filter (\<lambda>(n, i). i_table i \<noteq> name) (indexes s)\<rparr>)"

fun run_ddl :: "(schema \<Rightarrow> schema result) list \<Rightarrow> schema \<Rightarrow> schema result" where
  "run_ddl [] s = Inr s"
| "run_ddl (f # fs) s = bind_result (f s) (run_ddl fs)"


section \<open>The migration\<close>

definition Column :: "string \<Rightarrow> column_type \<Rightarrow> bool \<Rightarrow> column" where
  "Column name ty nullable = \<lparr>c_name = name, c_type = ty, c_nullable = nullable, c_server_now = False\<rparr>"

definition timestamp_columns :: "column list" where
  "timestamp_columns =
     [(Column ''created_at'' (DateTime True) False)\<lparr>c_server_now := True\<rparr>,
      (Column ''updated_at'' (DateTime True) False)\<lparr>c_server_now := True\<rparr>]"

definition create_audit_log :: "schema \<Rightarrow> schema result" where
  "create_audit_log = create_table ''audit_log''
     \<lparr>t_columns =
        [Column ''id'' Uuid False, Column ''actor_id'' Uuid True, Column ''action'' (String 64) False,
         Column ''detail'' (String 500) False, Column ''ip_address'' (String 45) True] @ timestamp_columns,
      t_primary_key = [''id''], t_foreign_keys = []\<rparr>"

definition create_users :: "schema \<Rightarrow> schema result" where
  "create_users = create_table ''users''
     \<lparr>t_columns =
        [Column ''id'' Uuid False, Column ''email'' (String 320) False, Column ''hashed_password'' (String 255) False,
         Column ''full_name'' (String 200) True, Column ''role'' (Enum [''USER'', ''ADMIN''] 16) False,
         Column ''is_active'' Boolean False, Column ''is_verified'' Boolean False] @ timestamp_columns,
      t_primary_key = [''id''], t_foreign_keys = []\<rparr>"

definition create_price_alerts :: "schema \<Rightarrow> schema result" where
  "create_price_alerts = create_table ''price_alerts''
     \<lparr>t_columns =
        [Column ''id'' Uuid False, Column ''user_id'' Uuid False, Column ''origin'' (String 3) False,
         Column ''destination'' (String 3) False, Column ''departure_date'' (String 10) False,
         Column ''target_amount_minor'' Integer False, Column ''currency'' (String 3) False,
         Column ''channel'' (Enum [''EMAIL'', ''PUSH''] 16) False, Column ''is_active'' Boolean False,
         Column ''triggered_at'' (DateTime True) True] @ timestamp_columns,
      t_primary_key = [''id''], t_foreign_keys = [ForeignKey ''user_id'' ''users'' ''id'' ''CASCADE'']\<rparr>"

definition create_search_history :: "schema \<Rightarrow> schema result" where
  "create_search_history = create_table ''search_history''
     \<lparr>t_columns =
        [Column ''id'' Uuid False, Column ''user_id'' Uuid False, Column ''origin'' (String 3) False,
         Column ''destination'' (String 3) False, Column ''departure_date'' (String 10) False,
         Column ''result_count'' Integer False, Column ''latency_ms'' Integer False] @ timestamp_columns,
      t_primary_key = [''id''], t_foreign_keys = [ForeignKey ''user_id'' ''users'' ''id'' ''CASCADE'']\<rparr>"

definition upgrade :: "schema \<Rightarrow> schema result" where
  "upgrade = run_ddl
     [create_audit_log,
      create_index ''ix_audit_log_action'' ''audit_log'' [''action''] False,
      create_index ''ix_audit_log_actor_id'' ''audit_log'' [''actor_id''] False,
      create_users,
      create_index ''ix_users_email'' ''users'' [''email''] True,
      create_price_alerts,
      create_index ''ix_price_alerts_user_id'' ''price_alerts'' [''user_id''] False,
      create_search_history,
      create_index ''ix_search_history_user_id'' ''search_history'' [''user_id''] False,
      create_index ''ix_search_route'' ''search_history'' [''origin'', ''destination''] False]"

definition downgrade :: "schema \<Rightarrow> schema result" where
  "downgrade = run_ddl
     [drop_index ''ix_search_route'' ''search_history'',
      drop_index ''ix_search_history_user_id'' ''search_history'',
      drop_table ''search_history'',
      drop_index ''ix_price_alerts_user_id'' ''price_alerts'',
      drop_table ''price_alerts'',
      drop_index ''ix_users_email'' ''users'',
      drop_table ''users'',
      drop_index ''ix_audit_log_actor_id'' ''audit_log'',
      drop_index ''ix_audit_log_action'' ''audit_log'',
      drop_table ''audit_log'']"


section \<open>The ORM metadata\<close>

text \<open>
  A \<open>mapped_column\<close>: its type, whether its annotation is optional, and the flags of the call.  Columns
  are ordered by \<open>sort_order\<close>, an enumeration is stored by its member names, and \<open>index=True\<close> creates the
  index \<open>ix_<table>_<column>\<close>, a unique one together with \<open>unique=True\<close>.
\<close>

record mapped_column =
  m_name :: string
  m_type :: column_type
  m_optional :: bool
  m_primary_key :: bool
  m_unique :: bool
  m_index :: bool
  m_server_now :: bool
  m_foreign_key :: "(string \<times> string \<times> string) option"
  m_sort_order :: int

definition mapped :: "string \<Rightarrow> column_type \<Rightarrow> bool \<Rightarrow> mapped_column" where
  "mapped name ty optional =
     \<lparr>m_name = name, m_type = ty, m_optional = optional, m_primary_key = False, m_unique = False,
      m_index = False, m_server_now = False, m_foreign_key = None, m_sort_order = 0\<rparr>"

definition UUIDPrimaryKeyMixin :: "mapped_column list" where
  "UUIDPrimaryKeyMixin = [(mapped ''id'' Uuid False)\<lparr>m_primary_key := True, m_sort_order := - 2\<rparr>]"

definition TimestampMixin :: "mapped_column list" where
  "TimestampMixin =
     [(mapped ''created_at'' (DateTime True) False)\<lparr>m_server_now := True, m_sort_order := 100\<rparr>,
      (mapped ''updated_at'' (DateTime True) False)\<lparr>m_server_now := True, m_sort_order := 101\<rparr>]"

definition owned_by_user :: mapped_column where
  "owned_by_user = (mapped ''user_id'' Uuid False)\<lparr>m_foreign_key := Some (''users'', ''id'', ''CASCADE''), m_index := True\<rparr>"

record orm_class =
  o_tablename :: string
  o_columns :: "mapped_column list"
  o_table_args :: "(string \<times> string list) list"

definition orm_User :: orm_class where
  "orm_User = \<lparr>o_tablename = ''users'',
     o_columns = UUIDPrimaryKeyMixin @ TimestampMixin @
       [(mapped ''email'' (String 320) False)\<lparr>m_unique := True, m_index := True\<rparr>,
        mapped ''hashed_password'' (String 255) False, mapped ''full_name'' (String 200) True,
        mapped ''role'' (Enum [''USER'', ''ADMIN''] 16) False, mapped ''is_active'' Boolean False,
        mapped ''is_verified'' Boolean False],
     o_table_args = []\<rparr>"

definition orm_SearchHistory :: orm_class where
  "orm_SearchHistory = \<lparr>o_tablename = ''search_history'',
     o_columns = UUIDPrimaryKeyMixin @ TimestampMixin @
       [owned_by_user, mapped ''origin'' (String 3) False, mapped ''destination'' (String 3) False,
        mapped ''departure_date'' (String 10) False, mapped ''result_count'' Integer False,
        mapped ''latency_ms'' Integer False],
     o_table_args = [(''ix_search_route'', [''origin'', ''destination''])]\<rparr>"

definition orm_PriceAlert :: orm_class where
  "orm_PriceAlert = \<lparr>o_tablename = ''price_alerts'',
     o_columns = UUIDPrimaryKeyMixin @ TimestampMixin @
       [owned_by_user, mapped ''origin'' (String 3) False, mapped ''destination'' (String 3) False,
        mapped ''departure_date'' (String 10) False, mapped ''target_amount_minor'' Integer False,
        mapped ''currency'' (String 3) False, mapped ''channel'' (Enum [''EMAIL'', ''PUSH''] 16) False,
        mapped ''is_active'' Boolean False, mapped ''triggered_at'' (DateTime True) True],
     o_table_args = []\<rparr>"

definition orm_AuditLog :: orm_class where
  "orm_AuditLog = \<lparr>o_tablename = ''audit_log'',
     o_columns = UUIDPrimaryKeyMixin @ TimestampMixin @
       [(mapped ''actor_id'' Uuid True)\<lparr>m_index := True\<rparr>, (mapped ''action'' (String 64) False)\<lparr>m_index := True\<rparr>,
        mapped ''detail'' (String 500) False, mapped ''ip_address'' (String 45) True],
     o_table_args = []\<rparr>"

definition table_of :: "orm_class \<Rightarrow> table" where
  "table_of c =
     (let cols = sort_key m_sort_order (o_columns c)
      in \<lparr>t_columns = map (\<lambda>m. \<lparr>c_name = m_name m, c_type = m_type m, c_nullable = m_optional m, c_server_now = m_server_now m\<rparr>) cols,
          t_primary_key = map m_name (filter m_primary_key cols),
          t_foreign_keys = List.map_filter
            (\<lambda>m. map_option (\<lambda>(t, target, del). ForeignKey (m_name m) t target del) (m_foreign_key m)) cols\<rparr>)"

definition indexes_of :: "orm_class \<Rightarrow> (string \<times> string list \<times> bool) list" where
  "indexes_of c =
     map (\<lambda>m. (''ix_'' @ o_tablename c @ ''_'' @ m_name m, [m_name m], m_unique m)) (filter m_index (o_columns c))
     @ map (\<lambda>(n, cols). (n, cols, False)) (o_table_args c)"

text \<open>\<open>create_all\<close> skips the tables that exist and creates the others with their indexes, referenced tables first.\<close>

definition create_missing :: "orm_class \<Rightarrow> schema \<Rightarrow> schema result" where
  "create_missing c s =
     (if dict_get (tables s) (o_tablename c) \<noteq> None then Inr s
      else run_ddl (create_table (o_tablename c) (table_of c)
             # map (\<lambda>(n, cols, uniq). create_index n (o_tablename c) cols uniq) (indexes_of c)) s)"

definition create_schema :: "schema \<Rightarrow> schema result" where
  "create_schema = run_ddl (map create_missing [orm_AuditLog, orm_User, orm_PriceAlert, orm_SearchHistory])"

text \<open>Two schemas with the same tables and indexes, in whatever order they were created.\<close>

definition same_schema :: "schema \<Rightarrow> schema \<Rightarrow> bool" where
  "same_schema a b \<longleftrightarrow> set (tables a) = set (tables b) \<and> set (indexes a) = set (indexes b)"


section \<open>Properties\<close>


end
