(* ===== verification/Py_ConfigParser.thy ===== *)
theory Py_ConfigParser
  imports App_Errors
begin

text \<open>
  The part of Python's \<open>configparser\<close> behind the options of an INI file: \<open>ConfigParser.set\<close>,
  \<open>get\<close> and \<open>items\<close> with \<open>BasicInterpolation\<close>.  A section is the dictionary of its raw
  options, merged over the defaults of the file, with option names in lower case.
\<close>

type_synonym ini = "(string, string) dict"

section \<open>Scanning\<close>

text \<open>\<open>value.replace("%%", "")\<close>\<close>

fun remove_pairs :: "string \<Rightarrow> string" where
  "remove_pairs [] = []"
| "remove_pairs [c] = [c]"
| "remove_pairs (c # d # s) =
     (if c = CHR ''%'' \<and> d = CHR ''%'' then remove_pairs s else c # remove_pairs (d # s))"

text \<open>A match of \<open>%\(([^)]+)\)s\<close> at the start of the text: the name and what follows.\<close>

definition match_key :: "string \<Rightarrow> (string \<times> string) option" where
  "match_key s =
     (case s of
        c # d # r \<Rightarrow>
          if c = CHR ''%'' \<and> d = CHR ''('' \<and> takeWhile (\<lambda>x. x \<noteq> CHR '')'') r \<noteq> []
          then (case dropWhile (\<lambda>x. x \<noteq> CHR '')'') r of
                  e # f # rest \<Rightarrow> if f = CHR ''s'' then Some (takeWhile (\<lambda>x. x \<noteq> CHR '')'') r, rest) else None
                | _ \<Rightarrow> None)
          else None
      | _ \<Rightarrow> None)"

lemma match_key_shorter: "match_key s = Some (name, rest) \<Longrightarrow> length rest < length s"
proof -
  assume m: "match_key s = Some (name, rest)"
  then obtain c d r e f where "s = c # d # r" "dropWhile (\<lambda>x. x \<noteq> CHR '')'') r = e # f # rest"
    by (auto simp: match_key_def split: list.splits if_splits)
  then show ?thesis using length_dropWhile_le [of "\<lambda>x. x \<noteq> CHR '')''" r] by simp
qed

text \<open>\<open>_KEYCRE.sub("", value)\<close>\<close>

function remove_keys :: "string \<Rightarrow> string" where
  "remove_keys [] = []"
| "remove_keys (c # s) =
     (case match_key (c # s) of None \<Rightarrow> c # remove_keys s | Some (name, rest) \<Rightarrow> remove_keys rest)"
  by pat_completeness auto
termination
  by (relation "measure length") (use match_key_shorter in force)+


section \<open>Interpolation\<close>

definition before_set :: "string \<Rightarrow> string result" where
  "before_set value =
     (if CHR ''%'' \<in> set (remove_keys (remove_pairs value)) then Inl (ValueError ''invalid interpolation syntax'')
      else Inr value)"

text \<open>
  The loop of \<open>_interpolate_some\<close>; \<open>nested\<close> is the recursive call on the value of an option that
  contains a percent sign.
\<close>

function interpolate_loop :: "(string \<Rightarrow> string result) \<Rightarrow> ini \<Rightarrow> string \<Rightarrow> string result" where
  "interpolate_loop nested opts [] = Inr []"
| "interpolate_loop nested opts (c # s) =
     (if c \<noteq> CHR ''%'' then bind_result (interpolate_loop nested opts s) (\<lambda>t. Inr (c # t))
      else case s of
        [] \<Rightarrow> Inl (PyError ''InterpolationSyntaxError'' (c # s))
      | d # s' \<Rightarrow>
          if d = CHR ''%'' then bind_result (interpolate_loop nested opts s') (\<lambda>t. Inr (CHR ''%'' # t))
          else if d = CHR ''('' then
            (case match_key (c # s) of
               None \<Rightarrow> Inl (PyError ''InterpolationSyntaxError'' (c # s))
             | Some (name, rest) \<Rightarrow>
                 (case dict_get opts (str_lower name) of
                    None \<Rightarrow> Inl (PyError ''InterpolationMissingOptionError'' name)
                  | Some v \<Rightarrow>
                      bind_result (if CHR ''%'' \<in> set v then nested v else Inr v) (\<lambda>w.
                      bind_result (interpolate_loop nested opts rest) (\<lambda>t. Inr (w @ t)))))
          else Inl (PyError ''InterpolationSyntaxError'' (c # s)))"
  by pat_completeness auto
termination
  by (relation "measure (\<lambda>(nested, opts, s). length s)") (use match_key_shorter in force)+

definition MAX_INTERPOLATION_DEPTH :: nat where "MAX_INTERPOLATION_DEPTH = 10"

primrec interpolate_some :: "nat \<Rightarrow> ini \<Rightarrow> string \<Rightarrow> string result" where
  "interpolate_some 0 opts rest = Inl (PyError ''InterpolationDepthError'' rest)"
| "interpolate_some (Suc n) opts rest = interpolate_loop (interpolate_some n opts) opts rest"

definition before_get :: "ini \<Rightarrow> string \<Rightarrow> string result" where
  "before_get opts value = interpolate_some MAX_INTERPOLATION_DEPTH opts value"


section \<open>Options\<close>

definition ini_set :: "string \<Rightarrow> string \<Rightarrow> ini \<Rightarrow> ini result" where
  "ini_set option value opts = bind_result (before_set value) (\<lambda>v. Inr (dict_set (str_lower option) v opts))"

definition ini_get :: "string \<Rightarrow> ini \<Rightarrow> string result" where
  "ini_get option opts =
     (case dict_get opts (str_lower option) of
        None \<Rightarrow> Inl (PyError ''NoOptionError'' option)
      | Some v \<Rightarrow> before_get opts v)"

definition ini_items :: "ini \<Rightarrow> ini result" where
  "ini_items opts = map_result (\<lambda>(k, v). bind_result (before_get opts v) (\<lambda>w. Inr (k, w))) opts"


section \<open>Round trips\<close>

lemma interpolate_plain: "CHR ''%'' \<notin> set v \<Longrightarrow> interpolate_loop nested opts v = Inr v"
  by (induction v) auto

lemma remove_pairs_skip: "c \<noteq> CHR ''%'' \<Longrightarrow> remove_pairs (c # s) = c # remove_pairs s"
  by (cases s) auto

lemma remove_pairs_plain: "CHR ''%'' \<notin> set v \<Longrightarrow> remove_pairs (v @ s) = v @ remove_pairs s"
  by (induction v) (auto simp: remove_pairs_skip)

lemma match_key_percent: "match_key (c # s) = Some (name, rest) \<Longrightarrow> c = CHR ''%'' \<and> s \<noteq> [] \<and> hd s = CHR ''(''"
  by (auto simp: match_key_def split: list.splits if_splits)

lemma remove_keys_plain: "CHR ''%'' \<notin> set v \<Longrightarrow> remove_keys (v @ s) = v @ remove_keys s"
proof (induction v)
  case (Cons c v)
  then have "match_key (c # v @ s) = None" using match_key_percent [of c "v @ s"] by (cases "match_key (c # v @ s)") auto
  with Cons show ?case by simp
qed simp

lemma before_get_plain: "CHR ''%'' \<notin> set v \<Longrightarrow> before_get opts v = Inr v"
  by (simp add: before_get_def MAX_INTERPOLATION_DEPTH_def numeral_eq_Suc interpolate_plain)

text \<open>A value without a percent sign is stored and read back as it is.\<close>

lemma ini_set_get_plain:
  assumes "CHR ''%'' \<notin> set v"
  shows "ini_set option v opts = Inr (dict_set (str_lower option) v opts)"
    and "ini_get option (dict_set (str_lower option) v opts) = Inr v"
proof -
  have "before_set v = Inr v"
    using assms remove_pairs_plain [of v "[]"] remove_keys_plain [of v "[]"] by (simp add: before_set_def)
  then show "ini_set option v opts = Inr (dict_set (str_lower option) v opts)" by (simp add: ini_set_def)
  show "ini_get option (dict_set (str_lower option) v opts) = Inr v" using assms by (simp add: ini_get_def before_get_plain)
qed

text \<open>A percent sign that starts neither an escape nor a reference, such as that of a percent-encoded character, is refused.\<close>

lemma before_set_lone_percent:
  assumes "CHR ''%'' \<notin> set a" "c \<noteq> CHR ''%''" "c \<noteq> CHR ''(''"
  shows "before_set (a @ CHR ''%'' # c # b) = Inl (ValueError ''invalid interpolation syntax'')"
proof -
  have "remove_pairs (CHR ''%'' # c # b) = CHR ''%'' # c # remove_pairs b"
    using assms(2) by (simp add: remove_pairs_skip)
  moreover have "match_key (CHR ''%'' # c # s) = None" for s
    using assms(3) match_key_percent [of "CHR ''%''" "c # s"] by (cases "match_key (CHR ''%'' # c # s)") auto
  ultimately have "CHR ''%'' \<in> set (remove_keys (remove_pairs (a @ CHR ''%'' # c # b)))"
    by (simp add: remove_pairs_plain [OF assms(1)] remove_keys_plain [OF assms(1)])
  then show ?thesis by (simp add: before_set_def)
qed

text \<open>The documented remedy: doubling the percent signs stores any value.\<close>

definition escape_percent :: "string \<Rightarrow> string" where
  "escape_percent v = concat (map (\<lambda>c. if c = CHR ''%'' then ''%%'' else [c]) v)"

lemma escape_percent_simps [simp]:
  "escape_percent [] = []"
  "escape_percent (c # v) = (if c = CHR ''%'' then CHR ''%'' # CHR ''%'' # escape_percent v else c # escape_percent v)"
  by (simp_all add: escape_percent_def)

lemma before_get_escaped: "before_get opts (escape_percent v) = Inr v"
proof -
  have "interpolate_loop nested opts (escape_percent v) = Inr v" for nested
    by (induction v) auto
  then show ?thesis by (simp add: before_get_def MAX_INTERPOLATION_DEPTH_def numeral_eq_Suc)
qed

lemma ini_set_get_escaped:
  "ini_set option (escape_percent v) opts = Inr (dict_set (str_lower option) (escape_percent v) opts)"
  "ini_get option (dict_set (str_lower option) (escape_percent v) opts) = Inr v"
proof -
  have "remove_pairs (escape_percent v) = filter (\<lambda>c. c \<noteq> CHR ''%'') v"
    by (induction v) (auto simp: remove_pairs_skip)
  then have "before_set (escape_percent v) = Inr (escape_percent v)"
    using remove_keys_plain [of "filter (\<lambda>c. c \<noteq> CHR ''%'') v" "[]"] by (simp add: before_set_def)
  then show "ini_set option (escape_percent v) opts = Inr (dict_set (str_lower option) (escape_percent v) opts)"
    by (simp add: ini_set_def)
  show "ini_get option (dict_set (str_lower option) (escape_percent v) opts) = Inr v"
    by (simp add: ini_get_def before_get_escaped)
qed

text \<open>\<open>items\<close> reads every option like \<open>get\<close>, when every one can be read.\<close>

lemma ini_items_readable:
  assumes "\<forall>(k, v) \<in> set opts. \<exists>w. before_get opts v = Inr w"
  shows "ini_items opts = Inr (map (\<lambda>(k, v). (k, projr (before_get opts v))) opts)"
    and "dict_get (map (\<lambda>(k, v). (k, projr (before_get opts v))) opts) k
       = map_option (\<lambda>v. projr (before_get opts v)) (dict_get opts k)"
proof -
  have "map_result (\<lambda>(k, v). bind_result (before_get opts v) (\<lambda>w. Inr (k, w))) xs
      = Inr (map (\<lambda>(k, v). (k, projr (before_get opts v))) xs)" if "set xs \<subseteq> set opts" for xs
    using that assms by (induction xs) fastforce+
  then show "ini_items opts = Inr (map (\<lambda>(k, v). (k, projr (before_get opts v))) opts)"
    by (simp add: ini_items_def)
qed (simp add: map_of_map)

end
