(* ===== verification/Lifecycle.thy ===== *)
theory Lifecycle
  imports Container Price_Monitor Workers Db_Engine
begin

text \<open>
  Starting and stopping: the cached settings of \<^verbatim>\<open>app/core/config.py\<close>, the logging set-up of
  \<^verbatim>\<open>app/core/logging.py\<close>, the release of the container, the lifespan of
  \<^verbatim>\<open>app/main.py\<close>, and the containers of the tasks of \<^verbatim>\<open>app/workers/tasks.py\<close> with the
  configuration of \<^verbatim>\<open>app/workers/celery_app.py\<close>.
\<close>

section \<open>The settings of a process\<close>

text \<open>
  \<open>get_settings\<close> under \<open>lru_cache\<close>: the first parse that succeeds is kept; \<open>parse\<close> is what \<open>Settings()\<close> does in
  the environment of the moment.
\<close>

definition get_settings :: "Settings result \<Rightarrow> Settings option \<Rightarrow> Settings result \<times> Settings option" where
  "get_settings parse cached =
     (case cached of
        Some s \<Rightarrow> (Inr s, cached)
      | None \<Rightarrow> (case parse of Inl e \<Rightarrow> (Inl e, None) | Inr s \<Rightarrow> (Inr s, Some s)))"

lemma get_settings_once:
  "fst (get_settings parse None) = Inr s \<Longrightarrow> fst (get_settings later (snd (get_settings parse None))) = Inr s"
  by (auto simp: get_settings_def split: sum.splits)


section \<open>Logging\<close>

datatype processor =
  MergeContextvars | AddLogLevel | TimeStamper string bool | AddRequestId | StackInfoRenderer | FormatExcInfo
| JSONRenderer | ConsoleRenderer bool

text \<open>\<open>logging.getLevelNamesMapping()\<close>\<close>

definition level_names :: "(string, int) dict" where
  "level_names =
     [(''CRITICAL'', 50), (''FATAL'', 50), (''ERROR'', 40), (''WARN'', 30), (''WARNING'', 30), (''INFO'', 20),
      (''DEBUG'', 10), (''NOTSET'', 0)]"

record logging_state =
  lg_processors :: "processor list"
  lg_min_level :: int
  lg_cache_on_first_use :: bool
  lg_root_to_stdout :: bool
  lg_levels :: "(string, int) dict" \<comment> \<open>the root logger has the empty name\<close>

definition shared_processors :: "processor list" where
  "shared_processors =
     [MergeContextvars, AddLogLevel, TimeStamper ''iso'' True, AddRequestId, StackInfoRenderer, FormatExcInfo]"

text \<open>\<open>setLevel\<close> refuses a name that is not a level, after \<open>structlog\<close> fell back to \<open>INFO\<close>.\<close>

definition configure_logging :: "bool \<Rightarrow> string \<Rightarrow> logging_state \<Rightarrow> unit result \<times> logging_state" where
  "configure_logging json_logs level lg =
     (let renderer = (if json_logs then JSONRenderer else ConsoleRenderer True);
          lg1 = lg\<lparr>lg_processors := shared_processors @ [renderer],
                   lg_min_level := (case dict_get level_names (str_upper level) of None \<Rightarrow> 20 | Some n \<Rightarrow> n),
                   lg_cache_on_first_use := True, lg_root_to_stdout := True\<rparr>
      in case dict_get level_names (str_upper level) of
           None \<Rightarrow> (Inl (ValueError (''Unknown level: '' @ str_upper level)), lg1)
         | Some n \<Rightarrow> (Inr (), lg1\<lparr>lg_levels :=
             dict_set ''sqlalchemy.engine'' 30 (dict_set ''uvicorn.access'' 30 (dict_set [] n (lg_levels lg1)))\<rparr>))"

text \<open>What \<open>create_app\<close> asks for.\<close>

definition app_logging :: "Settings \<Rightarrow> logging_state \<Rightarrow> unit result \<times> logging_state" where
  "app_logging settings = configure_logging (is_production settings) (if debug settings then ''DEBUG'' else ''INFO'')"

lemma app_logging_ok:
  "\<exists>lg'. app_logging settings lg = (Inr (), lg') \<and> last (lg_processors lg') = (if is_production settings then JSONRenderer else ConsoleRenderer True)
     \<and> AddRequestId \<in> set (lg_processors lg') \<and> lg_min_level lg' = (if debug settings then 10 else 20)
     \<and> dict_get (lg_levels lg') [] = Some (lg_min_level lg')
     \<and> dict_get (lg_levels lg') ''uvicorn.access'' = Some 30 \<and> dict_get (lg_levels lg') ''sqlalchemy.engine'' = Some 30"
proof -
  have "str_upper ''DEBUG'' = ''DEBUG''" "str_upper ''INFO'' = ''INFO''" by code_simp+
  then show ?thesis
    by (cases "debug settings")
       (simp_all add: app_logging_def configure_logging_def level_names_def shared_processors_def Let_def)
qed


section \<open>Releasing the container\<close>

datatype resource = HttpClient | DbEngine | RedisConnection

text \<open>Awaits one after the other: the first exception ends the release.  The list is what was tried.\<close>

fun close_each :: "(resource \<Rightarrow> unit result) \<Rightarrow> resource list \<Rightarrow> unit result \<times> resource list" where
  "close_each close [] = (Inr (), [])"
| "close_each close (r # rs) =
     (case close r of
        Inl e \<Rightarrow> (Inl e, [r])
      | Inr _ \<Rightarrow> (case close_each close rs of (x, tried) \<Rightarrow> (x, r # tried)))"

definition container_resources :: "'c container \<Rightarrow> resource list" where
  "container_resources c =
     [HttpClient, DbEngine] @ (case ct_cache c of RedisBackend url \<Rightarrow> [RedisConnection] | _ \<Rightarrow> [])"

definition aclose :: "(resource \<Rightarrow> unit result) \<Rightarrow> 'c container \<Rightarrow> unit result \<times> resource list" where
  "aclose close c = close_each close (container_resources c)"

lemma close_each_all:
  "close_each close rs = (x, tried) \<Longrightarrow> (x = Inr () \<longrightarrow> tried = rs) \<and> (\<forall>e. x = Inl e \<longrightarrow> (\<exists>r \<in> set rs. close r = Inl e))"
  by (induction rs arbitrary: x tried) (auto split: sum.splits prod.splits)

lemma close_each_ok: "(\<And>r. close r = Inr ()) \<Longrightarrow> close_each close rs = (Inr (), rs)"
  by (induction rs) simp_all


section \<open>The lifespan\<close>

datatype 'c life_event = AppStarted "'c container" Environment string | Closed resource | AppStopped

definition VERSION :: string where "VERSION = ''1.1.0''"

text \<open>
  \<open>given\<close> is the container that the caller passed to \<open>create_app\<close>, \<open>build\<close> the result of \<open>Container(settings)\<close>
  and \<open>body\<close> how serving ends.  An exception of the release replaces that of the body, and nothing is logged
  after it.
\<close>

definition lifespan ::
  "Settings \<Rightarrow> 'c container option \<Rightarrow> 'c container result \<Rightarrow> ('c container \<Rightarrow> unit result) \<Rightarrow> (resource \<Rightarrow> unit result)
   \<Rightarrow> unit result \<times> 'c life_event list" where
  "lifespan settings given build body close =
     (let owned = given = None
      in case (case given of Some c \<Rightarrow> Inr c | None \<Rightarrow> build) of
           Inl e \<Rightarrow> (Inl e, [])
         | Inr active \<Rightarrow>
             let started = AppStarted active (environment settings) VERSION; r = body active
             in if owned
                then (case aclose close active of
                        (Inl e, tried) \<Rightarrow> (Inl e, started # map Closed tried)
                      | (Inr _, tried) \<Rightarrow> (r, started # map Closed tried @ [AppStopped]))
                else (r, [started, AppStopped]))"


section \<open>Tasks\<close>

text \<open>\<open>try: ... finally: await container.aclose()\<close> around the body of a task over a state.\<close>

definition finally_close ::
  "(resource \<Rightarrow> unit result) \<Rightarrow> 'c container \<Rightarrow> ('s \<Rightarrow> 'a result \<times> 's) \<Rightarrow> 's \<Rightarrow> 'a result \<times> 's \<times> resource list" where
  "finally_close close c body s =
     (case body s of (r, s') \<Rightarrow>
        (case aclose close c of (Inl e, tried) \<Rightarrow> (Inl e, s', tried) | (Inr _, tried) \<Rightarrow> (r, s', tried)))"

definition task_monitor_prices ::
  "'c container result \<Rightarrow> (resource \<Rightarrow> unit result) \<Rightarrow> (string \<Rightarrow> string \<Rightarrow> string \<Rightarrow> 'n \<Rightarrow> unit result \<times> 'n) \<Rightarrow> int
   \<Rightarrow> 'n monitor_state \<Rightarrow> int result \<times> 'n monitor_state \<times> resource list" where
  "task_monitor_prices build close send t_now st =
     (case build of
        Inl e \<Rightarrow> (Inl e, st, [])
      | Inr c \<Rightarrow> finally_close close c
          (\<lambda>st. case ct_flights c of Inl e \<Rightarrow> (Inl e, st) | Inr providers \<Rightarrow> monitor_prices providers send t_now st) st)"

text \<open>The cut-off is computed after the container is built and before the \<open>try\<close>.\<close>

definition task_cleanup_audit_log ::
  "'c container result \<Rightarrow> (resource \<Rightarrow> unit result) \<Rightarrow> int \<Rightarrow> int \<Rightarrow> database \<Rightarrow> int result \<times> database \<times> resource list" where
  "task_cleanup_audit_log build close t_now retention_days db =
     (case build of
        Inl e \<Rightarrow> (Inl e, db, [])
      | Inr c \<Rightarrow>
          (case audit_cutoff t_now retention_days of
             Inl e \<Rightarrow> (Inl e, db, [])
           | Inr cutoff \<Rightarrow> finally_close close c (cleanup_audit_log t_now retention_days) db))"

record celery_conf =
  cel_broker :: string
  cel_backend :: string
  cel_task_serializer :: string
  cel_accept_content :: "string list"
  cel_result_serializer :: string
  cel_timezone :: string
  cel_enable_utc :: bool
  cel_task_acks_late :: bool
  cel_task_reject_on_worker_lost :: bool
  cel_beat_schedule :: "(string \<times> string \<times> pyfloat) list"

definition celery_app :: "Settings \<Rightarrow> celery_conf" where
  "celery_app settings =
     \<lparr>cel_broker = celery_broker settings, cel_backend = celery_broker settings, cel_task_serializer = ''json'',
      cel_accept_content = [''json''], cel_result_serializer = ''json'', cel_timezone = ''UTC'', cel_enable_utc = True,
      cel_task_acks_late = True, cel_task_reject_on_worker_lost = True, cel_beat_schedule = beat_schedule\<rparr>"


section \<open>Properties\<close>

definition closed :: "'c life_event list \<Rightarrow> resource list" where
  "closed evs = List.map_filter (\<lambda>e. case e of Closed r \<Rightarrow> Some r | _ \<Rightarrow> None) evs"

lemma closed_simps [simp]:
  "closed [] = []" "closed (AppStarted c e v # evs) = closed evs" "closed (AppStopped # evs) = closed evs"
  "closed (Closed r # evs) = r # closed evs" "closed (map Closed rs @ evs) = rs @ closed evs" "closed (map Closed rs) = rs"
  by (induction rs) (auto simp: closed_def map_filter_simps)

lemma container_resources_distinct: "distinct (container_resources c)"
  by (simp add: container_resources_def split: cache_backend.split)

lemma close_each_good: "(\<forall>x \<in> set rs. close x = Inr ()) \<Longrightarrow> close_each close rs = (Inr (), rs)"
  by (induction rs) simp_all

lemma aclose_good: "(\<forall>x \<in> set (container_resources c). close x = Inr ()) \<Longrightarrow> aclose close c = (Inr (), container_resources c)"
  by (simp add: aclose_def close_each_good)

lemma aclose_http_fails: "close HttpClient = Inl e \<Longrightarrow> aclose close c = (Inl e, [HttpClient])"
  by (simp add: aclose_def container_resources_def)



end
