(* ===== verification/Auth_Service.thy ===== *)
theory Auth_Service
  imports Token_Blocklist Database Notifications
begin

text \<open>
  \<^verbatim>\<open>app/services/auth_service.py\<close>: registration, verification, login, refresh, password
  reset and logout, over the user repository, the notifier and the token denylist.  A request happens
  at one moment and draws its random values once; both are the record \<open>ambient\<close>.
\<close>

section \<open>Collaborators and state\<close>

record ('n, 'c) auth_env =
  ae_settings :: Settings
  ae_jwt :: jwt_lib
  ae_hasher :: hasher
  ae_dummy_salt :: string
  ae_send :: "string \<Rightarrow> string \<Rightarrow> string \<Rightarrow> 'n \<Rightarrow> unit result \<times> 'n"
  ae_cache :: "'c cache_ops"

text \<open>
  The current time as \<open>datetime.now\<close> (microseconds), \<open>time.time()\<close> and the cache's clock show it, and
  the values drawn by \<open>uuid4\<close> (for an account or alert, and for an audit or history row) and by the
  password hasher.
\<close>

record ambient =
  now_us :: int
  wall :: pyfloat
  tick :: pyfloat
  new_uuid :: uuid
  row_uuid :: uuid
  fresh_salt :: string
  jti1 :: string
  jti2 :: string

record ('n, 'c) auth_state =
  st_db :: database
  st_mail :: 'n
  st_denylist :: 'c

type_synonym ('n, 'c, 'a) auth_op = "('n, 'c) auth_state \<Rightarrow> 'a result \<times> ('n, 'c) auth_state"

record TokenPair =
  access_token :: string
  refresh_token :: string
  token_type :: string

definition on_db :: "(database \<Rightarrow> 'a result \<times> database) \<Rightarrow> ('n, 'c, 'a) auth_op" where
  "on_db f st = (case f (st_db st) of (r, db) \<Rightarrow> (r, st\<lparr>st_db := db\<rparr>))"

definition read_db :: "(database \<Rightarrow> 'a result) \<Rightarrow> ('n, 'c, 'a) auth_op" where
  "read_db f st = (f (st_db st), st)"

definition write_user :: "(database \<Rightarrow> User \<times> database) \<Rightarrow> ('n, 'c, User) auth_op" where
  "write_user f st = (case f (st_db st) of (u, db) \<Rightarrow> (Inr u, st\<lparr>st_db := db\<rparr>))"

definition send_mail :: "('n, 'c) auth_env \<Rightarrow> string \<Rightarrow> string \<Rightarrow> string \<Rightarrow> ('n, 'c, unit) auth_op" where
  "send_mail env to_addr subject body st =
     (case ae_send env to_addr subject body (st_mail st) of (r, n) \<Rightarrow> (r, st\<lparr>st_mail := n\<rparr>))"


section \<open>Operations\<close>

definition decode ::
  "('n, 'c) auth_env \<Rightarrow> ambient \<Rightarrow> string \<Rightarrow> TokenType \<Rightarrow> payload result" where
  "decode env amb token expected =
     (case decode_token (ae_jwt env) (utc_timestamp (now_us amb)) token expected (ae_settings env) of
        Inr p \<Rightarrow> Inr p
      | Inl (TokenError m) \<Rightarrow> Inl (app_error AuthenticationError m)
      | Inl e \<Rightarrow> Inl e)"

text \<open>\<open>uuid.UUID(payload["sub"])\<close>\<close>

definition subject_uuid :: "payload \<Rightarrow> uuid result" where
  "subject_uuid p =
     (case dict_get p ''sub'' of
        None \<Rightarrow> Inl (PyError ''KeyError'' ''sub'')
      | Some (JStr s) \<Rightarrow>
          (case uuid_parse s of
             None \<Rightarrow> Inl (ValueError ''badly formed hexadecimal UUID string'')
           | Some u \<Rightarrow> Inr u)
      | Some JNull \<Rightarrow> Inl (TypeError ''one of the hex, bytes, bytes_le, fields, or int arguments must be given'')
      | Some _ \<Rightarrow> Inl (PyError ''AttributeError'' ''replace''))"

definition send_verification :: "('n, 'c) auth_env \<Rightarrow> ambient \<Rightarrow> User \<Rightarrow> ('n, 'c, unit) auth_op" where
  "send_verification env amb user =
     bind_state (lift_result
       (create_verify_token (ae_jwt env) (now_us amb) (jti1 amb) (uuid_str (u_id user)) (ae_settings env)))
     (\<lambda>token. send_mail env (u_email user) ''Verify your Smart Travel account''
        (''Welcome! Confirm your email to activate your account. Verification token: '' @ token))"

definition register ::
  "('n, 'c) auth_env \<Rightarrow> ambient \<Rightarrow> string \<Rightarrow> string \<Rightarrow> string option \<Rightarrow> ('n, 'c, User) auth_op" where
  "register env amb email password full_name st =
     (if exists_by_email email (st_db st)
      then (Inl (app_error ConflictError ''an account with this email already exists''), st)
      else bind_state
        (on_db (create_user (new_uuid amb) (now_us amb) email
           (hash_password (ae_hasher env) (fresh_salt amb) password) full_name USER))
        (\<lambda>user. bind_state (send_verification env amb user) (\<lambda>_. return_state user)) st)"

definition resend_verification :: "('n, 'c) auth_env \<Rightarrow> ambient \<Rightarrow> string \<Rightarrow> ('n, 'c, unit) auth_op" where
  "resend_verification env amb email =
     bind_state (read_db (get_by_email email))
     (\<lambda>user. case user of
        Some u \<Rightarrow> if \<not> u_is_verified u then send_verification env amb u else return_state ()
      | None \<Rightarrow> return_state ())"

definition verify_email :: "('n, 'c) auth_env \<Rightarrow> ambient \<Rightarrow> string \<Rightarrow> ('n, 'c, unit) auth_op" where
  "verify_email env amb token =
     bind_state (lift_result (decode env amb token Verify)) (\<lambda>p.
     bind_state (lift_result (subject_uuid p)) (\<lambda>i.
     bind_state (read_db (\<lambda>db. Inr (get_by_id i db))) (\<lambda>user.
       case user of
         None \<Rightarrow> raise_state (app_error AuthenticationError ''the account no longer exists'')
       | Some u \<Rightarrow>
           if \<not> u_is_verified u
           then bind_state (write_user (mark_verified (now_us amb) u)) (\<lambda>_. return_state ())
           else return_state ())))"

definition DUMMY_HASH :: "('n, 'c) auth_env \<Rightarrow> string" where
  "DUMMY_HASH env = hash_password (ae_hasher env) (ae_dummy_salt env) ''this-is-never-a-real-password''"

definition authenticate :: "('n, 'c) auth_env \<Rightarrow> ambient \<Rightarrow> string \<Rightarrow> string \<Rightarrow> ('n, 'c, User) auth_op" where
  "authenticate env amb email password =
     bind_state (read_db (get_by_email email)) (\<lambda>user.
     bind_state (lift_result (verify_password (ae_hasher env) password
         (case user of Some u \<Rightarrow> u_hashed_password u | None \<Rightarrow> DUMMY_HASH env)))
     (\<lambda>password_ok.
       case user of
         None \<Rightarrow> raise_state (app_error AuthenticationError ''incorrect email or password'')
       | Some u \<Rightarrow>
           if \<not> password_ok then raise_state (app_error AuthenticationError ''incorrect email or password'')
           else if \<not> u_is_active u then raise_state (app_error AuthenticationError ''this account is disabled'')
           else if needs_rehash (ae_hasher env) (u_hashed_password u)
           then write_user (update_password (now_us amb) u (hash_password (ae_hasher env) (fresh_salt amb) password))
           else return_state u))"

definition issue_tokens :: "('n, 'c) auth_env \<Rightarrow> ambient \<Rightarrow> User \<Rightarrow> TokenPair result" where
  "issue_tokens env amb user =
     bind_result (create_access_token (ae_jwt env) (now_us amb) (jti1 amb) (uuid_str (u_id user)) (ae_settings env))
     (\<lambda>a. bind_result (create_refresh_token (ae_jwt env) (now_us amb) (jti2 amb) (uuid_str (u_id user)) (ae_settings env))
     (\<lambda>r. Inr \<lparr>access_token = a, refresh_token = r, token_type = ''bearer''\<rparr>))"

definition denylisted :: "('n, 'c) auth_env \<Rightarrow> ambient \<Rightarrow> payload \<Rightarrow> ('n, 'c, bool) auth_op" where
  "denylisted env amb p st =
     (case is_revoked (ae_cache env) (tick amb) p (st_denylist st) of
        (b, c) \<Rightarrow> (Inr b, st\<lparr>st_denylist := c\<rparr>))"

definition deny :: "('n, 'c) auth_env \<Rightarrow> ambient \<Rightarrow> payload \<Rightarrow> ('n, 'c, unit) auth_op" where
  "deny env amb p st =
     (Inr (), st\<lparr>st_denylist := revoke (ae_cache env) (wall amb) (tick amb) p (st_denylist st)\<rparr>)"

definition refresh :: "('n, 'c) auth_env \<Rightarrow> ambient \<Rightarrow> string \<Rightarrow> ('n, 'c, TokenPair) auth_op" where
  "refresh env amb token =
     bind_state (lift_result (decode env amb token Refresh)) (\<lambda>p.
     bind_state (denylisted env amb p) (\<lambda>revoked.
       if revoked then raise_state (app_error AuthenticationError ''this session has been revoked'')
       else bind_state (lift_result (subject_uuid p)) (\<lambda>i.
            bind_state (read_db (\<lambda>db. Inr (get_by_id i db))) (\<lambda>user.
              case user of
                None \<Rightarrow> raise_state (app_error AuthenticationError ''the account is no longer valid'')
              | Some u \<Rightarrow>
                  if \<not> u_is_active u then raise_state (app_error AuthenticationError ''the account is no longer valid'')
                  else lift_result (issue_tokens env amb u)))))"

definition request_password_reset :: "('n, 'c) auth_env \<Rightarrow> ambient \<Rightarrow> string \<Rightarrow> ('n, 'c, unit) auth_op" where
  "request_password_reset env amb email =
     bind_state (read_db (get_by_email email)) (\<lambda>user.
       case user of
         None \<Rightarrow> return_state ()
       | Some u \<Rightarrow>
           if \<not> u_is_active u then return_state ()
           else bind_state (lift_result
                  (create_reset_token (ae_jwt env) (now_us amb) (jti1 amb) (uuid_str (u_id u)) (ae_settings env)))
                (\<lambda>token. send_mail env (u_email u) ''Reset your Smart Travel password''
                   (''Use this token to set a new password: '' @ token)))"

definition reset_password :: "('n, 'c) auth_env \<Rightarrow> ambient \<Rightarrow> string \<Rightarrow> string \<Rightarrow> ('n, 'c, unit) auth_op" where
  "reset_password env amb token new_password =
     bind_state (lift_result (decode env amb token Reset)) (\<lambda>p.
     bind_state (lift_result (subject_uuid p)) (\<lambda>i.
     bind_state (read_db (\<lambda>db. Inr (get_by_id i db))) (\<lambda>user.
       case user of
         None \<Rightarrow> raise_state (app_error AuthenticationError ''the account is no longer valid'')
       | Some u \<Rightarrow>
           if \<not> u_is_active u then raise_state (app_error AuthenticationError ''the account is no longer valid'')
           else bind_state
             (write_user (update_password (now_us amb) u (hash_password (ae_hasher env) (fresh_salt amb) new_password)))
             (\<lambda>_. return_state ()))))"

definition logout ::
  "('n, 'c) auth_env \<Rightarrow> ambient \<Rightarrow> payload \<Rightarrow> string option \<Rightarrow> ('n, 'c, unit) auth_op" where
  "logout env amb access_payload refresh_tok =
     bind_state (deny env amb access_payload) (\<lambda>_.
       case refresh_tok of
         None \<Rightarrow> return_state ()
       | Some t \<Rightarrow>
           if t = [] then return_state ()
           else case decode_token (ae_jwt env) (utc_timestamp (now_us amb)) t Refresh (ae_settings env) of
             Inr p \<Rightarrow> deny env amb p
           | Inl (TokenError m) \<Rightarrow> return_state ()
           | Inl e \<Rightarrow> raise_state e)"


section \<open>The request scope\<close>

text \<open>
  \<open>get_session\<close> around an operation: the database is committed or rolled back; sent mail and the
  denylist are not part of the transaction.
\<close>

definition in_session :: "('n, 'c, 'a) auth_op \<Rightarrow> ('n, 'c, 'a) auth_op" where
  "in_session f st =
     (case f st of (Inr v, st') \<Rightarrow> (Inr v, st') | (Inl e, st') \<Rightarrow> (Inl e, st'\<lparr>st_db := st_db st\<rparr>))"

lemmas auth_ops = bind_state_def lift_result_def return_state_def raise_state_def on_db_def read_db_def
  write_user_def send_mail_def

lemma send_mail_db [simp]: "st_db (snd (send_mail env t s b st)) = st_db st"
  by (simp add: send_mail_def split_beta)

lemma send_verification_db [simp]: "st_db (snd (send_verification env amb u st)) = st_db st"
  by (cases "create_verify_token (ae_jwt env) (now_us amb) (jti1 amb) (uuid_str (u_id u)) (ae_settings env)")
     (simp_all add: send_verification_def)

lemma register_cases:
  assumes "\<not> exists_by_email email (st_db st)" "register env amb email password full_name st = (r, st')"
  obtains (row_refused) e where "create_user (new_uuid amb) (now_us amb) email
        (hash_password (ae_hasher env) (fresh_salt amb) password) full_name USER (st_db st) = (Inl e, st_db st)"
      "r = Inl e" "st_db st' = st_db st"
  | (mail_failed) u db e where "create_user (new_uuid amb) (now_us amb) email
        (hash_password (ae_hasher env) (fresh_salt amb) password) full_name USER (st_db st) = (Inr u, db)"
      "send_verification env amb u (st\<lparr>st_db := db\<rparr>) = (Inl e, st')" "r = Inl e"
  | (created) u db where "create_user (new_uuid amb) (now_us amb) email
        (hash_password (ae_hasher env) (fresh_salt amb) password) full_name USER (st_db st) = (Inr u, db)"
      "send_verification env amb u (st\<lparr>st_db := db\<rparr>) = (Inr (), st')" "r = Inr u"
proof -
  obtain res db where c: "create_user (new_uuid amb) (now_us amb) email
      (hash_password (ae_hasher env) (fresh_salt amb) password) full_name USER (st_db st) = (res, db)"
    by fastforce
  show ?thesis
  proof (cases res)
    case (Inl e)
    then have "db = st_db st" using c by (auto simp: create_user_def Let_def split: if_splits)
    then show ?thesis using row_refused assms c Inl by (auto simp: register_def auth_ops)
  next
    case (Inr u)
    then show ?thesis
      using assms c mail_failed [of u db] created [of u db]
      by (auto simp: register_def bind_state_def on_db_def return_state_def split: prod.splits sum.splits)
  qed
qed

lemma create_user_Inr:
  "create_user i now email h n r db = (Inr u, db') \<Longrightarrow>
   users db' = users db @ [u] \<and> u_id u = i \<and> u_email u = str_lower email \<and> u_hashed_password u = h
   \<and> u_full_name u = n \<and> u_role u = r \<and> u_is_active u \<and> \<not> u_is_verified u
   \<and> price_alerts db' = price_alerts db \<and> search_history db' = search_history db \<and> audit_log db' = audit_log db"
  by (auto simp: create_user_def Let_def split: if_splits)


section \<open>Tokens of an account\<close>

text \<open>The moment \<open>amb\<close> lies in the range in which the claims are whole seconds (see \<open>Security\<close>).\<close>

definition issued_in_range :: "ambient \<Rightarrow> int \<Rightarrow> bool" where
  "issued_in_range amb ttl \<longleftrightarrow> 0 \<le> now_us amb \<and> 0 \<le> ttl \<and> now_us amb + ttl * 1000000 < 2 ^ 33 * 1000000"

text \<open>The claims of a token that was issued to an account at the moment \<open>amb\<close>.\<close>

definition account_claims :: "ambient \<Rightarrow> string \<Rightarrow> User \<Rightarrow> TokenType \<Rightarrow> int \<Rightarrow> payload" where
  "account_claims amb jti user ty ttl = token_claims (now_us amb) jti (uuid_str (u_id user)) ty ttl"

text \<open>At the moment \<open>later\<close> a token issued at \<open>amb\<close> with lifetime \<open>ttl\<close> has not expired.\<close>

definition still_valid :: "ambient \<Rightarrow> int \<Rightarrow> ambient \<Rightarrow> bool" where
  "still_valid amb ttl later \<longleftrightarrow> utc_timestamp (now_us later) < of_int (now_us amb div 1000000 + ttl)"

lemma decode_account_token:
  assumes "jwt_reads_back (ae_jwt env) (ae_settings env) (account_claims amb jti u ty ttl)" "issued_in_range amb ttl"
    and "create_token (ae_jwt env) (now_us amb) jti (uuid_str (u_id u)) ty ttl (ae_settings env) = Inr token"
    and "still_valid amb ttl later"
  shows "decode env later token ty = Inr (account_claims amb jti u ty ttl)"
    and "decode_token (ae_jwt env) (utc_timestamp (now_us later)) token ty (ae_settings env)
         = Inr (account_claims amb jti u ty ttl)"
  using assms decode_created [of "ae_jwt env" "ae_settings env" "now_us amb" jti "uuid_str (u_id u)" ty ttl token
      "utc_timestamp (now_us later)" ty]
  by (auto simp: decode_def account_claims_def issued_in_range_def still_valid_def)

lemma subject_account [simp]: "subject_uuid (account_claims amb jti u ty ttl) = Inr (u_id u)"
  by (simp add: subject_uuid_def account_claims_def token_claims_def uuid_round_trip)

lemma account_token_created:
  "issued_in_range amb ttl \<Longrightarrow>
   create_token lib (now_us amb) jti (uuid_str (u_id u)) ty ttl settings
   = Inr (jwt_encode lib (account_claims amb jti u ty ttl) (secret_key settings) (jwt_algorithm settings))"
  by (simp add: issued_in_range_def create_token_claims account_claims_def)

lemma get_by_id_own: "db_ok db \<Longrightarrow> u \<in> set (users db) \<Longrightarrow> get_by_id (u_id u) db = Some u"
  by (simp add: get_by_id_Some)

lemma get_by_email_own: "db_ok db \<Longrightarrow> u \<in> set (users db) \<Longrightarrow> u_email u = str_lower e \<Longrightarrow> get_by_email e db = Inr (Some u)"
  by (simp add: get_by_email_Some)

lemma flush_user_users:
  "db_ok db \<Longrightarrow> user \<in> set (users db) \<Longrightarrow> u_id user' = u_id user \<Longrightarrow>
   set (users (flush_user now user' db)) = insert (user'\<lparr>u_updated_at := now\<rparr>) (set (users db) - {user})"
  by (auto simp: flush_user_def db_ok_def distinct_map inj_on_def image_iff)


section \<open>Properties\<close>

text \<open>
  C20: registration is atomic and keeps the accounts unique.  From a database in order, whatever the
  notifier and the token library do: an email already registered in any letter case gives
  \<open>ConflictError\<close> and changes nothing; when the request succeeds exactly one row is added, active,
  unverified, with the role of a user, the lower-cased email and the hashed password; when anything
  raises, the sending of the mail included, the database is as before.  The database stays in order.
\<close>

theorem register_atomic:
  assumes "db_ok (st_db st)" and "in_session (register env amb email password full_name) st = (r, st')"
  shows "db_ok (st_db st')
    \<and> (exists_by_email email (st_db st) \<longrightarrow>
         r = Inl (app_error ConflictError ''an account with this email already exists'') \<and> st' = st)
    \<and> (case r of
         Inl e \<Rightarrow> st_db st' = st_db st
       | Inr u \<Rightarrow> users (st_db st') = users (st_db st) @ [u] \<and> u_email u = str_lower email
           \<and> u_hashed_password u = hash_password (ae_hasher env) (fresh_salt amb) password
           \<and> u_role u = USER \<and> u_is_active u \<and> \<not> u_is_verified u)"
proof (cases "exists_by_email email (st_db st)")
  case True
  then show ?thesis using assms by (auto simp: in_session_def register_def)
next
  case False
  obtain r1 st1 where reg: "register env amb email password full_name st = (r1, st1)" by fastforce
  from False reg show ?thesis
  proof (cases rule: register_cases)
    case (row_refused e)
    then show ?thesis using assms reg False by (auto simp: in_session_def)
  next
    case (mail_failed u db e)
    then show ?thesis using assms reg False by (auto simp: in_session_def)
  next
    case (created u db)
    have "st_db st1 = db" using send_verification_db [of env amb u "st\<lparr>st_db := db\<rparr>"] created(2) by simp
    then show ?thesis
      using assms reg False created create_user_Inr [OF created(1)] create_user_ok [OF assms(1) created(1)]
      by (auto simp: in_session_def)
  qed
qed

text \<open>An environment for examples: mail goes to the console, hashes are readable.\<close>

definition example_env :: "payload list \<Rightarrow> (mail list, memory_cache) auth_env" where
  "example_env ps =
     \<lparr>ae_settings = default_settings, ae_jwt = table_lib ps,
      ae_hasher = \<lparr>ph_hash = (\<lambda>salt p. ''hash:'' @ p),
                   ph_verify = (\<lambda>h p. if h = ''hash:'' @ p then Inr True else Inl (PyError ''VerifyMismatchError'' [])),
                   ph_check_needs_rehash = (\<lambda>h. False)\<rparr>,
      ae_dummy_salt = [], ae_send = console_send, ae_cache = memory_cache_ops\<rparr>"

definition example_ambient :: "int \<Rightarrow> ambient" where
  "example_ambient s =
     \<lparr>now_us = s * 1000000, wall = of_int s, tick = of_int s, new_uuid = word_of_int s, row_uuid = 0, fresh_salt = [],
      jti1 = ''a'', jti2 = ''b''\<rparr>"

definition example_user :: User where
  "example_user =
     \<lparr>u_id = 7, u_email = ''ann@x.org'', u_hashed_password = ''hash:Secret123'', u_full_name = None, u_role = USER,
      u_is_active = True, u_is_verified = False, u_created_at = 0, u_updated_at = 0\<rparr>"

definition example_state :: "(mail list, memory_cache) auth_state" where
  "example_state = \<lparr>st_db = empty_database\<lparr>users := [example_user]\<rparr>, st_mail = [], st_denylist = []\<rparr>"

lemmas example_simps = example_env_def example_ambient_def example_user_def example_state_def empty_database_def

lemma lower_ann: "str_lower ''ann@x.org'' = ''ann@x.org''" "str_lower ''ANN@x.org'' = ''ann@x.org''"
  by code_simp+

lemma example_db_ok: "db_ok (st_db example_state)"
  by (simp add: db_ok_def example_simps lower_ann)

theorem register_atomic_witness:
  "in_session (register (example_env []) (example_ambient 1000) ''ANN@x.org'' ''Secret123'' None) example_state
   = (Inl (app_error ConflictError ''an account with this email already exists''), example_state)"
proof -
  obtain r st' where r: "in_session (register (example_env []) (example_ambient 1000) ''ANN@x.org'' ''Secret123'' None)
      example_state = (r, st')" by fastforce
  have "exists_by_email ''ANN@x.org'' (st_db example_state)"
    by (simp add: exists_by_email_def lower_ann) (simp add: example_simps)
  with register_atomic [OF example_db_ok r] r show ?thesis by simp
qed

text \<open>
  C21: the verification mail works.  With the console notifier, and a token library that reads back its
  token, a successful registration mails a token to the account's address, and \<open>verify_email\<close> with that token,
  before it expires, succeeds and marks exactly that account as verified: every other row is as it was.
\<close>

theorem register_then_verify:
  assumes "db_ok (st_db st)" and "ae_send env = console_send"
    and "in_session (register env amb email password full_name) st = (Inr u, st1)"
    and "jwt_reads_back (ae_jwt env) (ae_settings env)
           (account_claims amb (jti1 amb) u Verify (verify_token_ttl (ae_settings env)))"
    and "issued_in_range amb (verify_token_ttl (ae_settings env))"
    and "still_valid amb (verify_token_ttl (ae_settings env)) later"
  shows "\<exists>token st2. st_mail st1 = st_mail st @ [(str_lower email, ''Verify your Smart Travel account'',
            ''Welcome! Confirm your email to activate your account. Verification token: '' @ token)]
    \<and> verify_email env later token st1 = (Inr (), st2)
    \<and> set (users (st_db st2))
        = insert (u\<lparr>u_is_verified := True, u_updated_at := now_us later\<rparr>) (set (users (st_db st)))"
proof -
  let ?ttl = "verify_token_ttl (ae_settings env)"
  let ?token = "jwt_encode (ae_jwt env) (account_claims amb (jti1 amb) u Verify ?ttl)
    (secret_key (ae_settings env)) (jwt_algorithm (ae_settings env))"
  have reg: "register env amb email password full_name st = (Inr u, st1)"
    using assms(3) by (auto simp: in_session_def split: prod.splits sum.splits)
  have new: "\<not> exists_by_email email (st_db st)" using reg by (auto simp: register_def)
  obtain db where db: "create_user (new_uuid amb) (now_us amb) email
        (hash_password (ae_hasher env) (fresh_salt amb) password) full_name USER (st_db st) = (Inr u, db)"
    and mail: "send_verification env amb u (st\<lparr>st_db := db\<rparr>) = (Inr (), st1)"
    using new reg by (cases rule: register_cases) auto
  note row = create_user_Inr [OF db] and ok = create_user_ok [OF assms(1) db]
  have tok: "create_token (ae_jwt env) (now_us amb) (jti1 amb) (uuid_str (u_id u)) Verify ?ttl (ae_settings env) = Inr ?token"
    using assms(5) by (rule account_token_created)
  have st1: "st_db st1 = db" "st_mail st1 = st_mail st @ [(str_lower email, ''Verify your Smart Travel account'',
            ''Welcome! Confirm your email to activate your account. Verification token: '' @ ?token)]"
    using mail assms(2) row tok
    by (auto simp: send_verification_def create_verify_token_def send_mail_def console_send_def)
  have u: "u \<in> set (users db)" "\<not> u_is_verified u" "u \<notin> set (users (st_db st))"
    using row db by (auto simp: create_user_def Let_def list_ex_iff split: if_splits)
  have "verify_email env later ?token st1
      = (Inr (), st1\<lparr>st_db := flush_user (now_us later) (u\<lparr>u_is_verified := True\<rparr>) db\<rparr>)"
    using decode_account_token(1) [OF assms(4,5) tok assms(6)] get_by_id_own [OF ok u(1)] u(2) st1(1)
    by (simp add: verify_email_def auth_ops mark_verified_def Let_def)
  moreover have "set (users (flush_user (now_us later) (u\<lparr>u_is_verified := True\<rparr>) db))
      = insert (u\<lparr>u_is_verified := True, u_updated_at := now_us later\<rparr>) (set (users (st_db st)))"
    using flush_user_users [OF ok u(1), of "u\<lparr>u_is_verified := True\<rparr>"] row u(3) by auto
  ultimately show ?thesis using st1(2) by auto
qed

lemma utc_timestamp_whole: "\<bar>s\<bar> \<le> 2 ^ 53 \<Longrightarrow> utc_timestamp (s * 1000000) = of_int s"
  using fl_of_int [of s] by (simp add: utc_timestamp_def int_truediv_def)

lemma example_valid:
  "0 \<le> s \<Longrightarrow> s + ttl < 2 ^ 33 \<Longrightarrow> 0 \<le> ttl \<Longrightarrow> issued_in_range (example_ambient s) ttl"
  "0 \<le> t \<Longrightarrow> t < s + ttl \<Longrightarrow> t < 2 ^ 33 \<Longrightarrow> still_valid (example_ambient s) ttl (example_ambient t)"
  by (simp_all add: issued_in_range_def still_valid_def example_ambient_def utc_timestamp_whole)

theorem register_then_verify_witness:
  "let u = example_user\<lparr>u_id := 1000, u_created_at := 1000000000, u_updated_at := 1000000000\<rparr>;
       env = example_env [account_claims (example_ambient 1000) ''a'' u Verify 86400];
       st = example_state\<lparr>st_db := empty_database\<rparr>
   in \<exists>st1 token st2. in_session (register env (example_ambient 1000) ''ANN@x.org'' ''Secret123'' None) st = (Inr u, st1)
        \<and> verify_email env (example_ambient 5000) token st1 = (Inr (), st2)
        \<and> set (users (st_db st2)) = {u\<lparr>u_is_verified := True, u_updated_at := 5000000000\<rparr>}"
proof -
  let ?u = "example_user\<lparr>u_id := 1000, u_created_at := 1000000000, u_updated_at := 1000000000\<rparr>"
  let ?p = "account_claims (example_ambient 1000) ''a'' ?u Verify 86400"
  let ?env = "example_env [?p]" and ?st = "example_state\<lparr>st_db := empty_database\<rparr>"
  have set: "verify_token_ttl (ae_settings ?env) = 86400" "jti1 (example_ambient 1000) = ''a''"
    "ae_settings ?env = default_settings" "ae_jwt ?env = table_lib [?p]" "ae_send ?env = console_send"
    by (simp_all add: example_env_def example_ambient_def default_settings_def)
  have range: "issued_in_range (example_ambient 1000) 86400" by (rule example_valid) simp_all
  have tok: "create_verify_token (ae_jwt ?env) (now_us (example_ambient 1000)) (jti1 (example_ambient 1000))
      (uuid_str (u_id ?u)) (ae_settings ?env) = Inr (jwt_encode (table_lib [?p]) ?p (secret_key default_settings) (jwt_algorithm default_settings))"
    using account_token_created [OF range, of "table_lib [?p]" "''a''" ?u Verify default_settings]
    by (simp add: create_verify_token_def set default_settings_def)
  have "create_user (new_uuid (example_ambient 1000)) (now_us (example_ambient 1000)) ''ANN@x.org''
      (hash_password (ae_hasher ?env) (fresh_salt (example_ambient 1000)) ''Secret123'') None USER empty_database
    = (Inr ?u, empty_database\<lparr>users := [?u]\<rparr>)"
    by (simp add: create_user_def lower_ann) (simp add: example_simps hash_password_def Let_def)
  then have "\<exists>st1. register ?env (example_ambient 1000) ''ANN@x.org'' ''Secret123'' None ?st = (Inr ?u, st1)"
    using tok by (simp add: register_def exists_by_email_def empty_database_def bind_state_def on_db_def
        send_verification_def lift_result_def send_mail_def set console_send_def return_state_def)
  then obtain st1 where reg: "in_session (register ?env (example_ambient 1000) ''ANN@x.org'' ''Secret123'' None) ?st = (Inr ?u, st1)"
    by (auto simp: in_session_def)
  have ok: "db_ok (st_db ?st)" by (simp add: db_ok_def empty_database_def)
  have reads: "jwt_reads_back (ae_jwt ?env) (ae_settings ?env)
      (account_claims (example_ambient 1000) (jti1 (example_ambient 1000)) ?u Verify (verify_token_ttl (ae_settings ?env)))"
    unfolding set by (rule table_lib_reads_back) (simp add: default_settings_def)
  have valid: "issued_in_range (example_ambient 1000) (verify_token_ttl (ae_settings ?env))"
    "still_valid (example_ambient 1000) (verify_token_ttl (ae_settings ?env)) (example_ambient 5000)"
    using range by (auto simp: example_env_def default_settings_def intro: example_valid(2))
  from register_then_verify [OF ok set(5) reg reads valid] obtain token st2
    where "verify_email ?env (example_ambient 5000) token st1 = (Inr (), st2)"
      "set (users (st_db st2)) = insert (?u\<lparr>u_is_verified := True, u_updated_at := now_us (example_ambient 5000)\<rparr>) (set (users (st_db ?st)))"
    by blast
  with reg show ?thesis
    by (auto simp: Let_def example_ambient_def empty_database_def)
qed

text \<open>
  What Argon2 documents: a hash verifies against the password it was made from, and another password
  raises \<open>VerifyMismatchError\<close>.
\<close>

definition hash_verifies :: "hasher \<Rightarrow> string \<Rightarrow> string \<Rightarrow> bool" where
  "hash_verifies ph hashed plain \<longleftrightarrow> ph_verify ph hashed plain = Inr True"

definition hash_mismatch :: "hasher \<Rightarrow> string \<Rightarrow> string \<Rightarrow> bool" where
  "hash_mismatch ph hashed plain \<longleftrightarrow> (\<exists>m. ph_verify ph hashed plain = Inl (PyError ''VerifyMismatchError'' m))"

lemma verify_password_cases [simp]:
  "hash_verifies ph h p \<Longrightarrow> verify_password ph p h = Inr True"
  "hash_mismatch ph h p \<Longrightarrow> verify_password ph p h = Inr False"
  by (auto simp: verify_password_def hash_verifies_def hash_mismatch_def)

text \<open>An active account with a known hash logs in with the matching password, in any case of its email.\<close>

lemma authenticate_account:
  assumes "db_ok (st_db st)" "u \<in> set (users (st_db st))" "u_email u = str_lower email" "u_is_active u"
    "hash_verifies (ae_hasher env) (u_hashed_password u) password"
  shows "\<exists>u' st'. authenticate env amb email password st = (Inr u', st') \<and> u_id u' = u_id u"
  using assms get_by_email_own [OF assms(1-3)]
  by (simp add: authenticate_def auth_ops update_password_def split_beta Let_def)

lemma authenticate_wrong_password:
  assumes "db_ok (st_db st)" "u \<in> set (users (st_db st))" "u_email u = str_lower email"
    "hash_mismatch (ae_hasher env) (u_hashed_password u) password"
  shows "authenticate env amb email password st
    = (Inl (app_error AuthenticationError ''incorrect email or password''), st)"
  using assms get_by_email_own [OF assms(1-3)] by (simp add: authenticate_def auth_ops)

text \<open>
  C22: a password reset takes effect.  For an active account, \<open>request_password_reset\<close> mails a token to the
  account's address; \<open>reset_password\<close> with it, before it expires, succeeds, after which logging in with
  the new password succeeds and with the old one raises \<open>AuthenticationError\<close> (for a hasher that verifies
  the new hash against the new password and not the old).  No other account changes.
\<close>

theorem password_reset_takes_effect:
  assumes "db_ok (st_db st)" "u \<in> set (users (st_db st))" "u_email u = str_lower email" "u_is_active u"
    and "ae_send env = console_send"
    and "jwt_reads_back (ae_jwt env) (ae_settings env)
           (account_claims amb (jti1 amb) u Reset (reset_token_ttl (ae_settings env)))"
    and "issued_in_range amb (reset_token_ttl (ae_settings env))"
    and "still_valid amb (reset_token_ttl (ae_settings env)) later"
    and "hash_verifies (ae_hasher env) (hash_password (ae_hasher env) (fresh_salt later) new_password) new_password"
    and "hash_mismatch (ae_hasher env) (hash_password (ae_hasher env) (fresh_salt later) new_password) old_password"
  shows "\<exists>token st1 st2.
      request_password_reset env amb email st = (Inr (), st1)
    \<and> st_mail st1 = st_mail st @ [(u_email u, ''Reset your Smart Travel password'',
                                    ''Use this token to set a new password: '' @ token)]
    \<and> reset_password env later token new_password st1 = (Inr (), st2)
    \<and> (\<exists>u' st3. authenticate env login email new_password st2 = (Inr u', st3) \<and> u_id u' = u_id u)
    \<and> authenticate env login email old_password st2
        = (Inl (app_error AuthenticationError ''incorrect email or password''), st2)
    \<and> set (users (st_db st)) - {u} \<subseteq> set (users (st_db st2))"
proof -
  let ?ttl = "reset_token_ttl (ae_settings env)" and ?h = "hash_password (ae_hasher env) (fresh_salt later) new_password"
  let ?token = "jwt_encode (ae_jwt env) (account_claims amb (jti1 amb) u Reset ?ttl)
    (secret_key (ae_settings env)) (jwt_algorithm (ae_settings env))"
  have tok: "create_token (ae_jwt env) (now_us amb) (jti1 amb) (uuid_str (u_id u)) Reset ?ttl (ae_settings env) = Inr ?token"
    using assms(7) by (rule account_token_created)
  define st1 where "st1 = st\<lparr>st_mail := st_mail st @ [(u_email u, ''Reset your Smart Travel password'',
      ''Use this token to set a new password: '' @ ?token)]\<rparr>"
  have req: "request_password_reset env amb email st = (Inr (), st1)"
    using get_by_email_own [OF assms(1-3)] assms(4,5) tok
    by (simp add: request_password_reset_def auth_ops create_reset_token_def console_send_def st1_def)
  define st2 where "st2 = st1\<lparr>st_db := snd (update_password (now_us later) u ?h (st_db st))\<rparr>"
  have reset: "reset_password env later ?token new_password st1 = (Inr (), st2)"
    using decode_account_token(1) [OF assms(6,7) tok assms(8)] get_by_id_own [OF assms(1,2)] assms(4)
    by (simp add: reset_password_def auth_ops st1_def st2_def split_beta)
  have ok2: "db_ok (st_db st2)" using updates_ok(1) [OF assms(1,2)] by (simp add: st2_def)
  obtain u2 where u2: "u2 \<in> set (users (st_db st2))" "u_id u2 = u_id u" "u_email u2 = str_lower email"
    "u_is_active u2" "u_hashed_password u2 = ?h" "set (users (st_db st)) - {u} \<subseteq> set (users (st_db st2))"
  proof (cases "u_hashed_password u = ?h")
    case True
    then show ?thesis using that [of u] assms(2-4) by (simp add: st2_def update_password_def)
  next
    case False
    then show ?thesis
      using that [of "u\<lparr>u_hashed_password := ?h, u_updated_at := now_us later\<rparr>"] assms(3,4)
        flush_user_users [OF assms(1,2), of "u\<lparr>u_hashed_password := ?h\<rparr>" "now_us later"]
      by (auto simp: st2_def update_password_def Let_def)
  qed
  have login: "\<exists>u' st3. authenticate env login email new_password st2 = (Inr u', st3) \<and> u_id u' = u_id u"
    using authenticate_account [OF ok2 u2(1,3,4)] assms(9) u2 by simp
  have old: "authenticate env login email old_password st2
        = (Inl (app_error AuthenticationError ''incorrect email or password''), st2)"
    using authenticate_wrong_password [OF ok2 u2(1,3)] assms(10) u2 by simp
  show ?thesis using req reset login old u2(6) by (auto simp: st1_def)
qed

theorem password_reset_takes_effect_witness:
  "\<exists>token st1 st2.
      request_password_reset (example_env [account_claims (example_ambient 1000) ''a'' example_user Reset 3600])
        (example_ambient 1000) ''ann@x.org'' example_state = (Inr (), st1)
    \<and> reset_password (example_env [account_claims (example_ambient 1000) ''a'' example_user Reset 3600])
        (example_ambient 2000) token ''Better456'' st1 = (Inr (), st2)
    \<and> authenticate (example_env [account_claims (example_ambient 1000) ''a'' example_user Reset 3600])
        (example_ambient 3000) ''ann@x.org'' ''Secret123'' st2
      = (Inl (app_error AuthenticationError ''incorrect email or password''), st2)"
proof -
  let ?p = "account_claims (example_ambient 1000) ''a'' example_user Reset 3600"
  let ?env = "example_env [?p]"
  have set: "reset_token_ttl (ae_settings ?env) = 3600" "jti1 (example_ambient 1000) = ''a''"
    "ae_settings ?env = default_settings" "ae_jwt ?env = table_lib [?p]" "ae_send ?env = console_send"
    by (simp_all add: example_env_def example_ambient_def default_settings_def)
  have u: "example_user \<in> set (users (st_db example_state))" "u_email example_user = str_lower ''ann@x.org''"
    "u_is_active example_user"
    by (simp_all add: example_state_def lower_ann) (simp_all add: example_user_def)
  have reads: "jwt_reads_back (ae_jwt ?env) (ae_settings ?env)
      (account_claims (example_ambient 1000) (jti1 (example_ambient 1000)) example_user Reset (reset_token_ttl (ae_settings ?env)))"
    unfolding set by (rule table_lib_reads_back) (simp add: default_settings_def)
  have valid: "issued_in_range (example_ambient 1000) (reset_token_ttl (ae_settings ?env))"
    "still_valid (example_ambient 1000) (reset_token_ttl (ae_settings ?env)) (example_ambient 2000)"
    by (auto simp: example_env_def default_settings_def intro: example_valid)
  have hash: "hash_verifies (ae_hasher ?env) (hash_password (ae_hasher ?env) (fresh_salt (example_ambient 2000)) ''Better456'') ''Better456''"
    "hash_mismatch (ae_hasher ?env) (hash_password (ae_hasher ?env) (fresh_salt (example_ambient 2000)) ''Better456'') ''Secret123''"
    by (simp_all add: hash_verifies_def hash_mismatch_def hash_password_def example_env_def)
  from password_reset_takes_effect [OF example_db_ok u set(5) reads valid hash, of "example_ambient 3000"]
  show ?thesis by blast
qed

text \<open>
  C23: whether an address is registered does not show in a login, but shows in a reset when mail cannot
  be sent.  An unknown address and a wrong password give the same error and change nothing; for an
  unknown address \<open>request_password_reset\<close> succeeds whatever the notifier would do, while for an active
  account an exception of the notifier is raised to the caller.
\<close>

theorem account_enumeration:
  assumes "db_ok (st_db st)" "u \<in> set (users (st_db st))" "u_is_active u"
    and "get_by_email unknown (st_db st) = Inr None"
    and "hash_mismatch (ae_hasher env) (u_hashed_password u) wrong" "hash_mismatch (ae_hasher env) (DUMMY_HASH env) wrong"
    and "issued_in_range amb (reset_token_ttl (ae_settings env))"
    and "\<And>a s b n. ae_send env a s b n = (Inl e, n)"
  shows "authenticate env amb (u_email u) wrong st = authenticate env amb unknown wrong st
    \<and> request_password_reset env amb unknown st = (Inr (), st)
    \<and> request_password_reset env amb (u_email u) st = (Inl e, st)"
proof -
  have low: "u_email u = str_lower (u_email u)" using assms(1,2) by (simp add: db_ok_def list_all_iff)
  note found = get_by_email_own [OF assms(1,2) low]
  have "authenticate env amb (u_email u) wrong st
      = (Inl (app_error AuthenticationError ''incorrect email or password''), st)"
    using assms(5) by (rule authenticate_wrong_password [OF assms(1,2) low])
  moreover have "authenticate env amb unknown wrong st
      = (Inl (app_error AuthenticationError ''incorrect email or password''), st)"
    using assms(4,6) by (simp add: authenticate_def auth_ops)
  moreover have "request_password_reset env amb (u_email u) st = (Inl e, st)"
    using found assms(3,8) account_token_created [OF assms(7)]
    by (simp add: request_password_reset_def auth_ops create_reset_token_def)
  ultimately show ?thesis using assms(4) by (simp add: request_password_reset_def auth_ops)
qed

theorem account_enumeration_witness:
  "\<exists>env :: (mail list, memory_cache) auth_env.
     request_password_reset env (example_ambient 1000) ''bob@x.org'' example_state = (Inr (), example_state)
   \<and> request_password_reset env (example_ambient 1000) (u_email example_user) example_state
     = (Inl (TransportError ''no route to host''), example_state)"
proof -
  let ?env = "(example_env [])\<lparr>ae_send := (\<lambda>a s b n. (Inl (TransportError ''no route to host''), n))\<rparr>"
  have bob: "str_lower ''bob@x.org'' = ''bob@x.org''" by code_simp
  have "request_password_reset ?env (example_ambient 1000) ''bob@x.org'' example_state = (Inr (), example_state)
    \<and> request_password_reset ?env (example_ambient 1000) (u_email example_user) example_state
     = (Inl (TransportError ''no route to host''), example_state)"
  proof (rule account_enumeration [where u = example_user and wrong = "''x''", OF example_db_ok, THEN conjunct2])
    show "example_user \<in> set (users (st_db example_state))" "u_is_active example_user"
      by (simp_all add: example_simps)
    show "get_by_email ''bob@x.org'' (st_db example_state) = Inr None"
      by (simp add: get_by_email_def bob scalar_one_or_none_def) (simp add: example_simps)
    show "hash_mismatch (ae_hasher ?env) (u_hashed_password example_user) ''x''"
      "hash_mismatch (ae_hasher ?env) (DUMMY_HASH ?env) ''x''"
      by (simp_all add: hash_mismatch_def DUMMY_HASH_def hash_password_def example_simps)
    show "issued_in_range (example_ambient 1000) (reset_token_ttl (ae_settings ?env))"
      by (auto simp: example_env_def default_settings_def intro: example_valid)
  qed simp
  then show ?thesis by blast
qed

end
