(* ===== verification/Api_Deps.thy ===== *)
theory Api_Deps
  imports Auth_Service Rate_Limit Client_Ip
begin

text \<open>
  The guards of \<^verbatim>\<open>app/api/deps.py\<close>: rate limiting, the access payload, the current user,
  the optional user and the admin check.  \<open>credentials\<close> is the bearer token of the request, if any.
\<close>

section \<open>Rate limiting\<close>

definition caller_identity :: "proxy_trust \<Rightarrow> http_request \<Rightarrow> string" where
  "caller_identity trust request =
     (case client_ip trust request of None \<Rightarrow> ''anonymous'' | Some a \<Rightarrow> if a = [] then ''anonymous'' else a)"

text \<open>On admission the number of remaining requests is stored on the request.\<close>

definition enforce_rate_limit ::
  "(pyfloat \<Rightarrow> string \<Rightarrow> 'l \<Rightarrow> (bool \<times> int) \<times> 'l) \<Rightarrow> ('l \<Rightarrow> int) \<Rightarrow> proxy_trust \<Rightarrow> pyfloat \<Rightarrow> http_request \<Rightarrow> 'l
   \<Rightarrow> int result \<times> 'l" where
  "enforce_rate_limit chk limit_of trust t request l =
     (case chk t (caller_identity trust request) l of
        ((allowed, remaining), l') \<Rightarrow>
          (if allowed then Inr remaining
           else Inl (AppExn \<lparr>err_class = RateLimitedError, err_detail = ''rate limit exceeded, slow down'',
                             err_extra = [(''limit_per_minute'', JInt (limit_of l'))]\<rparr>), l'))"

lemma enforce_first:
  assumes "0 < n"
  shows "fst (enforce_rate_limit check limit_of trust t request (InMemoryRateLimiter n w t0)) = Inr (n - 1)"
  using check_first [OF assms] by (simp add: enforce_rate_limit_def split: prod.split) (metis Pair_inject fst_conv)

context rate_limiter
begin

lemma enforce_outcome:
  assumes "ok l" "enforce_rate_limit check limit_of trust t request l = (r, l')"
  shows "ok l' \<and> limit_of l' = limit_of l \<and>
    (case r of
       Inr remaining \<Rightarrow> 0 \<le> remaining \<and> remaining < limit_of l
     | Inl e \<Rightarrow> problem_status (handle_exception trace e) = 429
         \<and> dict_get (problem_body (handle_exception trace e)) ''limit_per_minute'' = Some (JInt (limit_of l)))"
proof -
  obtain allowed remaining l1 where c: "check t (caller_identity trust request) l = ((allowed, remaining), l1)"
    by (metis prod.collapse)
  have "ok l1" "limit_of l1 = limit_of l"
    using check_ok [OF assms(1), of t "caller_identity trust request"]
      check_limit [of t "caller_identity trust request" l] c by simp_all
  moreover have "0 \<le> remaining \<and> (allowed \<longrightarrow> remaining < limit_of l)"
    using check_remaining [OF assms(1), of t "caller_identity trust request" allowed remaining] c by simp
  ultimately show ?thesis
    using assms(2) c
    by (auto simp: enforce_rate_limit_def handle_exception_def problem_def dict_get_update split: if_splits)
qed

end


section \<open>Authentication\<close>

definition get_access_payload ::
  "('n, 'c) auth_env \<Rightarrow> ambient \<Rightarrow> string option \<Rightarrow> ('n, 'c, payload) auth_op" where
  "get_access_payload env amb credentials =
     (case credentials of
        None \<Rightarrow> raise_state (app_error AuthenticationError ''missing bearer token'')
      | Some token \<Rightarrow>
          bind_state (lift_result (decode env amb token Access)) (\<lambda>p.
          bind_state (denylisted env amb p) (\<lambda>revoked.
            if revoked then raise_state (app_error AuthenticationError ''this session has been revoked'')
            else return_state p)))"

definition get_current_user ::
  "('n, 'c) auth_env \<Rightarrow> ambient \<Rightarrow> string option \<Rightarrow> ('n, 'c, User) auth_op" where
  "get_current_user env amb credentials =
     bind_state (get_access_payload env amb credentials) (\<lambda>p.
     bind_state (lift_result (subject_uuid p)) (\<lambda>i.
     bind_state (read_db (\<lambda>db. Inr (get_by_id i db))) (\<lambda>user.
       case user of
         None \<Rightarrow> raise_state (app_error AuthenticationError ''user no longer exists or is disabled'')
       | Some u \<Rightarrow>
           if \<not> u_is_active u
           then raise_state (app_error AuthenticationError ''user no longer exists or is disabled'')
           else return_state u)))"

definition get_optional_user ::
  "('n, 'c) auth_env \<Rightarrow> ambient \<Rightarrow> string option \<Rightarrow> ('n, 'c, User option) auth_op" where
  "get_optional_user env amb credentials =
     (case credentials of
        None \<Rightarrow> return_state None
      | Some token \<Rightarrow>
          (case decode_token (ae_jwt env) (utc_timestamp (now_us amb)) token Access (ae_settings env) of
             Inl (TokenError m) \<Rightarrow> return_state None
           | Inl e \<Rightarrow> raise_state e
           | Inr p \<Rightarrow>
               bind_state (lift_result (subject_uuid p)) (\<lambda>i. read_db (\<lambda>db. Inr (get_by_id i db)))))"

definition require_admin :: "User \<Rightarrow> User result" where
  "require_admin user =
     (if u_role user \<noteq> ADMIN then Inl (app_error PermissionDeniedError ''admin privileges required'')
      else Inr user)"


section \<open>Sessions\<close>

lemma decode_issued:
  assumes "jwt_reads_back (ae_jwt env) (ae_settings env) (account_claims amb jti u ty ttl)" "issued_in_range amb ttl"
    and "create_token (ae_jwt env) (now_us amb) jti (uuid_str (u_id u)) ty ttl (ae_settings env) = Inr token"
  shows "decode env later token ty =
    (if still_valid amb ttl later then Inr (account_claims amb jti u ty ttl)
     else Inl (app_error AuthenticationError ''token has expired''))"
  using assms decode_created [of "ae_jwt env" "ae_settings env" "now_us amb" jti "uuid_str (u_id u)" ty ttl token
      "utc_timestamp (now_us later)" ty]
  by (auto simp: decode_def account_claims_def issued_in_range_def still_valid_def)

lemma account_claims_fields:
  "jti \<noteq> [] \<Longrightarrow> jti_of (account_claims amb jti u ty ttl) = Some (JStr jti)"
  "dict_get (account_claims amb jti u ty ttl) ''exp'' = Some (JInt (now_us amb div 1000000 + ttl))"
  by (simp_all add: jti_of_def account_claims_def token_claims_def)

text \<open>
  A moment at which \<open>time.time()\<close> and \<open>datetime.now(UTC)\<close> agree.
\<close>

definition clocks_agree :: "ambient \<Rightarrow> bool" where
  "clocks_agree amb \<longleftrightarrow> wall amb = utc_timestamp (now_us amb) \<and> 0 \<le> wall amb"

lemma logout_denylist:
  assumes "ae_cache env = memory_cache_ops" "rt \<noteq> []"
    and "decode_token (ae_jwt env) (utc_timestamp (now_us amb)) rt Refresh (ae_settings env) = Inr q"
  shows "logout env amb p (Some rt) st = (Inr (), st\<lparr>st_denylist :=
    revoke memory_cache_ops (wall amb) (tick amb) q
      (revoke memory_cache_ops (wall amb) (tick amb) p (st_denylist st))\<rparr>)"
  using assms by (simp add: logout_def deny_def bind_state_def)

lemma access_rejected:
  assumes "decode env later token Access = Inr p" "ae_cache env = memory_cache_ops"
    and "fst (is_revoked memory_cache_ops (tick later) p (st_denylist st))"
  shows "\<exists>st'. get_access_payload env later (Some token) st
      = (Inl (app_error AuthenticationError ''this session has been revoked''), st')"
  using assms by (simp add: get_access_payload_def denylisted_def bind_state_def raise_state_def lift_result_def split_beta)

lemma refresh_rejected:
  assumes "decode env later token Refresh = Inr p" "ae_cache env = memory_cache_ops"
    and "fst (is_revoked memory_cache_ops (tick later) p (st_denylist st))"
  shows "\<exists>st'. refresh env later token st
      = (Inl (app_error AuthenticationError ''this session has been revoked''), st')"
  using assms by (simp add: refresh_def denylisted_def bind_state_def raise_state_def lift_result_def split_beta)


lemma get_access_payload_Inr:
  assumes "get_access_payload env amb credentials st = (Inr p, st')"
  shows "\<exists>token. credentials = Some token \<and> decode env amb token Access = Inr p"
  using assms
  by (auto simp: get_access_payload_def bind_state_Inr lift_result_def return_state_def raise_state_def
      split: option.splits if_splits)


section \<open>Properties\<close>

text \<open>The example session: tokens of \<open>example_user\<close> issued at second 1000.\<close>

definition session_access :: payload where
  "session_access = account_claims (example_ambient 1000) ''a'' example_user Access 900"

definition session_refresh :: payload where
  "session_refresh = account_claims (example_ambient 1000) ''b'' example_user Refresh 1209600"

definition session_env :: "(mail list, memory_cache) auth_env" where
  "session_env = example_env [session_access, session_refresh]"

lemma session_env_fields:
  "ae_cache session_env = memory_cache_ops"
  "ae_settings session_env = default_settings" "ae_jwt session_env = table_lib [session_access, session_refresh]"
  "access_token_ttl default_settings = 900" "refresh_token_ttl default_settings = 1209600"
  "jti1 (example_ambient t) = ''a''" "jti2 (example_ambient t) = ''b''"
  by (simp_all add: session_env_def example_env_def default_settings_def example_ambient_def)

lemma session_reads_back:
  "jwt_reads_back (ae_jwt session_env) (ae_settings session_env) session_access"
  "jwt_reads_back (ae_jwt session_env) (ae_settings session_env) session_refresh"
  unfolding session_env_fields by (rule table_lib_reads_back, simp)+

lemma session_range: "issued_in_range (example_ambient 1000) 900" "issued_in_range (example_ambient 1000) 1209600"
  by (rule example_valid; simp)+

lemma session_tokens: "issue_tokens session_env (example_ambient 1000) example_user
    = Inr \<lparr>access_token = [], refresh_token = ''x'', token_type = ''bearer''\<rparr>"
  using account_token_created [OF session_range(1), of "ae_jwt session_env" "''a''" example_user Access default_settings]
    account_token_created [OF session_range(2), of "ae_jwt session_env" "''b''" example_user Refresh default_settings]
  by (simp add: issue_tokens_def create_access_token_def create_refresh_token_def session_env_fields
      flip: session_access_def session_refresh_def)
     (simp add: table_lib_def session_access_def session_refresh_def account_claims_def token_claims_def)

lemma session_created:
  "create_token (ae_jwt session_env) (now_us (example_ambient 1000)) ''a'' (uuid_str (u_id example_user)) Access 900
     (ae_settings session_env) = Inr []"
  using session_tokens
  by (auto simp: issue_tokens_def bind_result_Inr_iff create_access_token_def session_env_fields)

lemma session_decodes:
  "0 \<le> t \<Longrightarrow> t < 1900 \<Longrightarrow> decode session_env (example_ambient t) [] Access = Inr session_access"
  using decode_issued [OF session_reads_back(1) [unfolded session_access_def] session_range(1) session_created, of "example_ambient t"]
    example_valid(2) [of t 1000 900]
  by (simp add: session_access_def)

lemma session_access_payload:
  "get_access_payload session_env (example_ambient 1100) (Some []) example_state = (Inr session_access, example_state)"
  using session_decodes [of 1100]
  by (simp add: get_access_payload_def denylisted_def bind_state_def lift_result_def return_state_def is_revoked_def
      session_env_fields memory_cache_ops_def cache_get_def example_state_def split: option.split)

text \<open>
  The optional user ignores both the denylist and the account's state.  With an unexpired access token,
  \<open>get_optional_user\<close> answers with the account whatever the denylist holds and even when the account is
  disabled, although \<open>get_current_user\<close> rejects the token once it is revoked or the account disabled.
\<close>

lemma optional_user_ignores_revocation:
  assumes "decode env amb token Access = Inr p" and "subject_uuid p = Inr (u_id u)"
    and "db_ok (st_db st)" "u \<in> set (users (st_db st))"
    and "fst (is_revoked (ae_cache env) (tick amb) p (st_denylist st)) \<or> \<not> u_is_active u"
  shows "get_optional_user env amb (Some token) st = (Inr (Some u), st)
    \<and> (\<exists>m st'. get_current_user env amb (Some token) st = (Inl (app_error AuthenticationError m), st'))"
proof -
  have dec: "decode_token (ae_jwt env) (utc_timestamp (now_us amb)) token Access (ae_settings env) = Inr p"
    using assms(1) by (auto simp: decode_def split: sum.splits exn.splits)
  have "get_optional_user env amb (Some token) st = (Inr (Some u), st)"
    using dec assms(2) get_by_id_own [OF assms(3,4)] by (simp add: get_optional_user_def read_db_def)
  moreover have "\<exists>m st'. get_current_user env amb (Some token) st = (Inl (app_error AuthenticationError m), st')"
    using assms get_by_id_own [OF assms(3,4)]
    by (auto simp: get_current_user_def get_access_payload_def denylisted_def bind_state_def lift_result_def
        raise_state_def return_state_def read_db_def split_beta)
  ultimately show ?thesis by blast
qed

lemma optional_user_ignores_revocation_example:
  "let st = example_state\<lparr>st_db := empty_database\<lparr>users := [example_user\<lparr>u_is_active := False\<rparr>]\<rparr>\<rparr>
   in get_optional_user session_env (example_ambient 1100) (Some []) st = (Inr (Some (example_user\<lparr>u_is_active := False\<rparr>)), st)"
proof -
  let ?u = "example_user\<lparr>u_is_active := False\<rparr>"
  let ?st = "example_state\<lparr>st_db := empty_database\<lparr>users := [?u]\<rparr>\<rparr>"
  have ok: "db_ok (st_db ?st)" by (simp add: db_ok_def empty_database_def example_user_def lower_ann)
  have sub: "subject_uuid session_access = Inr (u_id ?u)" by (simp add: session_access_def)
  have "decode session_env (example_ambient 1100) [] Access = Inr session_access" by (rule session_decodes) simp_all
  from optional_user_ignores_revocation [OF this sub ok] show ?thesis by simp
qed

text \<open>
  C24: a caller outside the trusted proxies cannot widen its budget by varying \<open>X-Forwarded-For\<close>.  For any
  sequence of requests from the same untrusted peer, with any headers, in clock order, at most \<open>limit\<close>
  of them pass \<open>enforce_rate_limit\<close> in any window that ends at or after the last one, and each of the
  others gets a 429.
\<close>

fun guarded :: "proxy_trust \<Rightarrow> (pyfloat \<times> http_request) list \<Rightarrow> limiter \<Rightarrow> int result list" where
  "guarded trust [] l = []"
| "guarded trust ((t, request) # rest) l =
     (case enforce_rate_limit check limit trust t request l of (r, l') \<Rightarrow> r # guarded trust rest l')"

definition passed :: "(pyfloat \<times> http_request) list \<Rightarrow> int result list \<Rightarrow> pyfloat list" where
  "passed requests rs = map (fst \<circ> fst) (filter (\<lambda>(q, r). \<not> isl r) (zip requests rs))"

lemma guarded_checks:
  assumes "\<forall>q \<in> set requests. caller_identity trust (snd q) = who"
  shows "passed requests (guarded trust requests l)
       = admitted who (map (\<lambda>(t, q). (t, who)) requests) (fst (run_checks check (map (\<lambda>(t, q). (t, who)) requests) l))"
    and "limiter_ok l \<Longrightarrow> r \<in> set (guarded trust requests l) \<Longrightarrow> r = Inl e \<Longrightarrow> problem_status (handle_exception trace e) = 429"
proof -
  show "passed requests (guarded trust requests l)
       = admitted who (map (\<lambda>(t, q). (t, who)) requests) (fst (run_checks check (map (\<lambda>(t, q). (t, who)) requests) l))"
    using assms
    by (induction requests arbitrary: l) (auto simp: passed_def enforce_rate_limit_def split: prod.split)
  show "problem_status (handle_exception trace e) = 429"
    if "limiter_ok l" "r \<in> set (guarded trust requests l)" "r = Inl e"
    using that
  proof (induction requests arbitrary: l)
    case (Cons q requests)
    obtain t req where q: "q = (t, req)" by fastforce
    obtain r1 l1 where e: "enforce_rate_limit check limit trust t req l = (r1, l1)" by fastforce
    show ?case
      using Cons.prems Cons.IH [of l1] in_process.enforce_outcome [OF Cons.prems(1) e, of trace] by (auto simp: q e)
  qed simp
qed

theorem rate_limit_not_evadable:
  assumes "0 \<le> n_max" and "sorted (t0 # map fst requests)" and "\<not> trusts trust (Some peer)" "peer \<noteq> []"
    and "\<forall>q \<in> set requests. req_client (snd q) = Some peer"
    and "rs = guarded trust requests (InMemoryRateLimiter n_max w t0)"
  shows "(\<forall>t. (\<forall>x \<in> set (t0 # map fst requests). x \<le> t) \<longrightarrow> int (in_window w t (passed requests rs)) \<le> n_max)
    \<and> (\<forall>e. Inl e \<in> set rs \<longrightarrow> problem_status (handle_exception trace e) = 429)"
proof -
  have who: "\<forall>q \<in> set requests. caller_identity trust (snd q) = peer"
    using assms(3-5) by (auto simp: caller_identity_def client_ip_def)
  let ?calls = "map (\<lambda>(t, q). (t, peer)) requests"
  have times: "map fst ?calls = map fst requests" by auto
  have "int (in_window w t (passed requests rs)) \<le> n_max" if "\<forall>x \<in> set (t0 # map fst requests). x \<le> t" for t
    using sliding_window [OF assms(1), of t0 ?calls w, THEN conjunct2] assms(2) that
    unfolding times assms(6) guarded_checks(1) [OF who] by blast
  moreover have "problem_status (handle_exception trace e) = 429" if "Inl e \<in> set rs" for e
    using guarded_checks(2) [OF who, of "InMemoryRateLimiter n_max w t0" "Inl e" e trace] that
    by (simp add: assms(6) InMemoryRateLimiter_def)
  ultimately show ?thesis by blast
qed

theorem rate_limit_not_evadable_witness:
  "int (in_window 60 10 (passed
      [(0, \<lparr>req_client = Some ''8.8.8.8'', req_headers = [(''x-forwarded-for'', ''1.1.1.1'')]\<rparr>),
       (5, \<lparr>req_client = Some ''8.8.8.8'', req_headers = [(''x-forwarded-for'', ''2.2.2.2'')]\<rparr>)]
      (guarded (ProxyTrust [])
        [(0, \<lparr>req_client = Some ''8.8.8.8'', req_headers = [(''x-forwarded-for'', ''1.1.1.1'')]\<rparr>),
         (5, \<lparr>req_client = Some ''8.8.8.8'', req_headers = [(''x-forwarded-for'', ''2.2.2.2'')]\<rparr>)]
        (InMemoryRateLimiter 1 60 0)))) \<le> 1"
  by (rule rate_limit_not_evadable [where peer = "''8.8.8.8''" and trust = "ProxyTrust []", OF _ _ _ _ _ refl,
        THEN conjunct1, rule_format, of _ 0])
     (auto simp: trusts_def ProxyTrust_def map_filter_simps)

end
