(* ===== verification/Schemas.thy ===== *)
theory Schemas
  imports Py_Time Database
begin

text \<open>
  Request validation of \<^verbatim>\<open>app/schemas/\<close> on ASCII text: password strength, the account requests
  and the price alert request.  Pydantic collects the errors of all fields, in field order, and
  FastAPI raises them as one \<open>RequestValidationError\<close>.  Whether a text is an email address, and its
  normal form, is decided by the email-validator package, the parameter \<open>validate_email\<close>.
\<close>

section \<open>Passwords\<close>

definition MIN_PASSWORD_LEN :: nat where "MIN_PASSWORD_LEN = 10"
definition MAX_PASSWORD_LEN :: nat where "MAX_PASSWORD_LEN = 128"

definition validate_password_strength :: "string \<Rightarrow> string result" where
  "validate_password_strength v =
     (if str_isalpha v \<or> str_isdigit v then Inl (ValueError ''password must mix letters and numbers'')
      else if str_lower v = v \<or> str_upper v = v
      then Inl (ValueError ''password must contain upper and lower case letters'')
      else Inr v)"

text \<open>The length limits of the field, then the validator; pydantic prefixes the message of its \<open>ValueError\<close>.\<close>

definition strong_password :: "string \<Rightarrow> string result" where
  "strong_password v =
     (if length v < MIN_PASSWORD_LEN then Inl (ValueError ''String should have at least 10 characters'')
      else if MAX_PASSWORD_LEN < length v then Inl (ValueError ''String should have at most 128 characters'')
      else case validate_password_strength v of
             Inl (ValueError m) \<Rightarrow> Inl (ValueError (''Value error, '' @ m))
           | r \<Rightarrow> r)"

definition strip_name :: "string option \<Rightarrow> string option" where
  "strip_name value =
     (case value of
        None \<Rightarrow> None
      | Some v \<Rightarrow> let stripped = str_strip v in if stripped = [] then None else Some stripped)"

lemma str_lower_fixed: "str_lower v = v \<longleftrightarrow> (\<forall>c \<in> set v. \<not> is_upper c)"
proof -
  have "lower_char c = c \<longleftrightarrow> \<not> is_upper c" for c
    by (metis is_upper_lower_char lower_char_def)
  then show ?thesis by (induction v) (auto simp: str_lower_def)
qed

lemma str_upper_fixed: "str_upper v = v \<longleftrightarrow> (\<forall>c \<in> set v. \<not> is_lower c)"
proof -
  have "upper_char c = c \<longleftrightarrow> \<not> is_lower c" for c
    by (metis is_lower_upper_char upper_char_def)
  then show ?thesis by (induction v) (auto simp: str_upper_def)
qed

lemma password_strength_iff:
  "validate_password_strength v = Inr w \<longleftrightarrow>
     w = v \<and> (\<exists>c \<in> set v. is_upper c) \<and> (\<exists>c \<in> set v. is_lower c) \<and> (\<exists>c \<in> set v. \<not> is_alpha c)"
proof -
  have "\<not> str_isdigit v" if "\<exists>c \<in> set v. is_upper c"
    using that by (fastforce simp: str_isdigit_def list_all_iff is_digit_def is_upper_def)
  moreover have "v \<noteq> []" if "\<exists>c \<in> set v. is_upper c" using that by auto
  ultimately show ?thesis
    by (auto simp: validate_password_strength_def str_lower_fixed str_upper_fixed str_isalpha_def list_all_iff)
qed


section \<open>Account requests\<close>

text \<open>The errors of the fields: each is its name and message, or nothing.\<close>

definition field_error :: "string \<Rightarrow> 'a result \<Rightarrow> (string list option \<times> string option) list" where
  "field_error name r =
     (case r of
        Inl (ValueError m) \<Rightarrow> [(Some [''body'', name], Some m)]
      | Inl e \<Rightarrow> [(Some [''body'', name], None)]
      | Inr v \<Rightarrow> [])"

record RegisterRequest =
  reg_email :: string
  reg_password :: string
  reg_full_name :: "string option"

definition max_len :: "nat \<Rightarrow> string option \<Rightarrow> string option result" where
  "max_len n value =
     (case value of
        Some v \<Rightarrow> if n < length v then Inl (ValueError ''String should have at most 200 characters'') else Inr value
      | None \<Rightarrow> Inr None)"

definition validate_register ::
  "(string \<Rightarrow> string result) \<Rightarrow> string \<Rightarrow> string \<Rightarrow> string option \<Rightarrow> RegisterRequest result" where
  "validate_register validate_email email password full_name =
     (case (validate_email email, strong_password password, max_len 200 full_name) of
        (Inr e, Inr p, Inr n) \<Rightarrow> Inr \<lparr>reg_email = e, reg_password = p, reg_full_name = strip_name n\<rparr>
      | (e, p, n) \<Rightarrow> Inl (RequestValidationError
          (field_error ''email'' e @ field_error ''password'' p @ field_error ''full_name'' n)))"

record LoginRequest =
  login_email :: string
  login_password :: string

definition validate_login :: "(string \<Rightarrow> string result) \<Rightarrow> string \<Rightarrow> string \<Rightarrow> LoginRequest result" where
  "validate_login validate_email email password =
     (let p = (if password = [] then Inl (ValueError ''String should have at least 1 character'')
               else if MAX_PASSWORD_LEN < length password then Inl (ValueError ''String should have at most 128 characters'')
               else Inr password)
      in case (validate_email email, p) of
           (Inr e, Inr v) \<Rightarrow> Inr \<lparr>login_email = e, login_password = v\<rparr>
         | (e, v) \<Rightarrow> Inl (RequestValidationError (field_error ''email'' e @ field_error ''password'' v)))"

definition nonempty_token :: "string \<Rightarrow> string \<Rightarrow> string result" where
  "nonempty_token name token =
     (if token = [] then Inl (RequestValidationError [(Some [''body'', name], Some ''String should have at least 1 character'')])
      else Inr token)"

text \<open>The body of \<open>ResendVerificationRequest\<close> and \<open>PasswordResetRequest\<close>: one e-mail address.\<close>

definition email_only :: "(string \<Rightarrow> string result) \<Rightarrow> string \<Rightarrow> string result" where
  "email_only validate_email email =
     (case validate_email email of
        Inl e \<Rightarrow> Inl (RequestValidationError (field_error ''email'' (Inl e :: string result)))
      | Inr v \<Rightarrow> Inr v)"

record PasswordResetConfirm =
  confirm_token :: string
  confirm_new_password :: string

definition validate_reset_confirm :: "string \<Rightarrow> string \<Rightarrow> PasswordResetConfirm result" where
  "validate_reset_confirm token new_password =
     (let t = (if token = [] then Inl (ValueError ''String should have at least 1 character'') else Inr token)
      in case (t, strong_password new_password) of
           (Inr t', Inr p) \<Rightarrow> Inr \<lparr>confirm_token = t', confirm_new_password = p\<rparr>
         | (t', p) \<Rightarrow> Inl (RequestValidationError (field_error ''token'' t' @ field_error ''new_password'' p)))"


section \<open>Price alerts\<close>

record PriceAlertCreate =
  pac_origin :: string
  pac_destination :: string
  pac_departure_date :: string
  pac_target_amount_minor :: int
  pac_currency :: string
  pac_channel :: string

definition pattern_message :: "string \<Rightarrow> string" where
  "pattern_message p = ''String should match pattern '' @ [CHR 0x27] @ p @ [CHR 0x27]"

definition pattern_error :: "string \<Rightarrow> exn" where
  "pattern_error p = ValueError (pattern_message p)"

definition DATE_PATTERN :: string where
  "DATE_PATTERN = ''^'' @ [CHR 0x5C] @ ''d{4}-'' @ [CHR 0x5C] @ ''d{2}-'' @ [CHR 0x5C] @ ''d{2}$''"

definition three_chars :: "string \<Rightarrow> string result" where
  "three_chars v =
     (if length v < 3 then Inl (ValueError ''String should have at least 3 characters'')
      else if 3 < length v then Inl (ValueError ''String should have at most 3 characters'')
      else Inr v)"

definition validate_alert ::
  "string \<Rightarrow> string \<Rightarrow> string \<Rightarrow> int \<Rightarrow> string option \<Rightarrow> string option \<Rightarrow> PriceAlertCreate result" where
  "validate_alert origin destination departure_date target currency_opt channel_opt =
     (let cur = (case currency_opt of None \<Rightarrow> ''USD'' | Some c \<Rightarrow> c);
          chan = (case channel_opt of None \<Rightarrow> ''email'' | Some c \<Rightarrow> c);
          d = (if is_iso_date_shape departure_date then Inr departure_date
               else Inl (pattern_error DATE_PATTERN));
          t = (if 0 < target then Inr target else Inl (ValueError ''Input should be greater than 0''));
          c = three_chars cur;
          ch = (if chan = ''email'' \<or> chan = ''push'' then Inr chan else Inl (pattern_error ''^(email|push)$''));
          errors = field_error ''origin'' (three_chars origin) @ field_error ''destination'' (three_chars destination)
            @ field_error ''departure_date'' d @ field_error ''target_amount_minor'' t
            @ field_error ''currency'' c @ field_error ''channel'' ch
      in if errors = []
         then Inr \<lparr>pac_origin = origin, pac_destination = destination, pac_departure_date = departure_date,
                   pac_target_amount_minor = target, pac_currency = cur, pac_channel = chan\<rparr>
         else Inl (RequestValidationError errors))"

lemma field_error_Nil: "field_error name r = [] \<longleftrightarrow> (\<exists>v. r = Inr v)"
  by (auto simp: field_error_def split: sum.splits exn.splits)

lemma validate_alert_Inr:
  "validate_alert origin destination dep target cur chan = Inr p \<Longrightarrow>
   length (pac_origin p) = 3 \<and> length (pac_destination p) = 3 \<and> is_iso_date_shape (pac_departure_date p)
   \<and> 0 < pac_target_amount_minor p \<and> length (pac_currency p) = 3 \<and> pac_channel p \<in> {''email'', ''push''}"
  by (auto simp: validate_alert_def Let_def field_error_Nil three_chars_def split: if_splits)


section \<open>Properties\<close>

text \<open>
  Which passwords an account can have.  A password passes registration exactly when it has 10 to 128
  characters with an upper-case letter, a lower-case letter and a character that is no letter; no digit is
  required, although the message for a rejected password asks for letters and numbers.
\<close>

lemma accepted_passwords:
  "(strong_password v = Inr w \<longleftrightarrow>
      w = v \<and> 10 \<le> length v \<and> length v \<le> 128 \<and> (\<exists>c \<in> set v. is_upper c) \<and> (\<exists>c \<in> set v. is_lower c)
      \<and> (\<exists>c \<in> set v. \<not> is_alpha c))
   \<and> strong_password ''Abcdefghi!'' = Inr ''Abcdefghi!''
   \<and> strong_password ''Abcdefghij'' = Inl (ValueError ''Value error, password must mix letters and numbers'')"
proof -
  have "strong_password ''Abcdefghi!'' = Inr ''Abcdefghi!''"
    "strong_password ''Abcdefghij'' = Inl (ValueError ''Value error, password must mix letters and numbers'')" by code_simp+
  moreover have "strong_password v = Inr w \<longleftrightarrow> 10 \<le> length v \<and> length v \<le> 128 \<and> validate_password_strength v = Inr w"
    by (auto simp: strong_password_def MIN_PASSWORD_LEN_def MAX_PASSWORD_LEN_def split: sum.split exn.split)
  ultimately show ?thesis using password_strength_iff [of v w] by auto
qed

end
