(* ===== verification/Api_Accounts.thy ===== *)
theory Api_Accounts
  imports Api_Deps Schemas
begin

text \<open>
  The account endpoints of \<^verbatim>\<open>app/api/v1/\<close>: \<^verbatim>\<open>auth.py\<close>,
  \<^verbatim>\<open>price_alerts.py\<close> and \<^verbatim>\<open>admin.py\<close>, with their dependencies in the order in
  which FastAPI resolves them: the rate limit of the router, then the user, then the validated body,
  then the handler inside the session scope.
\<close>

section \<open>The application\<close>

record ('n, 'c, 'l) app_env =
  app_auth :: "('n, 'c) auth_env"
  app_check :: "pyfloat \<Rightarrow> string \<Rightarrow> 'l \<Rightarrow> (bool \<times> int) \<times> 'l"
  app_limit_of :: "'l \<Rightarrow> int"
  app_proxy_trust :: proxy_trust
  app_validate_email :: "string \<Rightarrow> string result"

record ('n, 'c, 'l) app_state =
  as_auth :: "('n, 'c) auth_state"
  as_limiter :: 'l

text \<open>A handler that runs after the rate limit let the request through, inside the session scope.\<close>

definition endpoint ::
  "('n, 'c, 'l) app_env \<Rightarrow> ambient \<Rightarrow> http_request \<Rightarrow> ('n, 'c, 'a) auth_op \<Rightarrow> ('n, 'c, 'l) app_state
   \<Rightarrow> 'a result \<times> ('n, 'c, 'l) app_state" where
  "endpoint env amb request handler st =
     (case enforce_rate_limit (app_check env) (app_limit_of env) (app_proxy_trust env) (tick amb) request (as_limiter st) of
        (Inl e, l) \<Rightarrow> (Inl e, st\<lparr>as_limiter := l\<rparr>)
      | (Inr remaining, l) \<Rightarrow>
          (case in_session handler (as_auth st) of
             (r, a) \<Rightarrow> (r, st\<lparr>as_limiter := l, as_auth := a\<rparr>)))"

definition add_audit :: "ambient \<Rightarrow> uuid option \<Rightarrow> string \<Rightarrow> string option \<Rightarrow> ('n, 'c, unit) auth_op" where
  "add_audit amb actor action ip st =
     (Inr (), st\<lparr>st_db := (st_db st)\<lparr>audit_log := audit_log (st_db st) @
        [\<lparr>l_id = row_uuid amb, l_actor_id = actor, l_action = action, l_detail = [],
          l_ip_address = ip, l_created_at = now_us amb\<rparr>]\<rparr>\<rparr>)"


section \<open>auth.py\<close>

record UserOut =
  out_id :: uuid
  out_email :: string
  out_full_name :: "string option"
  out_role :: string
  out_is_verified :: bool
  out_created_at :: int

fun role_name :: "UserRole \<Rightarrow> string" where
  "role_name USER = ''user''"
| "role_name ADMIN = ''admin''"

definition user_out :: "User \<Rightarrow> UserOut" where
  "user_out u =
     \<lparr>out_id = u_id u, out_email = u_email u, out_full_name = u_full_name u, out_role = role_name (u_role u),
      out_is_verified = u_is_verified u, out_created_at = u_created_at u\<rparr>"

record TokenResponse =
  tr_access_token :: string
  tr_refresh_token :: string
  tr_token_type :: string

record MessageResponse =
  mr_message :: string

definition token_response :: "TokenPair \<Rightarrow> TokenResponse" where
  "token_response tokens = \<lparr>tr_access_token = access_token tokens, tr_refresh_token = refresh_token tokens,
     tr_token_type = token_type tokens\<rparr>"

definition auth_client_ip :: "('n, 'c, 'l) app_env \<Rightarrow> http_request \<Rightarrow> string option" where
  "auth_client_ip env request = client_ip (app_proxy_trust env) request"

definition register_endpoint ::
  "('n, 'c, 'l) app_env \<Rightarrow> ambient \<Rightarrow> http_request \<Rightarrow> string \<Rightarrow> string \<Rightarrow> string option \<Rightarrow> ('n, 'c, 'l) app_state
   \<Rightarrow> UserOut result \<times> ('n, 'c, 'l) app_state" where
  "register_endpoint env amb request email password full_name =
     endpoint env amb request
       (bind_state (lift_result (validate_register (app_validate_email env) email password full_name)) (\<lambda>p.
        bind_state (register (app_auth env) amb (reg_email p) (reg_password p) (reg_full_name p)) (\<lambda>user.
        bind_state (add_audit amb (Some (u_id user)) ''user.register'' (auth_client_ip env request)) (\<lambda>_.
          return_state (user_out user)))))"

definition login_endpoint ::
  "('n, 'c, 'l) app_env \<Rightarrow> ambient \<Rightarrow> http_request \<Rightarrow> string \<Rightarrow> string \<Rightarrow> ('n, 'c, 'l) app_state
   \<Rightarrow> TokenResponse result \<times> ('n, 'c, 'l) app_state" where
  "login_endpoint env amb request email password =
     endpoint env amb request
       (bind_state (lift_result (validate_login (app_validate_email env) email password)) (\<lambda>p.
        bind_state (authenticate (app_auth env) amb (login_email p) (login_password p)) (\<lambda>user.
        bind_state (add_audit amb (Some (u_id user)) ''user.login'' (auth_client_ip env request)) (\<lambda>_.
        bind_state (lift_result (issue_tokens (app_auth env) amb user)) (\<lambda>tokens.
          return_state (token_response tokens))))))"

definition refresh_endpoint ::
  "('n, 'c, 'l) app_env \<Rightarrow> ambient \<Rightarrow> http_request \<Rightarrow> string \<Rightarrow> ('n, 'c, 'l) app_state
   \<Rightarrow> TokenResponse result \<times> ('n, 'c, 'l) app_state" where
  "refresh_endpoint env amb request token =
     endpoint env amb request
       (bind_state (lift_result (nonempty_token ''refresh_token'' token)) (\<lambda>t.
        bind_state (refresh (app_auth env) amb t) (\<lambda>tokens. return_state (token_response tokens))))"

definition me_endpoint ::
  "('n, 'c, 'l) app_env \<Rightarrow> ambient \<Rightarrow> http_request \<Rightarrow> string option \<Rightarrow> ('n, 'c, 'l) app_state
   \<Rightarrow> UserOut result \<times> ('n, 'c, 'l) app_state" where
  "me_endpoint env amb request credentials =
     endpoint env amb request
       (bind_state (get_current_user (app_auth env) amb credentials) (\<lambda>u. return_state (user_out u)))"

definition verify_email_endpoint ::
  "('n, 'c, 'l) app_env \<Rightarrow> ambient \<Rightarrow> http_request \<Rightarrow> string \<Rightarrow> ('n, 'c, 'l) app_state
   \<Rightarrow> MessageResponse result \<times> ('n, 'c, 'l) app_state" where
  "verify_email_endpoint env amb request token =
     endpoint env amb request
       (bind_state (lift_result (nonempty_token ''token'' token)) (\<lambda>t.
        bind_state (verify_email (app_auth env) amb t) (\<lambda>_. return_state \<lparr>mr_message = ''email verified''\<rparr>)))"

definition resend_verification_endpoint ::
  "('n, 'c, 'l) app_env \<Rightarrow> ambient \<Rightarrow> http_request \<Rightarrow> string \<Rightarrow> ('n, 'c, 'l) app_state
   \<Rightarrow> MessageResponse result \<times> ('n, 'c, 'l) app_state" where
  "resend_verification_endpoint env amb request email =
     endpoint env amb request
       (bind_state (lift_result (email_only (app_validate_email env) email)) (\<lambda>v.
        bind_state (resend_verification (app_auth env) amb v) (\<lambda>_.
          return_state \<lparr>mr_message = ''if the account exists, a verification email was sent''\<rparr>)))"

definition request_password_reset_endpoint ::
  "('n, 'c, 'l) app_env \<Rightarrow> ambient \<Rightarrow> http_request \<Rightarrow> string \<Rightarrow> ('n, 'c, 'l) app_state
   \<Rightarrow> MessageResponse result \<times> ('n, 'c, 'l) app_state" where
  "request_password_reset_endpoint env amb request email =
     endpoint env amb request
       (bind_state (lift_result (email_only (app_validate_email env) email)) (\<lambda>v.
        bind_state (request_password_reset (app_auth env) amb v) (\<lambda>_.
          return_state \<lparr>mr_message = ''if the account exists, a reset email was sent''\<rparr>)))"

definition confirm_password_reset_endpoint ::
  "('n, 'c, 'l) app_env \<Rightarrow> ambient \<Rightarrow> http_request \<Rightarrow> string \<Rightarrow> string \<Rightarrow> ('n, 'c, 'l) app_state
   \<Rightarrow> MessageResponse result \<times> ('n, 'c, 'l) app_state" where
  "confirm_password_reset_endpoint env amb request token new_password =
     endpoint env amb request
       (bind_state (lift_result (validate_reset_confirm token new_password)) (\<lambda>p.
        bind_state (reset_password (app_auth env) amb (confirm_token p) (confirm_new_password p)) (\<lambda>_.
          return_state \<lparr>mr_message = ''password updated''\<rparr>)))"

definition logout_endpoint ::
  "('n, 'c, 'l) app_env \<Rightarrow> ambient \<Rightarrow> http_request \<Rightarrow> string option \<Rightarrow> string option \<Rightarrow> ('n, 'c, 'l) app_state
   \<Rightarrow> MessageResponse result \<times> ('n, 'c, 'l) app_state" where
  "logout_endpoint env amb request credentials refresh_tok =
     endpoint env amb request
       (bind_state (get_access_payload (app_auth env) amb credentials) (\<lambda>p.
        bind_state (logout (app_auth env) amb p refresh_tok) (\<lambda>_.
        bind_state (lift_result (subject_uuid p)) (\<lambda>i.
        bind_state (add_audit amb (Some i) ''user.logout'' (auth_client_ip env request)) (\<lambda>_.
          return_state \<lparr>mr_message = ''logged out''\<rparr>)))))"


section \<open>price_alerts.py\<close>

record PriceAlertOut =
  pao_id :: uuid
  pao_origin :: string
  pao_destination :: string
  pao_departure_date :: string
  pao_target_amount_minor :: int
  pao_currency :: string
  pao_channel :: string
  pao_is_active :: bool
  pao_created_at :: int

fun channel_name :: "AlertChannel \<Rightarrow> string" where
  "channel_name EMAIL = ''email''"
| "channel_name PUSH = ''push''"

definition alert_out :: "PriceAlert \<Rightarrow> PriceAlertOut" where
  "alert_out a =
     \<lparr>pao_id = a_id a, pao_origin = a_origin a, pao_destination = a_destination a,
      pao_departure_date = a_departure_date a, pao_target_amount_minor = a_target_amount_minor a,
      pao_currency = a_currency a, pao_channel = channel_name (a_channel a), pao_is_active = a_is_active a,
      pao_created_at = a_created_at a\<rparr>"

definition create_alert_endpoint ::
  "('n, 'c, 'l) app_env \<Rightarrow> ambient \<Rightarrow> http_request \<Rightarrow> string option \<Rightarrow> PriceAlertCreate result \<Rightarrow> ('n, 'c, 'l) app_state
   \<Rightarrow> PriceAlertOut result \<times> ('n, 'c, 'l) app_state" where
  "create_alert_endpoint env amb request credentials body =
     endpoint env amb request
       (bind_state (get_current_user (app_auth env) amb credentials) (\<lambda>user.
        bind_state (lift_result body) (\<lambda>p.
          if str_upper (pac_origin p) = str_upper (pac_destination p)
          then raise_state (app_error AppError ''origin and destination must differ'')
          else bind_state (on_db (create_alert_row (new_uuid amb) (now_us amb) (u_id user) (str_upper (pac_origin p))
                 (str_upper (pac_destination p)) (pac_departure_date p) (pac_target_amount_minor p)
                 (str_upper (pac_currency p)) (if pac_channel p = ''email'' then EMAIL else PUSH)))
               (\<lambda>alert. return_state (alert_out alert)))))"

definition list_alerts_endpoint ::
  "('n, 'c, 'l) app_env \<Rightarrow> ambient \<Rightarrow> http_request \<Rightarrow> string option \<Rightarrow> ('n, 'c, 'l) app_state
   \<Rightarrow> PriceAlertOut list result \<times> ('n, 'c, 'l) app_state" where
  "list_alerts_endpoint env amb request credentials =
     endpoint env amb request
       (bind_state (get_current_user (app_auth env) amb credentials) (\<lambda>user.
          read_db (\<lambda>db. Inr (map alert_out (list_for_user (u_id user) db)))))"

definition delete_alert_endpoint ::
  "('n, 'c, 'l) app_env \<Rightarrow> ambient \<Rightarrow> http_request \<Rightarrow> string option \<Rightarrow> string \<Rightarrow> ('n, 'c, 'l) app_state
   \<Rightarrow> unit result \<times> ('n, 'c, 'l) app_state" where
  "delete_alert_endpoint env amb request credentials alert_id =
     endpoint env amb request
       (bind_state (get_current_user (app_auth env) amb credentials) (\<lambda>user.
          case uuid_parse alert_id of
            None \<Rightarrow> raise_state (app_error NotFoundError ''alert not found'')
          | Some i \<Rightarrow>
              bind_state (read_db (get_owned i (u_id user))) (\<lambda>found.
                case found of
                  None \<Rightarrow> raise_state (app_error NotFoundError ''alert not found'')
                | Some alert \<Rightarrow> on_db (\<lambda>db. (Inr (), delete_alert_row alert db)))))"


section \<open>admin.py\<close>

record AdminMetrics =
  total_users :: int
  total_searches :: int
  active_alerts :: int
  popular_routes :: "(string \<times> int) list"

text \<open>
  \<open>GROUP BY origin, destination ORDER BY count(*) DESC LIMIT 10\<close>; routes with equal counts in the
  order of their first search.
\<close>

definition route_counts :: "SearchHistory list \<Rightarrow> ((string \<times> string) \<times> int) list" where
  "route_counts rows =
     (let routes = rev (remdups (rev (map (\<lambda>s. (s_origin s, s_destination s)) rows)))
      in map (\<lambda>r. (r, int (length (filter (\<lambda>s. (s_origin s, s_destination s) = r) rows)))) routes)"

definition metrics_endpoint ::
  "('n, 'c) auth_env \<Rightarrow> ambient \<Rightarrow> string option \<Rightarrow> ('n, 'c, AdminMetrics) auth_op" where
  "metrics_endpoint env amb credentials =
     in_session
       (bind_state (get_current_user env amb credentials) (\<lambda>user.
        bind_state (lift_result (require_admin user)) (\<lambda>_.
          read_db (\<lambda>db. Inr
            \<lparr>total_users = int (length (users db)), total_searches = int (length (search_history db)),
             active_alerts = int (length (filter a_is_active (price_alerts db))),
             popular_routes = map (\<lambda>((origin, destination), n). (origin @ ''-'' @ destination, n))
               (take 10 (sort_key (\<lambda>(r, n). - n) (route_counts (search_history db))))\<rparr>))))"


section \<open>An example application\<close>

definition example_app :: "(mail list, memory_cache, limiter) app_env" where
  "example_app = \<lparr>app_auth = session_env, app_check = check, app_limit_of = limit, app_proxy_trust = [],
     app_validate_email = Inr\<rparr>"

definition example_app_state :: "(mail list, memory_cache, limiter) app_state" where
  "example_app_state = \<lparr>as_auth = example_state, as_limiter = InMemoryRateLimiter 120 60 0\<rparr>"

end
