(* ===== verification/Api_Travel.thy ===== *)
theory Api_Travel
  imports Api_Accounts Hotel_Aggregation Http_Providers
begin

text \<open>
  The travel endpoints of \<^verbatim>\<open>app/api/v1/\<close> (\<^verbatim>\<open>flights.py\<close>, \<^verbatim>\<open>hotels.py\<close>,
  \<^verbatim>\<open>weather.py\<close>, \<^verbatim>\<open>currency.py\<close>, \<^verbatim>\<open>health.py\<close>) with the response
  schemas of \<^verbatim>\<open>app/schemas/travel.py\<close> and \<^verbatim>\<open>app/schemas/common.py\<close>.  A request is
  the record of its query parameters after FastAPI converted them to their types; the constraints of
  the parameters are checked here.
\<close>

section \<open>Response schemas\<close>

record MoneyOut =
  mo_amount_minor :: int
  mo_currency :: string

record PageInfo =
  pi_next_cursor :: "string option"
  pi_has_more :: bool

record SearchMetaOut =
  sm_degraded :: bool
  sm_providers_ok :: int
  sm_providers_failed :: int
  sm_total :: int

record FlightOfferOut =
  fo_id :: string
  fo_airline :: string
  fo_origin :: string
  fo_destination :: string
  fo_departure_time :: datetime
  fo_arrival_time :: datetime
  fo_duration_minutes :: int
  fo_stops :: int
  fo_cabin_class :: string
  fo_price :: MoneyOut
  fo_provider :: string
  fo_score :: pyfloat

record FlightSearchResponse =
  fr_data :: "FlightOfferOut list"
  fr_page :: PageInfo
  fr_meta :: SearchMetaOut

record HotelOfferOut =
  ho_id :: string
  ho_name :: string
  ho_city :: string
  ho_rating :: pyfloat
  ho_reviews_count :: int
  ho_price_per_night :: MoneyOut
  ho_amenities :: "string list"
  ho_provider :: string
  ho_score :: pyfloat

record HotelSearchResponse =
  hr_data :: "HotelOfferOut list"
  hr_page :: PageInfo
  hr_meta :: SearchMetaOut

record WeatherOut =
  wo_latitude :: pyfloat
  wo_longitude :: pyfloat
  wo_date :: string
  wo_temperature_c :: xfloat
  wo_precipitation_probability :: int
  wo_wind_kph :: xfloat
  wo_humidity :: int

record CurrencyOut =
  co_base :: string
  co_quote :: string
  co_rate :: xfloat
  co_amount :: xfloat
  co_converted :: xfloat
  co_as_of :: string

record HealthOut =
  health_status :: string
  health_version :: string

definition money_out :: "money \<Rightarrow> MoneyOut" where
  "money_out m = \<lparr>mo_amount_minor = amount_minor m, mo_currency = currency m\<rparr>"

definition meta_out :: "SearchMeta \<Rightarrow> SearchMetaOut" where
  "meta_out m = \<lparr>sm_degraded = degraded m, sm_providers_ok = providers_ok m,
     sm_providers_failed = providers_failed m, sm_total = total m\<rparr>"


section \<open>Query constraints\<close>

text \<open>One entry for each violated constraint; pydantic reports the first violated one of a field.\<close>

definition query_error :: "string \<Rightarrow> bool \<Rightarrow> string \<Rightarrow> (string list option \<times> string option) list" where
  "query_error name ok msg = (if ok then [] else [(Some [''query'', name], Some msg)])"

definition IATA_shape :: "string \<Rightarrow> bool" where
  "IATA_shape s \<longleftrightarrow> length s = 3 \<and> list_all is_alpha s"

definition int_range :: "string \<Rightarrow> int \<Rightarrow> int \<Rightarrow> int \<Rightarrow> (string list option \<times> string option) list" where
  "int_range name lo hi n =
     (if n < lo then query_error name False (''Input should be greater than or equal to '' @ int_str lo)
      else query_error name (n \<le> hi) (''Input should be less than or equal to '' @ int_str hi))"

definition opt_nonneg :: "string \<Rightarrow> int option \<Rightarrow> (string list option \<times> string option) list" where
  "opt_nonneg name v =
     query_error name (case v of None \<Rightarrow> True | Some n \<Rightarrow> 0 \<le> n) ''Input should be greater than or equal to 0''"

definition raise_errors :: "(string list option \<times> string option) list \<Rightarrow> unit result" where
  "raise_errors errors = (if errors = [] then Inr () else Inl (RequestValidationError errors))"

lemma query_error_Nil [simp]: "query_error name ok msg = [] \<longleftrightarrow> ok"
  by (simp add: query_error_def)

lemma int_range_Nil [simp]: "int_range name lo hi n = [] \<longleftrightarrow> lo \<le> n \<and> n \<le> hi"
  by (auto simp: int_range_def)

lemma opt_nonneg_Nil [simp]: "opt_nonneg name v = [] \<longleftrightarrow> (\<forall>n. v = Some n \<longrightarrow> 0 \<le> n)"
  by (auto simp: opt_nonneg_def split: option.split)


section \<open>flights.py\<close>

record flight_request =
  rq_origin :: string
  rq_destination :: string
  rq_departure_date :: date
  rq_adults :: int
  rq_cabin :: string
  rq_sort :: SortKey
  rq_max_price :: "int option"
  rq_max_stops :: "int option"
  rq_airlines :: "string list option"
  rq_direct_only :: bool
  rq_limit :: int
  rq_cursor :: "string option"

definition CABIN_CLASSES :: "string list" where
  "CABIN_CLASSES = [''economy'', ''premium'', ''business'', ''first'']"

definition flight_request_errors :: "flight_request \<Rightarrow> (string list option \<times> string option) list" where
  "flight_request_errors q =
     query_error ''origin'' (IATA_shape (rq_origin q)) (pattern_message ''^[A-Za-z]{3}$'')
     @ query_error ''destination'' (IATA_shape (rq_destination q)) (pattern_message ''^[A-Za-z]{3}$'')
     @ int_range ''adults'' 1 9 (rq_adults q)
     @ query_error ''cabin'' (rq_cabin q \<in> set CABIN_CLASSES) (pattern_message ''^(economy|premium|business|first)$'')
     @ opt_nonneg ''max_price'' (rq_max_price q)
     @ (case rq_max_stops q of None \<Rightarrow> [] | Some n \<Rightarrow> int_range ''max_stops'' 0 3 n)
     @ int_range ''limit'' 1 100 (rq_limit q)"

definition flight_query :: "flight_request \<Rightarrow> FlightSearchQuery" where
  "flight_query q = \<lparr>q_origin = str_upper (rq_origin q), q_destination = str_upper (rq_destination q),
     q_departure_date = rq_departure_date q, q_adults = rq_adults q, q_cabin_class = rq_cabin q\<rparr>"

definition flight_filters :: "flight_request \<Rightarrow> FlightFilters" where
  "flight_filters q = \<lparr>max_price_minor = rq_max_price q, max_stops = rq_max_stops q,
     airlines = (case rq_airlines q of None \<Rightarrow> {} | Some as \<Rightarrow> set (map str_lower as)),
     direct_only = rq_direct_only q\<rparr>"

definition flight_offer_out :: "RankedFlight \<Rightarrow> FlightOfferOut" where
  "flight_offer_out r =
     (let f = flight r in
      \<lparr>fo_id = flight_id f, fo_airline = airline f, fo_origin = origin f, fo_destination = destination f,
       fo_departure_time = departure_time f, fo_arrival_time = arrival_time f,
       fo_duration_minutes = duration_minutes f, fo_stops = stops f, fo_cabin_class = cabin_class f,
       fo_price = money_out (price f), fo_provider = flight_provider f, fo_score = score r\<rparr>)"

definition flight_response :: "AggregationResult \<Rightarrow> FlightSearchResponse" where
  "flight_response res =
     \<lparr>fr_data = map flight_offer_out (items res),
      fr_page = \<lparr>pi_next_cursor = next_cursor res, pi_has_more = has_more res\<rparr>,
      fr_meta = meta_out (meta res)\<rparr>"

text \<open>The row that \<open>session.add(SearchHistory(...))\<close> stores; \<open>started\<close> and \<open>ended\<close> are the readings of the timer.\<close>

definition history_row :: "ambient \<Rightarrow> pyfloat \<Rightarrow> pyfloat \<Rightarrow> User \<Rightarrow> flight_request \<Rightarrow> AggregationResult \<Rightarrow> SearchHistory" where
  "history_row amb started ended user q res =
     \<lparr>s_id = row_uuid amb, s_user_id = u_id user, s_origin = q_origin (flight_query q),
      s_destination = q_destination (flight_query q), s_departure_date = date_isoformat (rq_departure_date q),
      s_result_count = total (meta res), s_latency_ms = py_trunc (fmul (fsub ended started) 1000),
      s_created_at = now_us amb\<rparr>"

definition add_history :: "SearchHistory \<Rightarrow> ('n, 'c, unit) auth_op" where
  "add_history row st = (Inr (), st\<lparr>st_db := (st_db st)\<lparr>search_history := search_history (st_db st) @ [row]\<rparr>\<rparr>)"

definition search_flights_handler ::
  "FlightProvider list \<Rightarrow> ambient \<Rightarrow> pyfloat \<Rightarrow> pyfloat \<Rightarrow> flight_request \<Rightarrow> User option
   \<Rightarrow> ('n, 'c, FlightSearchResponse) auth_op" where
  "search_flights_handler providers amb started ended q user =
     (if str_upper (rq_origin q) = str_upper (rq_destination q)
      then raise_state (app_error AppError ''origin and destination must differ'')
      else
        bind_state (lift_result (search providers (flight_query q) (rq_sort q) (Some (flight_filters q)) (rq_limit q) (rq_cursor q)))
          (\<lambda>res. bind_state
             (case user of
                None \<Rightarrow> return_state ()
              | Some u \<Rightarrow> add_history (history_row amb started ended u q res))
             (\<lambda>_. return_state (flight_response res))))"

definition search_flights ::
  "('n, 'c, 'l) app_env \<Rightarrow> FlightProvider list \<Rightarrow> ambient \<Rightarrow> pyfloat \<Rightarrow> pyfloat \<Rightarrow> http_request \<Rightarrow> string option
   \<Rightarrow> flight_request \<Rightarrow> ('n, 'c, 'l) app_state \<Rightarrow> FlightSearchResponse result \<times> ('n, 'c, 'l) app_state" where
  "search_flights env providers amb started ended request credentials q =
     endpoint env amb request
       (bind_state (get_optional_user (app_auth env) amb credentials) (\<lambda>user.
        bind_state (lift_result (raise_errors (flight_request_errors q))) (\<lambda>_.
          search_flights_handler providers amb started ended q user)))"


section \<open>Endpoints without a session\<close>

text \<open>\<open>limited\<close>: the rate limit of the router, then a handler over its own state.\<close>

definition limited ::
  "('n, 'c, 'l) app_env \<Rightarrow> ambient \<Rightarrow> http_request \<Rightarrow> ('s \<Rightarrow> 'a outcome \<times> 's) \<Rightarrow> 'l \<times> 's \<Rightarrow> 'a outcome \<times> 'l \<times> 's" where
  "limited env amb request handler = (\<lambda>(l, s).
     case enforce_rate_limit (app_check env) (app_limit_of env) (app_proxy_trust env) (tick amb) request l of
       (Inl e, l') \<Rightarrow> (Raised e, l', s)
     | (Inr remaining, l') \<Rightarrow> (case handler s of (r, s') \<Rightarrow> (r, l', s')))"

record hotel_request =
  hq_city :: string
  hq_check_in :: date
  hq_check_out :: date
  hq_guests :: int
  hq_sort :: HotelSortKey
  hq_max_price :: "int option"
  hq_min_rating :: "pyfloat option"
  hq_amenities :: "string list option"
  hq_limit :: int
  hq_cursor :: "string option"

definition hotel_request_errors :: "hotel_request \<Rightarrow> (string list option \<times> string option) list" where
  "hotel_request_errors q =
     (if length (hq_city q) < 2 then query_error ''city'' False ''String should have at least 2 characters''
      else query_error ''city'' (length (hq_city q) \<le> 64) ''String should have at most 64 characters'')
     @ int_range ''guests'' 1 8 (hq_guests q)
     @ opt_nonneg ''max_price'' (hq_max_price q)
     @ (case hq_min_rating q of
          None \<Rightarrow> []
        | Some r \<Rightarrow> if r < 0 then query_error ''min_rating'' False ''Input should be greater than or equal to 0''
                    else query_error ''min_rating'' (r \<le> 5) ''Input should be less than or equal to 5'')
     @ int_range ''limit'' 1 100 (hq_limit q)"

definition hotel_query :: "hotel_request \<Rightarrow> HotelSearchQuery" where
  "hotel_query q = \<lparr>q_city = hq_city q, q_check_in = hq_check_in q, q_check_out = hq_check_out q, q_guests = hq_guests q\<rparr>"

definition hotel_filters :: "hotel_request \<Rightarrow> HotelFilters" where
  "hotel_filters q = \<lparr>hotel_max_price = hq_max_price q, min_rating = hq_min_rating q,
     wanted_amenities = (case hq_amenities q of None \<Rightarrow> {} | Some as \<Rightarrow> set (map str_lower as))\<rparr>"

definition hotel_offer_out :: "RankedHotel \<Rightarrow> HotelOfferOut" where
  "hotel_offer_out r =
     (let h = hotel r in
      \<lparr>ho_id = hotel_id h, ho_name = hotel_name h, ho_city = city h, ho_rating = rating h,
       ho_reviews_count = reviews_count h, ho_price_per_night = money_out (price_per_night h),
       ho_amenities = amenities h, ho_provider = hotel_provider h, ho_score = hotel_score r\<rparr>)"

definition hotel_response :: "HotelResult \<Rightarrow> HotelSearchResponse" where
  "hotel_response res =
     \<lparr>hr_data = map hotel_offer_out (hotel_items res),
      hr_page = \<lparr>pi_next_cursor = hotel_next_cursor res, pi_has_more = hotel_has_more res\<rparr>,
      hr_meta = meta_out (hotel_meta res)\<rparr>"

text \<open>\<open>check_out <= check_in\<close> compares the calendar days.\<close>

definition search_hotels_handler :: "HotelProvider list \<Rightarrow> hotel_request \<Rightarrow> HotelSearchResponse result" where
  "search_hotels_handler providers q =
     bind_result (raise_errors (hotel_request_errors q)) (\<lambda>_.
       if days_between (hq_check_in q) (hq_check_out q) \<le> 0
       then Inl (app_error AppError ''check-out must be after check-in'')
       else Inr (hotel_response
              (hotel_search providers (hotel_query q) (hq_sort q) (Some (hotel_filters q)) (hq_limit q) (hq_cursor q))))"

definition search_hotels ::
  "('n, 'c, 'l) app_env \<Rightarrow> HotelProvider list \<Rightarrow> ambient \<Rightarrow> http_request \<Rightarrow> hotel_request \<Rightarrow> 'l \<times> unit
   \<Rightarrow> HotelSearchResponse outcome \<times> 'l \<times> unit" where
  "search_hotels env providers amb request q =
     limited env amb request (\<lambda>s. (outcome_of (search_hotels_handler providers q), s))"

definition float_range :: "string \<Rightarrow> int \<Rightarrow> xfloat \<Rightarrow> (string list option \<times> string option) list" where
  "float_range name b x =
     (case x of
        Finite r \<Rightarrow> if r < of_int (- b) then query_error name False (''Input should be greater than or equal to '' @ int_str (- b))
                    else query_error name (r \<le> of_int b) (''Input should be less than or equal to '' @ int_str b)
      | Infinite True \<Rightarrow> query_error name False (''Input should be less than or equal to '' @ int_str b)
      | _ \<Rightarrow> query_error name False (''Input should be greater than or equal to '' @ int_str (- b)))"

definition weather_out :: "WeatherForecast \<Rightarrow> WeatherOut" where
  "weather_out w =
     \<lparr>wo_latitude = wf_latitude w, wo_longitude = wf_longitude w, wo_date = wf_date w,
      wo_temperature_c = temperature_c w, wo_precipitation_probability = precipitation_probability w,
      wo_wind_kph = wind_kph w, wo_humidity = humidity w\<rparr>"

definition map_outcome :: "('a \<Rightarrow> 'b) \<Rightarrow> 'a outcome \<times> 's \<Rightarrow> 'b outcome \<times> 's" where
  "map_outcome f = (\<lambda>(r, s).
     ((case r of Returned v \<Rightarrow> Returned (f v) | Raised e \<Rightarrow> Raised e | Aborted \<Rightarrow> Aborted), s))"

definition get_weather ::
  "('n, 'd, 'l) app_env \<Rightarrow> 's http_env \<Rightarrow> 'c OpenMeteoWeatherProvider \<Rightarrow> ambient \<Rightarrow> http_request
   \<Rightarrow> xfloat \<Rightarrow> xfloat \<Rightarrow> date \<Rightarrow> 'l \<times> ('c, 's) http_state \<Rightarrow> WeatherOut outcome \<times> 'l \<times> ('c, 's) http_state" where
  "get_weather env henv provider amb request latitude longitude d =
     limited env amb request (\<lambda>s.
       case raise_errors (float_range ''latitude'' 90 latitude @ float_range ''longitude'' 180 longitude) of
         Inl e \<Rightarrow> (Raised e, s)
       | Inr _ \<Rightarrow> map_outcome weather_out (forecast henv provider (finite_part latitude) (finite_part longitude) d s))"

definition currency_out :: "CurrencyConversion \<Rightarrow> CurrencyOut" where
  "currency_out c =
     \<lparr>co_base = cc_base c, co_quote = cc_quote c, co_rate = rate c, co_amount = amount c,
      co_converted = converted c, co_as_of = as_of c\<rparr>"

definition currency_request_errors :: "string \<Rightarrow> string \<Rightarrow> xfloat \<Rightarrow> (string list option \<times> string option) list" where
  "currency_request_errors base quote amt =
     query_error ''base'' (IATA_shape base) (pattern_message ''^[A-Za-z]{3}$'')
     @ query_error ''quote'' (IATA_shape quote) (pattern_message ''^[A-Za-z]{3}$'')
     @ query_error ''amount'' (xpos amt) ''Input should be greater than 0''"

definition convert_currency ::
  "('n, 'd, 'l) app_env \<Rightarrow> 's http_env \<Rightarrow> 'c ExchangeRateProvider \<Rightarrow> ambient \<Rightarrow> http_request
   \<Rightarrow> string \<Rightarrow> string \<Rightarrow> xfloat \<Rightarrow> 'l \<times> ('c, 's) http_state \<Rightarrow> CurrencyOut outcome \<times> 'l \<times> ('c, 's) http_state" where
  "convert_currency env henv provider amb request base quote amt =
     limited env amb request (\<lambda>s.
       case raise_errors (currency_request_errors base quote amt) of
         Inl e \<Rightarrow> (Raised e, s)
       | Inr _ \<Rightarrow> map_outcome currency_out (convert henv provider base quote amt s))"


section \<open>health.py\<close>

definition live :: "string \<Rightarrow> HealthOut" where
  "live version = \<lparr>health_status = ''alive'', health_version = version\<rparr>"

text \<open>\<open>select_1\<close> is the result of the probe statement on a new session.\<close>

definition ready :: "string \<Rightarrow> unit result \<Rightarrow> HealthOut result" where
  "ready version select_1 =
     (case select_1 of
        Inl e \<Rightarrow> Inl (app_error ProviderUnavailableError ''database is not reachable'')
      | Inr _ \<Rightarrow> Inr \<lparr>health_status = ''ready'', health_version = version\<rparr>)"


section \<open>Properties\<close>

lemma get_optional_user_quiet: "snd (get_optional_user env amb c st) = st"
  by (auto simp: get_optional_user_def bind_state_def lift_result_def raise_state_def return_state_def read_db_def
      split: option.split sum.split exn.split)

lemma raise_errors_iff: "raise_errors es = Inr u \<longleftrightarrow> es = []"
  by (simp add: raise_errors_def)

lemma search_limit:
  assumes "search providers query key fo n cursor = Inr res" "1 \<le> n"
  shows "int (length (items res)) \<le> n"
proof -
  obtain ordered where "items res = fst (paginate ordered n cursor)"
    using assms(1) by (auto simp: search_eq bind_result_Inr_iff)
  then show ?thesis using assms(2) by (simp add: paginate_page)
qed

lemma search_matches:
  assumes "search providers query key (Some fs) n cursor = Inr res" "r \<in> set (items res)"
  shows "matches fs (flight r)"
  using rank_entry(1) search_Inr_items [OF assms] by (fastforce simp: ranked_offers_def effective_filters_def)

lemma history_row_fields:
  "s_user_id (history_row amb t0 t1 u q res) = u_id u"
  "s_result_count (history_row amb t0 t1 u q res) = total (meta res)"
  "s_origin (history_row amb t0 t1 u q res) = str_upper (rq_origin q)"
  "s_destination (history_row amb t0 t1 u q res) = str_upper (rq_destination q)"
  by (simp_all add: history_row_def flight_query_def)

text \<open>What the caller asked for, of an offer in the response.\<close>

definition wanted_flight :: "flight_request \<Rightarrow> FlightOfferOut \<Rightarrow> bool" where
  "wanted_flight q o' \<longleftrightarrow>
     (\<forall>m. rq_max_price q = Some m \<longrightarrow> mo_amount_minor (fo_price o') \<le> m)
     \<and> (\<forall>m. rq_max_stops q = Some m \<longrightarrow> fo_stops o' \<le> m)
     \<and> (rq_direct_only q \<longrightarrow> fo_stops o' = 0)
     \<and> (\<forall>a as. rq_airlines q = Some (a # as) \<longrightarrow> str_lower (fo_airline o') \<in> str_lower ` set (a # as))"

lemma wanted_flight_matches: "matches (flight_filters q) (flight r) \<Longrightarrow> wanted_flight q (flight_offer_out r)"
  by (auto simp: wanted_flight_def flight_offer_out_def flight_filters_def matches_def money_out_def is_direct_def
      Let_def split: if_splits option.splits)

text \<open>
  C28: the flight search endpoint.  A successful answer comes only from a request whose parameters meet
  their constraints and whose two airports differ; it lists at most \<open>limit\<close> offers, each within the
  price, stop, airline and direct-flight limits of the caller; and it changes the database by exactly one
  search history row of the recognised account, with the total of the result, or not at all for an
  anonymous caller.  An error of any kind leaves the database as it was.
\<close>

theorem flight_search_contract:
  assumes "search_flights env providers amb started ended request credentials q st = (r, st')"
  shows "case r of
      Inr resp \<Rightarrow>
        flight_request_errors q = [] \<and> str_upper (rq_origin q) \<noteq> str_upper (rq_destination q)
        \<and> int (length (fr_data resp)) \<le> rq_limit q \<and> list_all (wanted_flight q) (fr_data resp)
        \<and> (\<exists>user. fst (get_optional_user (app_auth env) amb credentials (as_auth st)) = Inr user
           \<and> (case user of
                None \<Rightarrow> st_db (as_auth st') = st_db (as_auth st)
              | Some u \<Rightarrow> \<exists>row. s_user_id row = u_id u \<and> s_result_count row = sm_total (fr_meta resp)
                  \<and> s_origin row = str_upper (rq_origin q) \<and> s_destination row = str_upper (rq_destination q)
                  \<and> st_db (as_auth st') = (st_db (as_auth st))
                      \<lparr>search_history := search_history (st_db (as_auth st)) @ [row]\<rparr>))
    | Inl e \<Rightarrow> st_db (as_auth st') = st_db (as_auth st)"
proof -
  obtain lim l where lim: "enforce_rate_limit (app_check env) (app_limit_of env) (app_proxy_trust env) (tick amb) request
      (as_limiter st) = (lim, l)" by fastforce
  obtain u where u: "get_optional_user (app_auth env) amb credentials (as_auth st) = (u, as_auth st)"
    using get_optional_user_quiet [of "app_auth env" amb credentials "as_auth st"] by (metis prod.collapse)
  show ?thesis
  proof (cases "\<exists>rem user res. lim = Inr rem \<and> u = Inr user \<and> flight_request_errors q = []
      \<and> str_upper (rq_origin q) \<noteq> str_upper (rq_destination q)
      \<and> search providers (flight_query q) (rq_sort q) (Some (flight_filters q)) (rq_limit q) (rq_cursor q) = Inr res")
    case True
    then obtain rem user res where ok: "lim = Inr rem" "u = Inr user" "flight_request_errors q = []"
        "str_upper (rq_origin q) \<noteq> str_upper (rq_destination q)"
      and res: "search providers (flight_query q) (rq_sort q) (Some (flight_filters q)) (rq_limit q) (rq_cursor q) = Inr res"
      by blast
    have "1 \<le> rq_limit q" using ok(3) by (simp add: flight_request_errors_def)
    then have "int (length (items res)) \<le> rq_limit q" "\<forall>x \<in> set (items res). wanted_flight q (flight_offer_out x)"
      using search_limit [OF res] search_matches [OF res] wanted_flight_matches by blast+
    then show ?thesis
      using assms lim u ok res
      by (cases user)
         (auto simp: search_flights_def endpoint_def in_session_def bind_state_def raise_errors_def
            search_flights_handler_def return_state_def lift_result_def add_history_def flight_response_def
            meta_out_def list_all_iff intro!: exI [of _ "history_row amb started ended _ q res"] history_row_fields)
  next
    case False
    then show ?thesis
      using assms lim u
      by (cases lim; cases u;
          cases "search providers (flight_query q) (rq_sort q) (Some (flight_filters q)) (rq_limit q) (rq_cursor q)")
         (auto simp: search_flights_def endpoint_def in_session_def bind_state_def raise_errors_def
            search_flights_handler_def raise_state_def lift_result_def split: if_splits)
  qed
qed

definition example_flight_request :: flight_request where
  "example_flight_request = \<lparr>rq_origin = ''thr'', rq_destination = ''ist'', rq_departure_date = Date 2026 8 10,
     rq_adults = 1, rq_cabin = ''economy'', rq_sort = PRICE, rq_max_price = None, rq_max_stops = None,
     rq_airlines = None, rq_direct_only = False, rq_limit = 20, rq_cursor = None\<rparr>"

theorem flight_search_contract_witness:
  "\<exists>r st'. search_flights example_app example_providers (example_ambient 1100) 0 0
      \<lparr>req_client = Some ''8.8.8.8'', req_headers = []\<rparr> None example_flight_request example_app_state = (r, st')
    \<and> st_db (as_auth st') = st_db (as_auth example_app_state)
    \<and> (\<forall>resp. r = Inr resp \<longrightarrow> length (fr_data resp) \<le> 20)"
proof -
  obtain r st' where d: "search_flights example_app example_providers (example_ambient 1100) 0 0
      \<lparr>req_client = Some ''8.8.8.8'', req_headers = []\<rparr> None example_flight_request example_app_state = (r, st')" by fastforce
  have "fst (get_optional_user (app_auth example_app) (example_ambient 1100) None (as_auth example_app_state)) = Inr None"
    by (simp add: get_optional_user_def return_state_def)
  then show ?thesis
    using flight_search_contract [OF d] d by (auto simp: example_flight_request_def split: sum.splits)
qed

end
