(* ===== verification/Api_Invariants.thy ===== *)
theory Api_Invariants
  imports Api_Travel "HOL-Library.Sublist"
begin

text \<open>
  Invariants of the account endpoints over all sequences of requests: the database stays in order, no
  account disappears or becomes an administrator, and the audit log is append-only.  The proofs use a small
  Hoare logic over the operations of the service, with one rule per primitive operation.
\<close>

section \<open>How a request may change the database\<close>

definition admins :: "database \<Rightarrow> uuid set" where
  "admins db = u_id ` {u \<in> set (users db). u_role u = ADMIN}"

definition evolves :: "database \<Rightarrow> database \<Rightarrow> bool" where
  "evolves db db' \<longleftrightarrow> db_ok db' \<and> admins db' \<subseteq> admins db \<and> prefix (audit_log db) (audit_log db')
     \<and> prefix (map u_id (users db)) (map u_id (users db'))"

lemma evolves_refl: "db_ok db \<Longrightarrow> evolves db db"
  by (simp add: evolves_def)

lemma evolves_trans: "evolves a b \<Longrightarrow> evolves b c \<Longrightarrow> evolves a c"
  by (auto simp: evolves_def)

text \<open>
  \<open>hoare P op Q\<close>: from a database in order that satisfies \<open>P\<close>, the operation evolves the database, and
  when it returns \<open>v\<close> the new database satisfies \<open>Q v\<close>.
\<close>

definition hoare :: "(database \<Rightarrow> bool) \<Rightarrow> ('n, 'c, 'a) auth_op \<Rightarrow> ('a \<Rightarrow> database \<Rightarrow> bool) \<Rightarrow> bool" where
  "hoare P op Q \<longleftrightarrow> (\<forall>st r st'. db_ok (st_db st) \<longrightarrow> P (st_db st) \<longrightarrow> op st = (r, st') \<longrightarrow>
     evolves (st_db st) (st_db st') \<and> (\<forall>v. r = Inr v \<longrightarrow> Q v (st_db st')))"

named_theorems hoare_rules \<open>Hoare rules of the service operations\<close>

lemma hoareI:
  "(\<And>st r st'. db_ok (st_db st) \<Longrightarrow> P (st_db st) \<Longrightarrow> op st = (r, st') \<Longrightarrow>
      evolves (st_db st) (st_db st') \<and> (\<forall>v. r = Inr v \<longrightarrow> Q v (st_db st'))) \<Longrightarrow> hoare P op Q"
  by (auto simp: hoare_def)

lemma hoareD:
  "hoare P op Q \<Longrightarrow> db_ok (st_db st) \<Longrightarrow> P (st_db st) \<Longrightarrow> op st = (r, st') \<Longrightarrow>
   evolves (st_db st) (st_db st') \<and> (\<forall>v. r = Inr v \<longrightarrow> Q v (st_db st'))"
  by (auto simp: hoare_def)

lemma h_bind [hoare_rules]:
  assumes "hoare P m Q" and "\<And>v. hoare (Q v) (f v) R"
  shows "hoare P (bind_state m f) R"
proof (rule hoareI)
  fix st r st' assume st: "db_ok (st_db st)" "P (st_db st)" "bind_state m f st = (r, st')"
  obtain r1 st1 where m: "m st = (r1, st1)" by fastforce
  note first = hoareD [OF assms(1) st(1,2) m]
  show "evolves (st_db st) (st_db st') \<and> (\<forall>v. r = Inr v \<longrightarrow> R v (st_db st'))"
  proof (cases r1)
    case (Inl e)
    then show ?thesis using st(3) m first by (auto simp: bind_state_def)
  next
    case (Inr v)
    then have f: "f v st1 = (r, st')" using st(3) m by (simp add: bind_state_def)
    have "db_ok (st_db st1)" "Q v (st_db st1)" using first Inr by (simp_all add: evolves_def)
    from hoareD [OF assms(2) this f] first show ?thesis by (auto intro: evolves_trans)
  qed
qed

lemma h_weaken: "hoare P op Q \<Longrightarrow> (\<And>db. P' db \<Longrightarrow> P db) \<Longrightarrow> (\<And>v db. Q v db \<Longrightarrow> Q' v db) \<Longrightarrow> hoare P' op Q'"
  unfolding hoare_def by blast

lemma h_pure [hoare_rules]:
  "hoare P (return_state v) (\<lambda>w. P)" "hoare P (raise_state e) (\<lambda>w. P)" "hoare P (lift_result r) (\<lambda>w. P)"
  by (auto simp: hoare_def return_state_def raise_state_def lift_result_def evolves_refl)

lemma h_quiet:
  assumes "\<And>st. st_db (snd (op st)) = st_db st" shows "hoare P op (\<lambda>w. P)"
  by (rule hoareI) (metis assms evolves_refl snd_conv)

lemma h_send [hoare_rules]: "hoare P (send_mail env a s b) (\<lambda>w. P)"
  and h_deny [hoare_rules]: "hoare P (deny env amb p) (\<lambda>w. P)"
  and h_denylisted [hoare_rules]: "hoare P (denylisted env amb p) (\<lambda>w. P)"
  by (rule h_quiet, simp add: deny_def denylisted_def split_beta)+

lemma h_read: "hoare P (read_db f) (\<lambda>v db. P db \<and> f db = Inr v)"
  by (auto simp: hoare_def read_db_def evolves_refl)

lemma h_get_by_id: "hoare P (read_db (\<lambda>db. Inr (get_by_id i db))) (\<lambda>found db. case found of None \<Rightarrow> True | Some u \<Rightarrow> u \<in> set (users db))"
  by (auto simp: hoare_def read_db_def evolves_refl get_by_id_Some split: option.split)

lemma h_get_by_email: "hoare P (read_db (get_by_email e)) (\<lambda>found db. case found of None \<Rightarrow> True | Some u \<Rightarrow> u \<in> set (users db))"
  by (auto simp: hoare_def read_db_def evolves_refl get_by_email_Some split: option.split)

lemma h_if [hoare_rules]: "(c \<Longrightarrow> hoare P a Q) \<Longrightarrow> (\<not> c \<Longrightarrow> hoare P b Q) \<Longrightarrow> hoare P (if c then a else b) Q"
  by simp

lemma h_false: "hoare (\<lambda>db. False) op Q"
  by (simp add: hoare_def)


section \<open>Writing rows\<close>

lemma evolves_flush:
  assumes "db_ok db" "u \<in> set (users db)" "u_id user = u_id u" "u_email user = u_email u" "u_role user = u_role u"
  shows "evolves db (flush_user t_us user db)"
proof -
  have ok: "db_ok (flush_user t_us user db)"
    using assms by (intro flush_user_ok) (auto simp: db_ok_def distinct_map inj_on_def)
  have "admins (flush_user t_us user db) \<subseteq> admins db"
    using flush_user_users [OF assms(1,2,3), of t_us] assms(2-5) by (auto simp: admins_def)
  moreover have "map u_id (users (flush_user t_us user db)) = map u_id (users db)"
    "audit_log (flush_user t_us user db) = audit_log db" by (simp_all add: flush_user_def)
  ultimately show ?thesis using ok by (simp only: evolves_def prefix_order.refl simp_thms)
qed

lemma h_update_password [hoare_rules]:
  "hoare (\<lambda>db. u \<in> set (users db)) (write_user (update_password t_us u h)) (\<lambda>v db. True)"
  by (rule hoareI)
     (auto simp: write_user_def update_password_def Let_def evolves_refl split: if_splits intro!: evolves_flush [where u = u])

lemma h_mark_verified [hoare_rules]:
  "hoare (\<lambda>db. u \<in> set (users db)) (write_user (mark_verified t_us u)) (\<lambda>v db. True)"
  by (rule hoareI)
     (auto simp: write_user_def mark_verified_def Let_def evolves_refl split: if_splits intro!: evolves_flush [where u = u])

lemma h_create_user:
  "hoare P (on_db (create_user i t_us e h n USER)) (\<lambda>u db. True)"
proof (rule hoareI)
  fix st :: "('n, 'c) auth_state" and r st'
  assume st: "db_ok (st_db st)" "on_db (create_user i t_us e h n USER) st = (r, st')"
  obtain db where c: "create_user i t_us e h n USER (st_db st) = (r, db)" "st' = st\<lparr>st_db := db\<rparr>"
    using st(2) by (auto simp: on_db_def split: prod.splits)
  have "admins db \<subseteq> admins (st_db st) \<and> prefix (audit_log (st_db st)) (audit_log db)
      \<and> prefix (map u_id (users (st_db st))) (map u_id (users db))"
    using c(1) by (auto simp: create_user_def Let_def admins_def split: if_splits)
  then show "evolves (st_db st) (st_db st') \<and> (\<forall>v. r = Inr v \<longrightarrow> True)"
    using create_user_ok [OF st(1) c(1)] c(2) by (simp add: evolves_def)
qed

lemma h_audit [hoare_rules]: "hoare P (add_audit amb actor action ip) (\<lambda>v db. True)"
  by (rule hoareI) (auto simp: add_audit_def evolves_def db_ok_def admins_def)

lemma h_create_alert:
  "hoare (\<lambda>db. u \<in> set (users db)) (on_db (create_alert_row i t_us (u_id u) a b c d e f)) (\<lambda>v db. True)"
  by (rule hoareI)
     (auto simp: on_db_def create_alert_row_def Let_def evolves_def db_ok_def admins_def list_ex_iff list_all_iff
       split: if_splits)

lemma h_delete_alert: "hoare P (on_db (\<lambda>db. (Inr (), delete_alert_row alert db))) (\<lambda>v db. True)"
  by (rule hoareI)
     (auto simp: on_db_def delete_alert_row_def evolves_def db_ok_def admins_def list_all_iff
       distinct_map intro: inj_on_subset)



section \<open>The operations\<close>

text \<open>\<open>changes op\<close>: the operation evolves every database in order.\<close>

abbreviation changes :: "('n, 'c, 'a) auth_op \<Rightarrow> bool" where
  "changes op \<equiv> hoare (\<lambda>db. True) op (\<lambda>v db. True)"


lemma h_trueI: "hoare P op Q \<Longrightarrow> hoare P op (\<lambda>v db. True)"
  by (erule h_weaken) auto

lemma send_verification_changes: "hoare P (send_verification env amb u) (\<lambda>v db. True)"
  unfolding send_verification_def by (rule h_trueI [OF h_bind [OF h_pure(3) h_send]])

lemma register_changes: "changes (register env amb email password full_name)"
proof -
  have "changes (bind_state (on_db (create_user (new_uuid amb) (now_us amb) email
           (hash_password (ae_hasher env) (fresh_salt amb) password) full_name USER))
        (\<lambda>user. bind_state (send_verification env amb user) (\<lambda>_. return_state user)))" (is "changes ?body")
    by (rule h_bind [OF h_create_user], rule h_bind [OF send_verification_changes], rule h_pure(1))
  then show ?thesis
    by (auto simp: hoare_def register_def evolves_refl)
qed

lemma resend_verification_changes: "changes (resend_verification env amb email)"
  unfolding resend_verification_def
proof (rule h_bind [OF h_get_by_email])
  fix found :: "User option"
  show "hoare (\<lambda>db. case found of None \<Rightarrow> True | Some u \<Rightarrow> u \<in> set (users db))
     (case found of Some u \<Rightarrow> if \<not> u_is_verified u then send_verification env amb u else return_state () | None \<Rightarrow> return_state ())
     (\<lambda>v db. True)"
    by (cases found) (auto intro: send_verification_changes h_trueI [OF h_pure(1)])
qed

lemma verify_email_changes: "changes (verify_email env amb token)"
  unfolding verify_email_def
proof (rule h_bind [OF h_pure(3)], rule h_bind [OF h_pure(3)], rule h_bind [OF h_get_by_id])
  fix found :: "User option"
  show "hoare (\<lambda>db. case found of None \<Rightarrow> True | Some u \<Rightarrow> u \<in> set (users db))
     (case found of None \<Rightarrow> raise_state (app_error AuthenticationError ''the account no longer exists'')
      | Some u \<Rightarrow> if \<not> u_is_verified u then bind_state (write_user (mark_verified (now_us amb) u)) (\<lambda>_. return_state ()) else return_state ())
     (\<lambda>v db. True)"
    by (cases found) (auto intro: h_trueI [OF h_pure(1)] h_trueI [OF h_pure(2)] h_bind [OF h_mark_verified h_pure(1)])
qed

lemma authenticate_changes: "hoare P (authenticate env amb email password) (\<lambda>u db. True)"
  unfolding authenticate_def
proof (rule h_bind [OF h_get_by_email], rule h_bind [OF h_pure(3)])
  fix found :: "User option" and ok :: bool
  show "hoare (\<lambda>db. case found of None \<Rightarrow> True | Some u \<Rightarrow> u \<in> set (users db))
     (case found of None \<Rightarrow> raise_state (app_error AuthenticationError ''incorrect email or password'')
      | Some u \<Rightarrow> if \<not> ok then raise_state (app_error AuthenticationError ''incorrect email or password'')
          else if \<not> u_is_active u then raise_state (app_error AuthenticationError ''this account is disabled'')
          else if needs_rehash (ae_hasher env) (u_hashed_password u)
          then write_user (update_password (now_us amb) u (hash_password (ae_hasher env) (fresh_salt amb) password))
          else return_state u) (\<lambda>u db. True)"
    by (cases found) (auto intro: h_trueI [OF h_pure(1)] h_trueI [OF h_pure(2)] h_update_password)
qed

lemma reset_password_changes: "changes (reset_password env amb token new_password)"
  unfolding reset_password_def
proof (rule h_bind [OF h_pure(3)], rule h_bind [OF h_pure(3)], rule h_bind [OF h_get_by_id])
  fix found :: "User option"
  show "hoare (\<lambda>db. case found of None \<Rightarrow> True | Some u \<Rightarrow> u \<in> set (users db))
     (case found of None \<Rightarrow> raise_state (app_error AuthenticationError ''the account is no longer valid'')
      | Some u \<Rightarrow> if \<not> u_is_active u then raise_state (app_error AuthenticationError ''the account is no longer valid'')
          else bind_state (write_user (update_password (now_us amb) u (hash_password (ae_hasher env) (fresh_salt amb) new_password)))
                 (\<lambda>_. return_state ())) (\<lambda>v db. True)"
    by (cases found) (auto intro: h_trueI [OF h_pure(2)] h_bind [OF h_update_password h_pure(1)])
qed

lemma refresh_quiet: "st_db (snd (refresh env amb token st)) = st_db st"
  by (auto simp: refresh_def bind_state_def lift_result_def denylisted_def raise_state_def read_db_def
      split: prod.splits sum.splits option.splits)

lemma request_password_reset_quiet: "st_db (snd (request_password_reset env amb email st)) = st_db st"
  by (auto simp: request_password_reset_def bind_state_def lift_result_def read_db_def return_state_def send_mail_def
      split: prod.splits sum.splits option.splits)

lemma logout_quiet: "st_db (snd (logout env amb p rt st)) = st_db st"
  by (auto simp: logout_def bind_state_def deny_def return_state_def raise_state_def
      split: option.splits sum.splits exn.splits)

lemma get_access_payload_quiet: "st_db (snd (get_access_payload env amb c st)) = st_db st"
  by (auto simp: get_access_payload_def bind_state_def lift_result_def denylisted_def raise_state_def return_state_def
      split: prod.splits sum.splits option.splits)

lemma h_access_payload: "hoare P (get_access_payload env amb c) (\<lambda>v. P)"
  by (rule h_quiet) (rule get_access_payload_quiet)

lemma h_current_user: "hoare P (get_current_user env amb c) (\<lambda>u db. u \<in> set (users db))"
  unfolding get_current_user_def
proof (rule h_bind [OF h_access_payload], rule h_bind [OF h_pure(3)], rule h_bind [OF h_get_by_id])
  fix found :: "User option"
  show "hoare (\<lambda>db. case found of None \<Rightarrow> True | Some u \<Rightarrow> u \<in> set (users db))
     (case found of None \<Rightarrow> raise_state (app_error AuthenticationError ''user no longer exists or is disabled'')
      | Some u \<Rightarrow> if \<not> u_is_active u
          then raise_state (app_error AuthenticationError ''user no longer exists or is disabled'') else return_state u)
     (\<lambda>u db. u \<in> set (users db))"
    by (cases found) (auto simp: hoare_def raise_state_def return_state_def evolves_refl)
qed



section \<open>Requests as steps\<close>

lemma in_session_evolves:
  "changes op \<Longrightarrow> db_ok (st_db st) \<Longrightarrow> evolves (st_db st) (st_db (snd (in_session op st)))"
  by (auto simp: in_session_def evolves_refl dest!: hoareD [where P = "\<lambda>db. True"] split: prod.split sum.split)

lemma endpoint_evolves:
  assumes "changes handler" "db_ok (st_db (as_auth st))" "endpoint env amb request handler st = (r, st')"
  shows "evolves (st_db (as_auth st)) (st_db (as_auth st'))"
proof -
  have "st_db (as_auth st') = st_db (as_auth st) \<or> st_db (as_auth st') = st_db (snd (in_session handler (as_auth st)))"
    using assms(3) by (auto simp: endpoint_def split: prod.splits sum.splits)
  then show ?thesis using in_session_evolves [OF assms(1,2)] evolves_refl [OF assms(2)] by auto
qed

text \<open>One request to one of the account endpoints, with any input, at any moment.\<close>

inductive app_step :: "('n, 'c, 'l) app_env \<Rightarrow> ('n, 'c, 'l) app_state \<Rightarrow> ('n, 'c, 'l) app_state \<Rightarrow> bool"
  for env where
  "register_endpoint env amb q email pw name st = (r1, st') \<Longrightarrow> app_step env st st'"
| "login_endpoint env amb q email pw st = (r2, st') \<Longrightarrow> app_step env st st'"
| "refresh_endpoint env amb q token st = (r3, st') \<Longrightarrow> app_step env st st'"
| "me_endpoint env amb q cred st = (r4, st') \<Longrightarrow> app_step env st st'"
| "verify_email_endpoint env amb q token st = (r5, st') \<Longrightarrow> app_step env st st'"
| "resend_verification_endpoint env amb q email st = (r6, st') \<Longrightarrow> app_step env st st'"
| "request_password_reset_endpoint env amb q email st = (r7, st') \<Longrightarrow> app_step env st st'"
| "confirm_password_reset_endpoint env amb q token pw st = (r8, st') \<Longrightarrow> app_step env st st'"
| "logout_endpoint env amb q cred rt st = (r9, st') \<Longrightarrow> app_step env st st'"
| "create_alert_endpoint env amb q cred (validate_alert orig dest dep target cur chan) st = (r10, st') \<Longrightarrow> app_step env st st'"
| "list_alerts_endpoint env amb q cred st = (r11, st') \<Longrightarrow> app_step env st st'"
| "delete_alert_endpoint env amb q cred ident st = (r12, st') \<Longrightarrow> app_step env st st'"
| "search_flights env providers amb t0 t1 q cred fq st = (r13, st') \<Longrightarrow> app_step env st st'"

lemma h_pre: "changes op \<Longrightarrow> hoare P op (\<lambda>v db. True)"
  by (erule h_weaken) auto

lemma account_handlers:
  "changes (bind_state (lift_result body) (\<lambda>p. bind_state (register aenv amb (reg_email p) (reg_password p) (reg_full_name p))
     (\<lambda>user. bind_state (add_audit amb (Some (u_id user)) act ip) (\<lambda>_. return_state (user_out user)))))"
  "changes (bind_state (lift_result lbody) (\<lambda>p. bind_state (authenticate aenv amb (login_email p) (login_password p))
     (\<lambda>user. bind_state (add_audit amb (Some (u_id user)) act ip) (\<lambda>_.
       bind_state (lift_result (issue_tokens aenv amb user)) (\<lambda>tokens. return_state (token_response tokens))))))"
  "changes (bind_state (lift_result tok) (\<lambda>t. bind_state (refresh aenv amb t) (\<lambda>tokens. return_state (token_response tokens))))"
  "changes (bind_state (get_current_user aenv amb cred) (\<lambda>u. return_state (user_out u)))"
  "changes (bind_state (lift_result tok) (\<lambda>t. bind_state (verify_email aenv amb t) (\<lambda>_. return_state msg)))"
  "changes (bind_state (lift_result mail) (\<lambda>v. bind_state (resend_verification aenv amb v) (\<lambda>_. return_state msg)))"
  "changes (bind_state (lift_result mail) (\<lambda>v. bind_state (request_password_reset aenv amb v) (\<lambda>_. return_state msg)))"
  "changes (bind_state (lift_result cbody) (\<lambda>p. bind_state (reset_password aenv amb (confirm_token p) (confirm_new_password p))
     (\<lambda>_. return_state msg)))"
  "changes (bind_state (get_access_payload aenv amb cred) (\<lambda>p. bind_state (logout aenv amb p rt) (\<lambda>_.
     bind_state (lift_result (subject_uuid p)) (\<lambda>i. bind_state (add_audit amb (Some i) act ip) (\<lambda>_. return_state msg)))))"
  by (rule h_bind [OF h_pure(3)] h_bind [OF register_changes] h_bind [OF authenticate_changes] h_bind [OF h_audit]
        h_bind [OF h_current_user] h_bind [OF verify_email_changes] h_bind [OF resend_verification_changes]
        h_bind [OF h_quiet [OF request_password_reset_quiet]] h_bind [OF reset_password_changes]
        h_bind [OF h_access_payload] h_bind [OF h_quiet [OF logout_quiet]]
        h_trueI [OF h_pure(1)] h_bind [OF h_quiet [OF refresh_quiet]])+

lemma create_alert_handler:
  "changes (bind_state (get_current_user aenv amb cred) (\<lambda>user. bind_state (lift_result body) (\<lambda>p.
     if str_upper (pac_origin p) = str_upper (pac_destination p) then raise_state e
     else bind_state (on_db (create_alert_row i t_us (u_id user) (str_upper (pac_origin p)) (str_upper (pac_destination p))
            (pac_departure_date p) (pac_target_amount_minor p) (str_upper (pac_currency p))
            (if pac_channel p = ''email'' then EMAIL else PUSH))) (\<lambda>alert. return_state (alert_out alert)))))"
  by (rule h_bind [OF h_current_user] h_bind [OF h_pure(3)] h_if h_trueI [OF h_pure(2)]
        h_bind [OF h_create_alert] h_trueI [OF h_pure(1)])+

lemma list_alerts_handler:
  "changes (bind_state (get_current_user aenv amb cred) (\<lambda>user. read_db (\<lambda>db. Inr (map alert_out (list_for_user (u_id user) db)))))"
  by (rule h_bind [OF h_current_user], rule h_trueI [OF h_read])

lemma delete_alert_handler:
  "changes (bind_state (get_current_user aenv amb cred) (\<lambda>user.
     case parsed of
       None \<Rightarrow> raise_state e
     | Some i \<Rightarrow> bind_state (read_db (get_owned i (u_id user))) (\<lambda>found.
         case found of None \<Rightarrow> raise_state e | Some alert \<Rightarrow> on_db (\<lambda>db. (Inr (), delete_alert_row alert db)))))"
proof (rule h_bind [OF h_current_user])
  fix user :: User
  have inner: "hoare Q (case found of None \<Rightarrow> raise_state e | Some alert \<Rightarrow> on_db (\<lambda>db. (Inr (), delete_alert_row alert db)))
      (\<lambda>v db. True)" for found Q
    by (cases found) (auto intro: h_trueI [OF h_pure(2)] h_delete_alert)
  show "hoare (\<lambda>db. user \<in> set (users db))
     (case parsed of
       None \<Rightarrow> raise_state e
     | Some i \<Rightarrow> bind_state (read_db (get_owned i (u_id user))) (\<lambda>found.
         case found of None \<Rightarrow> raise_state e | Some alert \<Rightarrow> on_db (\<lambda>db. (Inr (), delete_alert_row alert db)))) (\<lambda>v db. True)"
    by (cases parsed) (auto intro: h_trueI [OF h_pure(2)] h_bind [OF h_read inner])
qed

lemma h_optional_user: "changes (get_optional_user aenv amb cred)"
  by (rule h_trueI [OF h_quiet]) (simp add: get_optional_user_quiet)

lemma h_add_history: "changes (add_history row)"
  by (rule hoareI) (auto simp: add_history_def evolves_def db_ok_def admins_def)

lemma search_flights_handler_changes: "changes (search_flights_handler providers amb t0 t1 fq user)"
proof -
  have "changes (case user of None \<Rightarrow> return_state () | Some u \<Rightarrow> add_history (history_row amb t0 t1 u fq res))" for res
    by (cases user) (simp_all add: h_add_history h_trueI [OF h_pure(1)])
  then show ?thesis
    unfolding search_flights_handler_def
    by (intro h_if h_trueI [OF h_pure(2)] h_bind [OF h_pure(3)] h_bind h_trueI [OF h_pure(1)]) 
qed

lemma search_flights_changes:
  "changes (bind_state (get_optional_user aenv amb cred) (\<lambda>user. bind_state (lift_result errs) (\<lambda>_.
     search_flights_handler providers amb t0 t1 fq user)))"
  by (rule h_bind [OF h_optional_user] h_bind [OF h_pure(3)] search_flights_handler_changes)+

lemmas endpoint_defs = search_flights_def register_endpoint_def login_endpoint_def refresh_endpoint_def me_endpoint_def
  verify_email_endpoint_def resend_verification_endpoint_def request_password_reset_endpoint_def
  confirm_password_reset_endpoint_def logout_endpoint_def create_alert_endpoint_def
  list_alerts_endpoint_def delete_alert_endpoint_def

lemma app_step_evolves:
  "app_step env st st' \<Longrightarrow> db_ok (st_db (as_auth st)) \<Longrightarrow> evolves (st_db (as_auth st)) (st_db (as_auth st'))"
  by (induction rule: app_step.induct)
     (unfold endpoint_defs, (erule endpoint_evolves [rotated 2];
      (assumption | rule account_handlers create_alert_handler list_alerts_handler delete_alert_handler
        search_flights_changes))+)


section \<open>Properties\<close>

lemma reachable_evolves:
  "(app_step env)\<^sup>*\<^sup>* st st' \<Longrightarrow> db_ok (st_db (as_auth st)) \<Longrightarrow> evolves (st_db (as_auth st)) (st_db (as_auth st'))"
proof (induction rule: rtranclp_induct)
  case (step y z)
  have "db_ok (st_db (as_auth y))" using step.IH [OF step.prems] by (simp add: evolves_def)
  with app_step_evolves [OF step.hyps(2)] step.IH [OF step.prems] show ?case by (blast intro: evolves_trans)
qed (rule evolves_refl)

lemma get_current_user_quiet: "st_db (snd (get_current_user env amb c st)) = st_db st"
  using get_access_payload_quiet [of env amb c st]
  by (auto simp: get_current_user_def bind_state_def lift_result_def raise_state_def return_state_def read_db_def
      split: prod.splits sum.splits option.splits)

lemma get_owned_cases:
  assumes "db_ok db"
  shows "get_owned i uid db = Inr (if \<exists>a \<in> set (price_alerts db). a_id a = i \<and> a_user_id a = uid
           then List.find (\<lambda>a. a_id a = i) (price_alerts db) else None)"
proof -
  have d: "distinct (map a_id (price_alerts db))" using assms by (simp add: db_ok_def)
  have "filter (\<lambda>a. a_id a = i \<and> a_user_id a = uid) (price_alerts db)
      = filter (\<lambda>a. a_user_id a = uid) (filter (\<lambda>a. a_id a = i) (price_alerts db))"
    by (simp add: conj_commute)
  also have "\<dots> = (case List.find (\<lambda>a. a_id a = i) (price_alerts db) of None \<Rightarrow> []
      | Some a \<Rightarrow> if a_user_id a = uid then [a] else [])"
    unfolding filter_key_le_1 [OF d] by (simp split: option.split)
  finally have f: "filter (\<lambda>a. a_id a = i \<and> a_user_id a = uid) (price_alerts db) = \<dots>" .
  show ?thesis
  proof (cases "List.find (\<lambda>a. a_id a = i) (price_alerts db)")
    case None
    then show ?thesis using f by (simp add: get_owned_def scalar_one_or_none_def)
  next
    case (Some b)
    then have "b \<in> set (price_alerts db)" "a_id b = i" by (simp_all add: find_Some_iff_distinct [OF d])
    then have "(\<exists>a \<in> set (price_alerts db). a_id a = i \<and> a_user_id a = uid) \<longleftrightarrow> a_user_id b = uid"
      using d by (auto simp: distinct_map inj_on_def)
    then show ?thesis using f Some by (simp add: get_owned_def scalar_one_or_none_def)
  qed
qed

lemma get_owned_Some:
  assumes "db_ok db"
  shows "get_owned i uid db = Inr (Some a) \<longleftrightarrow> a \<in> set (price_alerts db) \<and> a_id a = i \<and> a_user_id a = uid"
proof -
  have d: "distinct (map a_id (price_alerts db))" using assms by (simp add: db_ok_def)
  then show ?thesis
    using find_Some_iff_distinct [OF d, of i] by (auto simp: get_owned_cases [OF assms] distinct_map inj_on_def)
qed

text \<open>The delete handler after the user is known.\<close>

definition delete_owned :: "User \<Rightarrow> string \<Rightarrow> ('n, 'c, unit) auth_op" where
  "delete_owned user alert_id =
     (case uuid_parse alert_id of
        None \<Rightarrow> raise_state (app_error NotFoundError ''alert not found'')
      | Some i \<Rightarrow>
          bind_state (read_db (get_owned i (u_id user))) (\<lambda>found.
            case found of
              None \<Rightarrow> raise_state (app_error NotFoundError ''alert not found'')
            | Some alert \<Rightarrow> on_db (\<lambda>db. (Inr (), delete_alert_row alert db))))"

lemma delete_owned_cases:
  assumes "db_ok (st_db st)"
  shows "if \<exists>a \<in> set (price_alerts (st_db st)). uuid_parse alert_id = Some (a_id a) \<and> a_user_id a = u_id user
    then \<exists>a \<in> set (price_alerts (st_db st)). uuid_parse alert_id = Some (a_id a) \<and> a_user_id a = u_id user
      \<and> delete_owned user alert_id st = (Inr (), st\<lparr>st_db := delete_alert_row a (st_db st)\<rparr>)
    else delete_owned user alert_id st = (Inl (app_error NotFoundError ''alert not found''), st)"
proof (cases "uuid_parse alert_id")
  case None
  then show ?thesis by (simp add: delete_owned_def raise_state_def)
next
  case (Some i)
  show ?thesis
  proof (cases "\<exists>a \<in> set (price_alerts (st_db st)). a_id a = i \<and> a_user_id a = u_id user")
    case True
    then obtain a where a: "a \<in> set (price_alerts (st_db st))" "a_id a = i" "a_user_id a = u_id user" by blast
    then have "get_owned i (u_id user) (st_db st) = Inr (Some a)" using get_owned_Some [OF assms] by blast
    then have "delete_owned user alert_id st = (Inr (), st\<lparr>st_db := delete_alert_row a (st_db st)\<rparr>)"
      by (simp add: delete_owned_def Some bind_state_def read_db_def on_db_def)
    with a Some show ?thesis by auto
  next
    case False
    then show ?thesis
      using get_owned_cases [OF assms, of i "u_id user"] Some
      by (auto simp: delete_owned_def bind_state_def read_db_def raise_state_def)
  qed
qed

text \<open>
  Only the owner of a price alert can delete it.  A delete request removes at most the one alert
  with the given id, and only when the bearer of the access token owns it; in every other case the alerts
  are unchanged, and for the id of another account's alert the answer is the same \<open>NotFoundError\<close> as for
  an id that does not exist.
\<close>

lemma delete_alert_owner_only:
  assumes "db_ok (st_db (as_auth st))"
    and "delete_alert_endpoint env amb request credentials alert_id st = (r, st')"
  shows "(case r of
      Inr _ \<Rightarrow> \<exists>u a. fst (get_current_user (app_auth env) amb credentials (as_auth st)) = Inr u
          \<and> a \<in> set (price_alerts (st_db (as_auth st))) \<and> a_user_id a = u_id u \<and> uuid_parse alert_id = Some (a_id a)
          \<and> price_alerts (st_db (as_auth st')) = filter (\<lambda>b. a_id b \<noteq> a_id a) (price_alerts (st_db (as_auth st)))
    | Inl e \<Rightarrow> price_alerts (st_db (as_auth st')) = price_alerts (st_db (as_auth st)))
    \<and> (\<forall>u remaining l. fst (get_current_user (app_auth env) amb credentials (as_auth st)) = Inr u
         \<and> enforce_rate_limit (app_check env) (app_limit_of env) (app_proxy_trust env) (tick amb) request (as_limiter st)
             = (Inr remaining, l)
         \<and> (\<forall>a \<in> set (price_alerts (st_db (as_auth st))). uuid_parse alert_id = Some (a_id a) \<longrightarrow> a_user_id a \<noteq> u_id u)
         \<longrightarrow> r = Inl (app_error NotFoundError ''alert not found''))"
proof -
  let ?gcu = "get_current_user (app_auth env) amb credentials (as_auth st)"
  let ?alerts = "price_alerts (st_db (as_auth st))"
  obtain lim l where lim: "enforce_rate_limit (app_check env) (app_limit_of env) (app_proxy_trust env) (tick amb) request
      (as_limiter st) = (lim, l)" by fastforce
  obtain ru s1 where gcu: "?gcu = (ru, s1)" by fastforce
  have s1: "st_db s1 = st_db (as_auth st)" using get_current_user_quiet [of "app_auth env" amb credentials "as_auth st"] gcu by simp
  have run: "delete_alert_endpoint env amb request credentials alert_id st =
    (case lim of Inl e \<Rightarrow> (Inl e, st\<lparr>as_limiter := l\<rparr>)
     | Inr rem \<Rightarrow> (case in_session (bind_state (get_current_user (app_auth env) amb credentials) (\<lambda>u. delete_owned u alert_id)) (as_auth st)
         of (r, a) \<Rightarrow> (r, st\<lparr>as_limiter := l, as_auth := a\<rparr>)))"
    by (cases lim) (simp_all add: delete_alert_endpoint_def endpoint_def lim delete_owned_def [abs_def])
  show ?thesis
  proof (cases lim; cases ru)
    fix rem u assume "lim = Inr rem" "ru = Inr u"
    then show ?thesis
      using assms(2) run gcu delete_owned_cases [of s1 alert_id u] assms(1) s1 lim
      by (auto 4 4 simp: in_session_def bind_state_def delete_alert_row_def split: if_splits)
  qed (use assms(2) run gcu s1 lim in \<open>auto simp: in_session_def bind_state_def\<close>)
qed

lemma delete_alert_owner_only_example:
  "\<exists>r st'. delete_alert_endpoint example_app (example_ambient 1100) \<lparr>req_client = Some ''8.8.8.8'', req_headers = []\<rparr>
      None ''7'' example_app_state = (r, st')
    \<and> price_alerts (st_db (as_auth st')) = price_alerts (st_db (as_auth example_app_state))"
proof -
  obtain r st' where d: "delete_alert_endpoint example_app (example_ambient 1100)
     \<lparr>req_client = Some ''8.8.8.8'', req_headers = []\<rparr> None ''7'' example_app_state = (r, st')" by fastforce
  have ok: "db_ok (st_db (as_auth example_app_state))" by (simp add: example_app_state_def example_db_ok)
  have "fst (get_current_user (app_auth example_app) (example_ambient 1100) None (as_auth example_app_state))
      = Inl (app_error AuthenticationError ''missing bearer token'')"
    by (simp add: get_current_user_def get_access_payload_def)
  with delete_alert_owner_only [OF ok d] d show ?thesis by (auto split: sum.splits)
qed

end
