(* ===== verification/Application.thy ===== *)
theory Application
  imports Api_Invariants Container
begin

text \<open>
  The running application of one node: the environment and the first state of the endpoints, as the
  dependencies of \<^verbatim>\<open>app/api/deps.py\<close> take them out of the container of \<^verbatim>\<open>app/container.py\<close> when
  neither Redis nor an SMTP server is configured.  The libraries behind the authentication service (PyJWT, Argon2
  and the e-mail validator) stay parameters.
\<close>

section \<open>Dependencies\<close>

definition single_node :: "Settings \<Rightarrow> bool" where
  "single_node settings \<longleftrightarrow> redis_url settings = None \<and> smtp_host settings = None"

text \<open>The limiter and the notifier of a container, where they live in the process.\<close>

definition get_rate_limiter :: "'c container \<Rightarrow> limiter option" where
  "get_rate_limiter c = (case ct_rate_limiter c of MemoryLimiter l \<Rightarrow> Some l | RedisLimiter url n w \<Rightarrow> None)"

definition get_auth_service ::
  "jwt_lib \<Rightarrow> hasher \<Rightarrow> string \<Rightarrow> Settings \<Rightarrow> (string \<Rightarrow> string \<Rightarrow> string \<Rightarrow> 'n \<Rightarrow> unit result \<times> 'n) \<Rightarrow> 'c cache_ops
   \<Rightarrow> ('n, 'c) auth_env" where
  "get_auth_service jwt hasher dummy_salt settings send blocklist =
     \<lparr>ae_settings = settings, ae_jwt = jwt, ae_hasher = hasher, ae_dummy_salt = dummy_salt, ae_send = send,
      ae_cache = blocklist\<rparr>"

definition get_flight_service :: "'c container \<Rightarrow> FlightProvider list result" where
  "get_flight_service c = ct_flights c"

definition get_hotel_service :: "'c container \<Rightarrow> HotelProvider list result" where
  "get_hotel_service c = ct_hotels c"

definition get_weather_provider :: "'c container \<Rightarrow> 'c OpenMeteoWeatherProvider \<times> breaker" where
  "get_weather_provider c = ct_weather c"

definition get_currency_provider :: "'c container \<Rightarrow> 'c ExchangeRateProvider \<times> breaker" where
  "get_currency_provider c = ct_currency c"

definition node_container :: "'g rng \<Rightarrow> Settings \<Rightarrow> pyfloat \<Rightarrow> memory_cache container" where
  "node_container rng settings clock_now = make_container rng settings None memory_cache_ops clock_now"

definition node_app ::
  "jwt_lib \<Rightarrow> hasher \<Rightarrow> string \<Rightarrow> (string \<Rightarrow> string result) \<Rightarrow> Settings \<Rightarrow> (mail list, memory_cache, limiter) app_env" where
  "node_app jwt hasher dummy_salt validate_email settings =
     \<lparr>app_auth = get_auth_service jwt hasher dummy_salt settings console_send memory_cache_ops,
      app_check = check, app_limit_of = limit, app_proxy_trust = ProxyTrust (trusted_proxy_cidrs settings),
      app_validate_email = validate_email\<rparr>"

definition node_start :: "database \<Rightarrow> Settings \<Rightarrow> pyfloat \<Rightarrow> (mail list, memory_cache, limiter) app_state" where
  "node_start db settings clock_now =
     \<lparr>as_auth = \<lparr>st_db = db, st_mail = [], st_denylist = InMemoryCache\<rparr>,
      as_limiter = InMemoryRateLimiter (rate_limit_per_minute settings) 60 clock_now\<rparr>"

text \<open>The node is what the container builds.\<close>

lemma node_container_backends:
  assumes "single_node settings"
  shows "ct_cache (node_container rng settings clock_now) = InMemoryBackend"
    and "ct_notifier (node_container rng settings clock_now) = Console"
    and "get_rate_limiter (node_container rng settings clock_now) = Some (as_limiter (node_start db settings clock_now))"
    and "ct_proxy_trust (node_container rng settings clock_now)
         = app_proxy_trust (node_app jwt hasher salt validate_email settings)"
  using assms
  by (simp_all add: single_node_def node_container_def make_container_def cache_backend_def notifier_backend_def
      limiter_backend_def get_rate_limiter_def node_start_def node_app_def)

end
