(* ===== verification/Routing.thy ===== *)
theory Routing
  imports Settings_Model
begin

text \<open>
  The routes of the service: the routers of \<^verbatim>\<open>app/api/v1/\<close> with their prefixes, status codes and
  dependencies, their inclusion in \<^verbatim>\<open>app/api/v1/router.py\<close>, and the routes that
  \<^verbatim>\<open>app/main.py\<close> adds.  Matching a path with a template is Starlette's, a parameter.
\<close>

section \<open>Routers\<close>

datatype endpoint_id =
  E_live | E_ready
| E_register | E_login | E_refresh | E_me | E_verify_email | E_resend_verification
| E_request_password_reset | E_confirm_password_reset | E_logout
| E_search_flights | E_search_hotels | E_get_weather | E_convert_currency
| E_create_alert | E_list_alerts | E_delete_alert
| E_admin_metrics | E_metrics_endpoint | E_root

text \<open>The user that a handler asks for in its signature.\<close>

datatype access = Anyone | OptionalUser | AccessPayload | CurrentUser | AdminUser

record route =
  rt_method :: string
  rt_path :: string
  rt_endpoint :: endpoint_id
  rt_status :: int
  rt_limited :: bool \<comment> \<open>\<open>Depends(enforce_rate_limit)\<close>\<close>
  rt_access :: access

record APIRouter =
  ar_prefix :: string
  ar_limited :: bool
  ar_routes :: "route list"

definition api_route :: "string \<Rightarrow> string \<Rightarrow> endpoint_id \<Rightarrow> access \<Rightarrow> route" where
  "api_route method path e a =
     \<lparr>rt_method = method, rt_path = path, rt_endpoint = e, rt_status = 200, rt_limited = False, rt_access = a\<rparr>"

definition health_router :: APIRouter where
  "health_router = \<lparr>ar_prefix = [], ar_limited = False, ar_routes =
     [api_route ''GET'' ''/health/live'' E_live Anyone,
      api_route ''GET'' ''/health/ready'' E_ready Anyone]\<rparr>"

definition auth_router :: APIRouter where
  "auth_router = \<lparr>ar_prefix = ''/auth'', ar_limited = True, ar_routes =
     [(api_route ''POST'' ''/register'' E_register Anyone)\<lparr>rt_status := 201\<rparr>,
      api_route ''POST'' ''/login'' E_login Anyone,
      api_route ''POST'' ''/refresh'' E_refresh Anyone,
      api_route ''GET'' ''/me'' E_me CurrentUser,
      api_route ''POST'' ''/verify-email'' E_verify_email Anyone,
      api_route ''POST'' ''/resend-verification'' E_resend_verification Anyone,
      api_route ''POST'' ''/password-reset/request'' E_request_password_reset Anyone,
      api_route ''POST'' ''/password-reset/confirm'' E_confirm_password_reset Anyone,
      api_route ''POST'' ''/logout'' E_logout AccessPayload]\<rparr>"

definition flights_router :: APIRouter where
  "flights_router = \<lparr>ar_prefix = ''/flights'', ar_limited = False, ar_routes =
     [(api_route ''GET'' ''/search'' E_search_flights OptionalUser)\<lparr>rt_limited := True\<rparr>]\<rparr>"

definition hotels_router :: APIRouter where
  "hotels_router = \<lparr>ar_prefix = ''/hotels'', ar_limited = False, ar_routes =
     [(api_route ''GET'' ''/search'' E_search_hotels Anyone)\<lparr>rt_limited := True\<rparr>]\<rparr>"

definition weather_router :: APIRouter where
  "weather_router = \<lparr>ar_prefix = ''/weather'', ar_limited = False, ar_routes =
     [(api_route ''GET'' [] E_get_weather Anyone)\<lparr>rt_limited := True\<rparr>]\<rparr>"

definition currency_router :: APIRouter where
  "currency_router = \<lparr>ar_prefix = ''/currency'', ar_limited = False, ar_routes =
     [(api_route ''GET'' ''/convert'' E_convert_currency Anyone)\<lparr>rt_limited := True\<rparr>]\<rparr>"

definition price_alerts_router :: APIRouter where
  "price_alerts_router = \<lparr>ar_prefix = ''/price-alerts'', ar_limited = True, ar_routes =
     [(api_route ''POST'' [] E_create_alert CurrentUser)\<lparr>rt_status := 201\<rparr>,
      api_route ''GET'' [] E_list_alerts CurrentUser,
      (api_route ''DELETE'' ''/{alert_id}'' E_delete_alert CurrentUser)\<lparr>rt_status := 204\<rparr>]\<rparr>"

definition admin_router :: APIRouter where
  "admin_router = \<lparr>ar_prefix = ''/admin'', ar_limited = False, ar_routes =
     [api_route ''GET'' ''/metrics'' E_admin_metrics AdminUser]\<rparr>"

text \<open>The prefix goes before every path, and a dependency of the router is one of every route.\<close>

definition include_router :: "APIRouter \<Rightarrow> route list" where
  "include_router r =
     map (\<lambda>t. t\<lparr>rt_path := ar_prefix r @ rt_path t, rt_limited := ar_limited r \<or> rt_limited t\<rparr>) (ar_routes r)"

definition api_router :: "route list" where
  "api_router = concat (map include_router
     [health_router, auth_router, flights_router, hotels_router, weather_router, currency_router,
      price_alerts_router, admin_router])"

text \<open>
  The routes of \<open>create_app\<close>: the API under its prefix, the scrape endpoint and the redirect of the root,
  which answers with status 307.
\<close>

definition app_routes :: "Settings \<Rightarrow> route list" where
  "app_routes settings =
     include_router \<lparr>ar_prefix = api_prefix settings, ar_limited = False, ar_routes = api_router\<rparr>
     @ [api_route ''GET'' ''/metrics'' E_metrics_endpoint Anyone,
        (api_route ''GET'' ''/'' E_root Anyone)\<lparr>rt_status := 307\<rparr>]"


section \<open>Matching\<close>

text \<open>
  What Starlette documents: a template without parameters matches itself; a parameter at the end matches one
  non-empty path segment; the first route in the order of registration that matches gets the request.  Paths with a
  line break are left open.
\<close>

record route_lib =
  rl_matches :: "string \<Rightarrow> string \<Rightarrow> bool"
  rl_resolve :: "route list \<Rightarrow> string \<Rightarrow> string \<Rightarrow> route option"

definition line_break :: char where "line_break = CHR 0x0A"

definition routing_documented :: "route_lib \<Rightarrow> bool" where
  "routing_documented lib \<longleftrightarrow>
     (\<forall>t p. CHR ''{'' \<notin> set t \<and> line_break \<notin> set p \<longrightarrow> (rl_matches lib t p \<longleftrightarrow> p = t))
     \<and> (\<forall>a x p. CHR ''{'' \<notin> set a \<and> CHR ''}'' \<notin> set x \<and> CHR '':'' \<notin> set x \<and> line_break \<notin> set p \<longrightarrow>
          (rl_matches lib (a @ CHR ''{'' # x @ ''}'') p \<longleftrightarrow> (\<exists>s. p = a @ s \<and> s \<noteq> [] \<and> CHR ''/'' \<notin> set s)))
     \<and> (\<forall>rs m p. rl_resolve lib rs m p = List.find (\<lambda>r. rt_method r = m \<and> rl_matches lib (rt_path r) p) rs)"

lemmas router_defs = api_router_def include_router_def api_route_def health_router_def auth_router_def flights_router_def
  hotels_router_def weather_router_def currency_router_def price_alerts_router_def admin_router_def

text \<open>The table, spelled out.\<close>

lemma api_router_table:
  "map (\<lambda>r. (rt_method r, rt_path r, rt_endpoint r, rt_status r, rt_limited r, rt_access r)) api_router =
   [(''GET'', ''/health/live'', E_live, 200, False, Anyone),
    (''GET'', ''/health/ready'', E_ready, 200, False, Anyone),
    (''POST'', ''/auth/register'', E_register, 201, True, Anyone),
    (''POST'', ''/auth/login'', E_login, 200, True, Anyone),
    (''POST'', ''/auth/refresh'', E_refresh, 200, True, Anyone),
    (''GET'', ''/auth/me'', E_me, 200, True, CurrentUser),
    (''POST'', ''/auth/verify-email'', E_verify_email, 200, True, Anyone),
    (''POST'', ''/auth/resend-verification'', E_resend_verification, 200, True, Anyone),
    (''POST'', ''/auth/password-reset/request'', E_request_password_reset, 200, True, Anyone),
    (''POST'', ''/auth/password-reset/confirm'', E_confirm_password_reset, 200, True, Anyone),
    (''POST'', ''/auth/logout'', E_logout, 200, True, AccessPayload),
    (''GET'', ''/flights/search'', E_search_flights, 200, True, OptionalUser),
    (''GET'', ''/hotels/search'', E_search_hotels, 200, True, Anyone),
    (''GET'', ''/weather'', E_get_weather, 200, True, Anyone),
    (''GET'', ''/currency/convert'', E_convert_currency, 200, True, Anyone),
    (''POST'', ''/price-alerts'', E_create_alert, 201, True, CurrentUser),
    (''GET'', ''/price-alerts'', E_list_alerts, 200, True, CurrentUser),
    (''DELETE'', ''/price-alerts/{alert_id}'', E_delete_alert, 204, True, CurrentUser),
    (''GET'', ''/admin/metrics'', E_admin_metrics, 200, False, AdminUser)]"
  by (simp add: router_defs)


section \<open>Properties\<close>

lemma find_unique:
  assumes "\<And>x y. x \<in> set xs \<Longrightarrow> y \<in> set xs \<Longrightarrow> P x \<Longrightarrow> P y \<Longrightarrow> x = y"
  shows "List.find P xs = Some r \<longleftrightarrow> r \<in> set xs \<and> P r"
  using assms
proof (induction xs)
  case (Cons a xs)
  then have IH: "List.find P xs = Some r \<longleftrightarrow> r \<in> set xs \<and> P r" by simp
  have "P a \<Longrightarrow> r \<in> set xs \<and> P r \<Longrightarrow> r = a" using Cons.prems [of r a] by auto
  with IH show ?case by auto
qed simp

definition route_key :: "route \<Rightarrow> string \<times> string" where "route_key r = (rt_method r, rt_path r)"

lemma not_under_prefix: "take (length p) (rev q) \<noteq> rev p \<Longrightarrow> pre @ p \<noteq> q"
  by auto

lemma api_router_facts:
  "distinct (map route_key api_router)" "distinct (map rt_endpoint api_router)"
  "\<forall>r \<in> set api_router. rt_endpoint r \<notin> {E_metrics_endpoint, E_root}"
  "\<forall>r \<in> set api_router. rt_method r = ''DELETE'' \<longleftrightarrow> rt_endpoint r = E_delete_alert"
  "\<forall>r \<in> set api_router. rt_endpoint r = E_delete_alert \<longrightarrow> rt_path r = ''/price-alerts/'' @ CHR ''{'' # ''alert_id'' @ ''}''"
  "\<forall>r \<in> set api_router. rt_endpoint r \<noteq> E_delete_alert \<longrightarrow> CHR ''{'' \<notin> set (rt_path r)"
  "\<forall>r \<in> set api_router. take (length (rt_path r)) (rev ''/metrics'') \<noteq> rev (rt_path r)"
  "\<forall>r \<in> set api_router. take (length (rt_path r)) (rev ''/'') \<noteq> rev (rt_path r)"
  by (simp_all add: router_defs route_key_def)

lemma app_routes_eq:
  "app_routes settings = map (\<lambda>r. r\<lparr>rt_path := api_prefix settings @ rt_path r\<rparr>) api_router
     @ [api_route ''GET'' ''/metrics'' E_metrics_endpoint Anyone, (api_route ''GET'' ''/'' E_root Anyone)\<lparr>rt_status := 307\<rparr>]"
  by (simp add: app_routes_def include_router_def)

lemma app_routes_distinct:
  "distinct (map route_key (app_routes settings))" "distinct (map rt_endpoint (app_routes settings))"
proof -
  let ?pre = "api_prefix settings"
  have "distinct (map (route_key \<circ> (\<lambda>r. r\<lparr>rt_path := ?pre @ rt_path r\<rparr>)) api_router)"
    using api_router_facts(1) by (simp add: distinct_map inj_on_def route_key_def)
  moreover have "?pre @ rt_path r \<noteq> ''/metrics''" "?pre @ rt_path r \<noteq> ''/''" if "r \<in> set api_router" for r
    using api_router_facts(7,8) that by (intro not_under_prefix; simp)+
  ultimately show "distinct (map route_key (app_routes settings))"
    by (fastforce simp: app_routes_eq route_key_def api_route_def)
  show "distinct (map rt_endpoint (app_routes settings))"
    using api_router_facts(2,3) by (auto simp: app_routes_eq api_route_def comp_def)
qed

lemma endpoint_registered: "\<exists>r \<in> set (app_routes settings). rt_endpoint r = e"
proof -
  have "e \<in> set (map rt_endpoint (app_routes settings))" by (cases e) (simp_all add: app_routes_eq router_defs)
  then show ?thesis by auto
qed

text \<open>The paths of a route: its own, or any segment in place of the identifier of an alert.\<close>

definition route_paths :: "Settings \<Rightarrow> route \<Rightarrow> string set" where
  "route_paths settings r =
     (if rt_endpoint r = E_delete_alert
      then {api_prefix settings @ ''/price-alerts/'' @ s |s. s \<noteq> [] \<and> CHR ''/'' \<notin> set s}
      else {rt_path r})"

lemma route_matches:
  assumes "routing_documented lib" "CHR ''{'' \<notin> set (api_prefix settings)" "line_break \<notin> set p" "r \<in> set (app_routes settings)"
  shows "rl_matches lib (rt_path r) p \<longleftrightarrow> p \<in> route_paths settings r"
proof (cases "rt_endpoint r = E_delete_alert")
  case True
  then have "rt_path r = (api_prefix settings @ ''/price-alerts/'') @ CHR ''{'' # ''alert_id'' @ ''}''"
    using assms(4) api_router_facts(5) by (auto simp: app_routes_eq api_route_def)
  moreover have "CHR ''{'' \<notin> set (api_prefix settings @ ''/price-alerts/'')" "CHR ''}'' \<notin> set ''alert_id''" "CHR '':'' \<notin> set ''alert_id''"
    using assms(2) by simp_all
  ultimately have "rl_matches lib (rt_path r) p
      \<longleftrightarrow> (\<exists>s. p = (api_prefix settings @ ''/price-alerts/'') @ s \<and> s \<noteq> [] \<and> CHR ''/'' \<notin> set s)"
    using assms(1,3) unfolding routing_documented_def by presburger
  with True show ?thesis by (auto simp: route_paths_def)
next
  case False
  then have "CHR ''{'' \<notin> set (rt_path r)"
    using assms(2,4) api_router_facts(6) by (auto simp: app_routes_eq api_route_def)
  with False assms(1,3) show ?thesis by (auto simp: route_paths_def routing_documented_def)
qed

lemma same_route:
  assumes "x \<in> set (app_routes settings)" "y \<in> set (app_routes settings)" "rt_method x = rt_method y"
    "p \<in> route_paths settings x" "p \<in> route_paths settings y"
  shows "x = y"
proof -
  have del: "rt_method r = ''DELETE'' \<longleftrightarrow> rt_endpoint r = E_delete_alert" if "r \<in> set (app_routes settings)" for r
    using that api_router_facts(4) by (auto simp: app_routes_eq api_route_def)
  show ?thesis
  proof (cases "rt_endpoint x = E_delete_alert")
    case True
    then have "rt_endpoint y = E_delete_alert" using del assms(1-3) by metis
    with True show ?thesis using app_routes_distinct(2) [of settings] assms(1,2) by (simp add: distinct_map inj_on_def)
  next
    case False
    then have "rt_endpoint y \<noteq> E_delete_alert" using del assms(1-3) by metis
    with False have "route_key x = route_key y" using assms(3-5) by (simp add: route_key_def route_paths_def)
    then show ?thesis using app_routes_distinct(1) [of settings] assms(1,2) by (simp add: distinct_map inj_on_def)
  qed
qed

text \<open>
  C38: every endpoint is reachable at its own method and path and nowhere else.  Under any prefix without braces, and
  for paths without line breaks, the router of the application gives a request to a route exactly when the method
  and the path are those of the route, so no route shadows another and the order in which the routers are
  included does not matter; and each of the 21 endpoints is registered exactly once.
\<close>

theorem routing_exact:
  assumes "routing_documented lib" and "CHR ''{'' \<notin> set (api_prefix settings)" and "line_break \<notin> set p"
  shows "(rl_resolve lib (app_routes settings) m p = Some r \<longleftrightarrow>
      r \<in> set (app_routes settings) \<and> rt_method r = m \<and> p \<in> route_paths settings r)
    \<and> (\<exists>!t. t \<in> set (app_routes settings) \<and> rt_endpoint t = e)"
proof
  let ?routes = "app_routes settings"
  have m: "rl_matches lib (rt_path x) p \<longleftrightarrow> p \<in> route_paths settings x" if "x \<in> set ?routes" for x
    by (rule route_matches [OF assms that])
  have "rl_resolve lib ?routes m p = List.find (\<lambda>r. rt_method r = m \<and> rl_matches lib (rt_path r) p) ?routes"
    using assms(1) by (simp add: routing_documented_def)
  also have "\<dots> = Some r \<longleftrightarrow> r \<in> set ?routes \<and> rt_method r = m \<and> rl_matches lib (rt_path r) p"
    by (rule find_unique) (use m same_route in blast)
  finally show "rl_resolve lib ?routes m p = Some r \<longleftrightarrow> r \<in> set ?routes \<and> rt_method r = m \<and> p \<in> route_paths settings r"
    using m by blast
  show "\<exists>!t. t \<in> set ?routes \<and> rt_endpoint t = e"
    using endpoint_registered [of settings e] app_routes_distinct(2) [of settings] by (auto simp: distinct_map inj_on_def)
qed

text \<open>A matcher that does what the documentation says: without a parameter the path itself, else one segment after the literal part.\<close>

definition segment_matches :: "string \<Rightarrow> string \<Rightarrow> bool" where
  "segment_matches t p =
     (if CHR ''{'' \<notin> set t then p = t
      else let a = takeWhile (\<lambda>c. c \<noteq> CHR ''{'') t; s = drop (length a) p
           in take (length a) p = a \<and> s \<noteq> [] \<and> CHR ''/'' \<notin> set s)"

definition example_route_lib :: route_lib where
  "example_route_lib = \<lparr>rl_matches = segment_matches,
     rl_resolve = (\<lambda>rs m p. List.find (\<lambda>r. rt_method r = m \<and> segment_matches (rt_path r) p) rs)\<rparr>"

lemma example_route_lib_documented: "routing_documented example_route_lib"
proof -
  have "segment_matches (a @ CHR ''{'' # x @ ''}'') p \<longleftrightarrow> (\<exists>s. p = a @ s \<and> s \<noteq> [] \<and> CHR ''/'' \<notin> set s)"
    if "CHR ''{'' \<notin> set a" for a x p
  proof -
    have t: "takeWhile (\<lambda>c. c \<noteq> CHR ''{'') (a @ CHR ''{'' # x @ ''}'') = a"
      using that by (induction a) auto
    have "take (length a) p = a \<longleftrightarrow> (\<exists>s. p = a @ s)" by (metis append_eq_conv_conj append_take_drop_id)
    then show ?thesis by (auto simp: segment_matches_def t Let_def)
  qed
  then show ?thesis by (simp add: routing_documented_def example_route_lib_def segment_matches_def)
qed

theorem routing_exact_witness:
  "\<exists>r. rl_resolve example_route_lib (app_routes default_settings) ''DELETE'' ''/api/v1/price-alerts/7'' = Some r
     \<and> rt_endpoint r = E_delete_alert"
proof -
  have p: "CHR ''{'' \<notin> set (api_prefix default_settings)" "line_break \<notin> set ''/api/v1/price-alerts/7''"
    by (simp_all add: default_settings_def line_break_def)
  note all = routing_exact [OF example_route_lib_documented p]
  obtain t where t: "t \<in> set (app_routes default_settings)" "rt_endpoint t = E_delete_alert"
    using all by blast
  have "rt_method t = ''DELETE''" using t api_router_facts(4) by (auto simp: app_routes_eq api_route_def)
  moreover have "''/api/v1/price-alerts/7'' \<in> route_paths default_settings t"
    using t(2) by (auto simp: route_paths_def default_settings_def)
  ultimately show ?thesis using all t by blast
qed

end
