(* ===== verification/Node.thy ===== *)
theory Node
  imports Application Routing
begin

text \<open>
  One node of the service as a whole: every endpoint over one state.  The token denylist and the HTTP clients of the
  weather and currency providers share one cache, the two clients have a circuit breaker each, and all
  rate-limited endpoints share one limiter, as the container of \<^verbatim>\<open>app/container.py\<close> wires them.
\<close>

section \<open>Calls\<close>

text \<open>
  A request after FastAPI found its route and converted its parameters to their types; the constraints on
  their values are checked by the endpoints.
\<close>

datatype api_call =
  LiveCall | ReadyCall "unit result"
| RegisterCall string string "string option" | LoginCall string string | RefreshCall string | MeCall
| VerifyEmailCall string | ResendVerificationCall string | RequestResetCall string | ConfirmResetCall string string
| LogoutCall "string option"
| FlightsCall pyfloat pyfloat flight_request | HotelsCall hotel_request | WeatherCall xfloat xfloat date
| CurrencyCall string string xfloat
| CreateAlertCall string string string int "string option" "string option" | ListAlertsCall | DeleteAlertCall string
| AdminMetricsCall

fun call_endpoint :: "api_call \<Rightarrow> endpoint_id" where
  "call_endpoint LiveCall = E_live"
| "call_endpoint (ReadyCall select_1) = E_ready"
| "call_endpoint (RegisterCall email password full_name) = E_register"
| "call_endpoint (LoginCall email password) = E_login"
| "call_endpoint (RefreshCall token) = E_refresh"
| "call_endpoint MeCall = E_me"
| "call_endpoint (VerifyEmailCall token) = E_verify_email"
| "call_endpoint (ResendVerificationCall email) = E_resend_verification"
| "call_endpoint (RequestResetCall email) = E_request_password_reset"
| "call_endpoint (ConfirmResetCall token password) = E_confirm_password_reset"
| "call_endpoint (LogoutCall token) = E_logout"
| "call_endpoint (FlightsCall started ended q) = E_search_flights"
| "call_endpoint (HotelsCall q) = E_search_hotels"
| "call_endpoint (WeatherCall latitude longitude d) = E_get_weather"
| "call_endpoint (CurrencyCall base quote amt) = E_convert_currency"
| "call_endpoint (CreateAlertCall orig dest dep target cur chan) = E_create_alert"
| "call_endpoint ListAlertsCall = E_list_alerts"
| "call_endpoint (DeleteAlertCall alert_id) = E_delete_alert"
| "call_endpoint AdminMetricsCall = E_admin_metrics"

datatype reply =
  HealthReply HealthOut | UserReply UserOut | TokenReply TokenResponse | MessageReply MessageResponse
| FlightReply FlightSearchResponse | HotelReply HotelSearchResponse | WeatherReply WeatherOut | CurrencyReply CurrencyOut
| AlertReply PriceAlertOut | AlertsReply "PriceAlertOut list" | NoContent unit | MetricsReply AdminMetrics


section \<open>The node\<close>

record ('n, 'c, 'l, 's) node_env =
  ne_app :: "('n, 'c, 'l) app_env"
  ne_version :: string
  ne_flights :: "FlightProvider list"
  ne_hotels :: "HotelProvider list"
  ne_weather :: "'c OpenMeteoWeatherProvider"
  ne_currency :: "'c ExchangeRateProvider"
  ne_http :: "'s http_env"

record ('n, 'c, 'l, 's) node_state =
  nd_app :: "('n, 'c, 'l) app_state"
  nd_weather :: breaker
  nd_currency :: breaker
  nd_world :: 's

text \<open>An endpoint over the accounts, and one without a session but with the rate limit.\<close>

definition on_app ::
  "('a \<Rightarrow> reply) \<Rightarrow> (('n, 'c, 'l) app_state \<Rightarrow> 'a result \<times> ('n, 'c, 'l) app_state) \<Rightarrow> ('n, 'c, 'l, 's) node_state
   \<Rightarrow> reply outcome \<times> ('n, 'c, 'l, 's) node_state" where
  "on_app wrap f st =
     (case f (nd_app st) of (r, a) \<Rightarrow> map_outcome wrap (outcome_of r, st\<lparr>nd_app := a\<rparr>))"

text \<open>The state of an HTTP client on the node: its own breaker, the shared cache, and the world.\<close>

definition http_part :: "breaker \<Rightarrow> ('n, 'c, 'l, 's) node_state \<Rightarrow> 'l \<times> ('c, 's) http_state" where
  "http_part b st =
     (as_limiter (nd_app st), \<lparr>st_breaker = b, st_cache = st_denylist (as_auth (nd_app st)), st_world = nd_world st\<rparr>)"

definition put_http :: "'l \<times> ('c, 's) http_state \<Rightarrow> ('n, 'c, 'l, 's) node_state \<Rightarrow> ('n, 'c, 'l, 's) node_state" where
  "put_http p st =
     st\<lparr>nd_app := (nd_app st)\<lparr>as_limiter := fst p, as_auth := (as_auth (nd_app st))\<lparr>st_denylist := st_cache (snd p)\<rparr>\<rparr>,
        nd_world := st_world (snd p)\<rparr>"

text \<open>One call on the node; the guards of its route are part of the endpoints.\<close>

definition run_call ::
  "('n, 'c, 'l, 's) node_env \<Rightarrow> ambient \<Rightarrow> http_request \<Rightarrow> string option \<Rightarrow> api_call \<Rightarrow> ('n, 'c, 'l, 's) node_state
   \<Rightarrow> reply outcome \<times> ('n, 'c, 'l, 's) node_state" where
  "run_call env amb request credentials c st =
     (let app = ne_app env in
      case c of
        LiveCall \<Rightarrow> (Returned (HealthReply (live (ne_version env))), st)
      | ReadyCall select_1 \<Rightarrow> map_outcome HealthReply (outcome_of (ready (ne_version env) select_1), st)
      | RegisterCall email password full_name \<Rightarrow> on_app UserReply (register_endpoint app amb request email password full_name) st
      | LoginCall email password \<Rightarrow> on_app TokenReply (login_endpoint app amb request email password) st
      | RefreshCall token \<Rightarrow> on_app TokenReply (refresh_endpoint app amb request token) st
      | MeCall \<Rightarrow> on_app UserReply (me_endpoint app amb request credentials) st
      | VerifyEmailCall token \<Rightarrow> on_app MessageReply (verify_email_endpoint app amb request token) st
      | ResendVerificationCall email \<Rightarrow> on_app MessageReply (resend_verification_endpoint app amb request email) st
      | RequestResetCall email \<Rightarrow> on_app MessageReply (request_password_reset_endpoint app amb request email) st
      | ConfirmResetCall token password \<Rightarrow> on_app MessageReply (confirm_password_reset_endpoint app amb request token password) st
      | LogoutCall token \<Rightarrow> on_app MessageReply (logout_endpoint app amb request credentials token) st
      | FlightsCall started ended q \<Rightarrow>
          on_app FlightReply (search_flights app (ne_flights env) amb started ended request credentials q) st
      | HotelsCall q \<Rightarrow>
          (case search_hotels app (ne_hotels env) amb request q (as_limiter (nd_app st), ()) of
             (r, l, _) \<Rightarrow> map_outcome HotelReply (r, st\<lparr>nd_app := (nd_app st)\<lparr>as_limiter := l\<rparr>\<rparr>))
      | WeatherCall latitude longitude d \<Rightarrow>
          (case get_weather app (ne_http env) (ne_weather env) amb request latitude longitude d (http_part (nd_weather st) st) of
             (r, p) \<Rightarrow> map_outcome WeatherReply (r, (put_http p st)\<lparr>nd_weather := st_breaker (snd p)\<rparr>))
      | CurrencyCall base quote amt \<Rightarrow>
          (case convert_currency app (ne_http env) (ne_currency env) amb request base quote amt (http_part (nd_currency st) st) of
             (r, p) \<Rightarrow> map_outcome CurrencyReply (r, (put_http p st)\<lparr>nd_currency := st_breaker (snd p)\<rparr>))
      | CreateAlertCall orig dest dep target cur chan \<Rightarrow>
          on_app AlertReply (create_alert_endpoint app amb request credentials (validate_alert orig dest dep target cur chan)) st
      | ListAlertsCall \<Rightarrow> on_app AlertsReply (list_alerts_endpoint app amb request credentials) st
      | DeleteAlertCall alert_id \<Rightarrow> on_app NoContent (delete_alert_endpoint app amb request credentials alert_id) st
      | AdminMetricsCall \<Rightarrow>
          on_app MetricsReply (\<lambda>a. case metrics_endpoint (app_auth app) amb credentials (as_auth a) of (r, s) \<Rightarrow> (r, a\<lparr>as_auth := s\<rparr>)) st)"


section \<open>The guards of the routes\<close>

fun endpoint_access :: "endpoint_id \<Rightarrow> access" where
  "endpoint_access E_me = CurrentUser"
| "endpoint_access E_logout = AccessPayload"
| "endpoint_access E_search_flights = OptionalUser"
| "endpoint_access E_create_alert = CurrentUser"
| "endpoint_access E_list_alerts = CurrentUser"
| "endpoint_access E_delete_alert = CurrentUser"
| "endpoint_access E_admin_metrics = AdminUser"
| "endpoint_access _ = Anyone"

lemma route_guards:
  assumes "r \<in> set (app_routes settings)"
  shows "rt_limited r \<longleftrightarrow> rt_endpoint r \<notin> {E_live, E_ready, E_admin_metrics, E_metrics_endpoint, E_root}"
    and "rt_access r = endpoint_access (rt_endpoint r)"
  using assms by (auto simp: app_routes_eq router_defs)

text \<open>What the rate limiter says to a request on a node.\<close>

definition limiter_answer ::
  "('n, 'c, 'l, 's) node_env \<Rightarrow> ambient \<Rightarrow> http_request \<Rightarrow> ('n, 'c, 'l, 's) node_state \<Rightarrow> int result \<times> 'l" where
  "limiter_answer env amb request st =
     enforce_rate_limit (app_check (ne_app env)) (app_limit_of (ne_app env)) (app_proxy_trust (ne_app env)) (tick amb) request
       (as_limiter (nd_app st))"

definition set_limiter :: "'l \<Rightarrow> ('n, 'c, 'l, 's) node_state \<Rightarrow> ('n, 'c, 'l, 's) node_state" where
  "set_limiter l st = st\<lparr>nd_app := (nd_app st)\<lparr>as_limiter := l\<rparr>\<rparr>"

lemma on_app_endpoint:
  assumes "limiter_answer env amb request st = (ans, l)"
  shows "on_app wrap (endpoint (ne_app env) amb request h) st =
    (case ans of
       Inl e \<Rightarrow> (Raised e, set_limiter l st)
     | Inr n \<Rightarrow> (case in_session h (as_auth (nd_app st)) of (r, a) \<Rightarrow>
         map_outcome wrap (outcome_of r, st\<lparr>nd_app := (nd_app st)\<lparr>as_limiter := l, as_auth := a\<rparr>\<rparr>)))"
  using assms
  by (auto simp: on_app_def endpoint_def limiter_answer_def set_limiter_def map_outcome_def outcome_of_def split: sum.splits prod.splits)

lemma limited_answer:
  assumes "limiter_answer env amb request st = (ans, l)"
  shows "limited (ne_app env) amb request h (as_limiter (nd_app st), s) =
    (case ans of Inl e \<Rightarrow> (Raised e, l, s) | Inr n \<Rightarrow> (case h s of (r, s') \<Rightarrow> (r, l, s')))"
  using assms by (simp add: limited_def limiter_answer_def split: sum.split)

lemma put_http_same: "put_http (l, \<lparr>st_breaker = b, st_cache = st_denylist (as_auth (nd_app st)), st_world = nd_world st\<rparr>) st = set_limiter l st"
  by (simp add: put_http_def set_limiter_def)

lemma limiter_put_http [simp]: "as_limiter (nd_app (put_http p st)) = fst p"
  by (simp add: put_http_def)

lemmas call_defs = run_call_def register_endpoint_def login_endpoint_def refresh_endpoint_def me_endpoint_def
  verify_email_endpoint_def resend_verification_endpoint_def request_password_reset_endpoint_def
  confirm_password_reset_endpoint_def logout_endpoint_def search_flights_def create_alert_endpoint_def
  list_alerts_endpoint_def delete_alert_endpoint_def search_hotels_def get_weather_def convert_currency_def
  http_part_def

lemma run_call_limited:
  assumes "limiter_answer env amb request st = (ans, l)" "run_call env amb request credentials c st = (out, st')"
    and "call_endpoint c \<notin> {E_live, E_ready, E_admin_metrics}"
  shows "case ans of Inl e \<Rightarrow> out = Raised e \<and> st' = set_limiter l st | Inr n \<Rightarrow> as_limiter (nd_app st') = l"
  using assms(2,3)
  by (cases c; cases ans)
     (auto simp: call_defs on_app_endpoint [OF assms(1)] limited_answer [OF assms(1)] put_http_same set_limiter_def map_outcome_def Let_def
       split: prod.splits)

lemma run_call_unlimited:
  assumes "run_call env amb request credentials c st = (out, st')" "call_endpoint c \<in> {E_live, E_ready, E_admin_metrics}"
  shows "as_limiter (nd_app st') = as_limiter (nd_app st)"
  using assms by (cases c) (auto simp: run_call_def on_app_def map_outcome_def Let_def split: prod.splits)

text \<open>A handler that starts with a guard returns only when the guard does, and does nothing else when the guard raises.\<close>

lemma in_session_guard:
  assumes "in_session (bind_state g f) s = (r, s')"
  shows "r = Inr v \<Longrightarrow> \<exists>u s1. g s = (Inr u, s1) \<and> f u s1 = (Inr v, s')"
    and "g s = (Inl e, s) \<Longrightarrow> r = Inl e \<and> s' = s"
  using assms by (auto simp: in_session_def bind_state_def split: prod.splits sum.splits)

lemma no_credentials:
  "get_access_payload aenv amb None s = (Inl (app_error AuthenticationError ''missing bearer token''), s)"
  "get_current_user aenv amb None s = (Inl (app_error AuthenticationError ''missing bearer token''), s)"
  by (simp_all add: get_access_payload_def get_current_user_def raise_state_def bind_state_def)

lemma get_current_user_payload:
  "get_current_user aenv amb cred s = (Inr u, s') \<Longrightarrow> \<exists>p. fst (get_access_payload aenv amb cred s) = Inr p"
  by (auto simp: get_current_user_def bind_state_def split: prod.splits sum.splits)

text \<open>The first guard of a protected handler: the payload, or the payload and the account.\<close>

definition guard_passed ::
  "('n, 'c, 'l, 's) node_env \<Rightarrow> ambient \<Rightarrow> string option \<Rightarrow> access \<Rightarrow> ('n, 'c, 'l, 's) node_state \<Rightarrow> bool" where
  "guard_passed env amb credentials a st =
     (let s = as_auth (nd_app st); aenv = app_auth (ne_app env)
      in case a of
           AccessPayload \<Rightarrow> \<not> isl (fst (get_access_payload aenv amb credentials s))
         | CurrentUser \<Rightarrow> \<not> isl (fst (get_current_user aenv amb credentials s))
         | AdminUser \<Rightarrow> (case fst (get_current_user aenv amb credentials s) of Inl e \<Rightarrow> False | Inr u \<Rightarrow> u_role u = ADMIN)
         | _ \<Rightarrow> True)"

lemma on_app_returned: "on_app wrap f st = (Returned v, st') \<Longrightarrow> \<exists>x a. f (nd_app st) = (Inr x, a)"
  by (auto simp: on_app_def map_outcome_def outcome_of_def split: prod.splits sum.splits)

lemma endpoint_returned: "endpoint env amb request h st = (Inr v, st') \<Longrightarrow> \<exists>a. in_session h (as_auth st) = (Inr v, a)"
  by (auto simp: endpoint_def split: prod.splits sum.splits)

lemma metrics_guarded:
  assumes "metrics_endpoint aenv amb credentials s = (r, s')"
  shows "r = Inr v \<Longrightarrow> \<exists>u. fst (get_current_user aenv amb credentials s) = Inr u \<and> u_role u = ADMIN"
    and "fst (get_current_user aenv amb credentials s) = Inr u \<Longrightarrow> u_role u \<noteq> ADMIN
      \<Longrightarrow> r = Inl (app_error PermissionDeniedError ''admin privileges required'')"
  using assms
  by (auto simp: metrics_endpoint_def in_session_def bind_state_def lift_result_def require_admin_def split: prod.splits sum.splits if_splits)

lemmas guarded_defs = me_endpoint_def logout_endpoint_def create_alert_endpoint_def list_alerts_endpoint_def delete_alert_endpoint_def

lemma run_call_guarded:
  assumes "run_call env amb request credentials c st = (Returned v, st')"
  shows "guard_passed env amb credentials (endpoint_access (call_endpoint c)) st"
proof (cases "c = AdminMetricsCall")
  case True
  then show ?thesis
    using assms by (auto simp: run_call_def guard_passed_def Let_def split: prod.splits dest!: on_app_returned metrics_guarded(1) [OF _ refl])
next
  case False
  with assms show ?thesis
    by (cases c) (auto simp: run_call_def guarded_defs guard_passed_def Let_def
        dest!: on_app_returned endpoint_returned in_session_guard(1) [OF _ refl])
qed

lemma run_call_no_credentials:
  assumes "limiter_answer env amb request st = (ans, l)" "run_call env amb request None c st = (out, st')"
    and "endpoint_access (call_endpoint c) \<in> {AccessPayload, CurrentUser, AdminUser}"
    and "call_endpoint c \<noteq> E_admin_metrics \<Longrightarrow> \<not> isl ans"
  shows "out = Raised (app_error AuthenticationError ''missing bearer token'')
    \<and> st' = (if call_endpoint c = E_admin_metrics then st else set_limiter l st)"
proof (cases "c = AdminMetricsCall")
  case True
  have m: "metrics_endpoint aenv amb None s = (Inl (app_error AuthenticationError ''missing bearer token''), s)" for aenv s
    by (simp add: metrics_endpoint_def in_session_def bind_state_def no_credentials)
  show ?thesis
    using True assms(2) by (simp add: run_call_def on_app_def map_outcome_def outcome_of_def Let_def m)
next
  case False
  with assms(3,4) obtain n where n: "ans = Inr n" by (cases c; cases ans) auto
  have refused: "in_session (bind_state (get_access_payload aenv amb None) f) s = (Inl (app_error AuthenticationError ''missing bearer token''), s)"
    "in_session (bind_state (get_current_user aenv amb None) f') s = (Inl (app_error AuthenticationError ''missing bearer token''), s)"
    for aenv f f' s by (simp_all add: in_session_def bind_state_def no_credentials)
  show ?thesis
    using False n assms(2,3)
    by (cases c) (auto simp: run_call_def guarded_defs on_app_endpoint [OF assms(1)] refused map_outcome_def outcome_of_def
        set_limiter_def Let_def)
qed


text \<open>An example node, whose HTTP clients talk to a server that answers with the given status codes.\<close>

definition example_node :: "(mail list, memory_cache, limiter, script_world) node_env" where
  "example_node = \<lparr>ne_app = example_app, ne_version = ''1.1.0'', ne_flights = example_providers, ne_hotels = [],
     ne_weather = make_weather_provider script_client ''http://weather'' 300,
     ne_currency = make_currency_provider script_client ''http://currency'' 300, ne_http = script_env\<rparr>"

definition example_node_state :: "int list \<Rightarrow> (mail list, memory_cache, limiter, script_world) node_state" where
  "example_node_state codes = \<lparr>nd_app = example_app_state, nd_weather = CircuitBreaker ''x'' 5 30,
     nd_currency = CircuitBreaker ''x'' 5 30, nd_world = st_world (script_state codes)\<rparr>"

definition example_caller :: http_request where
  "example_caller = \<lparr>req_client = Some ''8.8.8.8'', req_headers = []\<rparr>"


end
