(* ===== verification/Op_Logic.thy ===== *)
theory Op_Logic
  imports Node
begin

text \<open>
  A logic for what every operation of the authentication service and every endpoint keeps: \<open>stable Q op R\<close> says that the
  operation keeps the property \<open>Q\<close> of the state and that what it returns satisfies \<open>R\<close>.  It is used for the token denylist
  (\<open>Sessions\<close>) and for the stored rows (\<open>Stored_Rows\<close>).
\<close>

abbreviation node_db :: "('n, 'c, 'l, 's) node_state \<Rightarrow> database" where
  "node_db st \<equiv> st_db (as_auth (nd_app st))"


section \<open>Operations\<close>

definition stable :: "(('n, 'c) auth_state \<Rightarrow> bool) \<Rightarrow> ('n, 'c, 'a) auth_op \<Rightarrow> ('a \<Rightarrow> bool) \<Rightarrow> bool" where
  "stable Q op R \<longleftrightarrow> (\<forall>st r st'. Q st \<longrightarrow> op st = (r, st') \<longrightarrow> Q st' \<and> (\<forall>v. r = Inr v \<longrightarrow> R v))"

abbreviation stays :: "(('n, 'c) auth_state \<Rightarrow> bool) \<Rightarrow> ('n, 'c, 'a) auth_op \<Rightarrow> bool" where
  "stays Q op \<equiv> stable Q op (\<lambda>v. True)"

named_theorems stable_rules \<open>rules for operations that keep a property of the state\<close>

lemma stable_bind:
  assumes "stable Q m R" "\<And>v. R v \<Longrightarrow> stable Q (f v) S" shows "stable Q (bind_state m f) S"
proof (unfold stable_def, intro allI impI)
  fix st r st' assume st: "Q st" "bind_state m f st = (r, st')"
  obtain x s where m: "m st = (x, s)" by fastforce
  note first = assms(1) [unfolded stable_def, rule_format, OF st(1) m]
  show "Q st' \<and> (\<forall>v. r = Inr v \<longrightarrow> S v)"
  proof (cases x)
    case (Inr v)
    then have "f v s = (r, st')" using st(2) m by (simp add: bind_state_def)
    with first Inr assms(2) [of v] show ?thesis unfolding stable_def by blast
  qed (use st(2) m first in \<open>auto simp: bind_state_def\<close>)
qed

lemma stable_weaken: "stable Q op R \<Longrightarrow> (\<And>v. R v \<Longrightarrow> S v) \<Longrightarrow> stable Q op S"
  unfolding stable_def by blast

lemma stable_stays: "stable Q op R \<Longrightarrow> stays Q op"
  by (erule stable_weaken) simp

lemma stays_bind [stable_rules]: "stays Q m \<Longrightarrow> (\<And>v. stays Q (f v)) \<Longrightarrow> stays Q (bind_state m f)"
  by (rule stable_bind)

lemma stays_pure [stable_rules]:
  "stays Q (return_state v)" "stays Q (raise_state e)" "stays Q (lift_result r)" "stays Q (read_db f)"
  by (auto simp: stable_def return_state_def raise_state_def lift_result_def read_db_def)

lemma stable_lift: "(\<And>v. r = Inr v \<Longrightarrow> R v) \<Longrightarrow> stable Q (lift_result r) R"
  by (simp add: stable_def lift_result_def)

lemma stable_read: "(\<And>st v. Q st \<Longrightarrow> f (st_db st) = Inr v \<Longrightarrow> R v) \<Longrightarrow> stable Q (read_db f) R"
  by (auto simp: stable_def read_db_def)

lemma stays_if [stable_rules]: "(b \<Longrightarrow> stays Q x) \<Longrightarrow> (\<not> b \<Longrightarrow> stays Q y) \<Longrightarrow> stays Q (if b then x else y)"
  by simp

lemma stays_option [stable_rules]:
  "stays Q x \<Longrightarrow> (\<And>v. o' = Some v \<Longrightarrow> stays Q (y v)) \<Longrightarrow> stays Q (case o' of None \<Rightarrow> x | Some v \<Rightarrow> y v)"
  by (cases o') simp_all

lemma stays_sum [stable_rules]:
  "(\<And>e. stays Q (x e)) \<Longrightarrow> (\<And>v. s = Inr v \<Longrightarrow> stays Q (y v)) \<Longrightarrow> stays Q (case s of Inl e \<Rightarrow> x e | Inr v \<Rightarrow> y v)"
  by (cases s) simp_all

text \<open>A property that a rolled back request keeps.\<close>

definition survives_rollback :: "(('n, 'c) auth_state \<Rightarrow> bool) \<Rightarrow> bool" where
  "survives_rollback Q \<longleftrightarrow> (\<forall>st st'. Q st \<longrightarrow> Q st' \<longrightarrow> Q (st'\<lparr>st_db := st_db st\<rparr>))"

lemma in_session_stays:
  assumes "survives_rollback Q" "stays Q op" "Q st" shows "Q (snd (in_session op st))"
proof -
  obtain r st' where "op st = (r, st')" by fastforce
  with assms show ?thesis by (cases r) (auto simp: in_session_def stable_def survives_rollback_def)
qed

lemma endpoint_stays:
  assumes "survives_rollback Q" "stays Q h" "Q (as_auth st)" "endpoint env amb request h st = (r, st')"
  shows "Q (as_auth st')"
  using assms(4) in_session_stays [OF assms(1-3)] assms(3) by (auto simp: endpoint_def split: prod.splits sum.splits)

lemma on_app_run: "on_app wrap f st = (out, st') \<Longrightarrow> \<exists>r. f (nd_app st) = (r, nd_app st')"
  by (auto simp: on_app_def map_outcome_def split: prod.splits)

lemma on_app_stays:
  assumes "survives_rollback Q" "stays Q h" "Q (as_auth (nd_app st))" "on_app wrap (endpoint env amb request h) st = (out, st')"
  shows "Q (as_auth (nd_app st'))"
  using on_app_run [OF assms(4)] endpoint_stays [OF assms(1-3)] by blast


section \<open>Endpoints that only read\<close>

lemma metrics_quiet: "st_db (snd (metrics_endpoint aenv amb credentials s)) = st_db s"
  using get_current_user_quiet [of aenv amb credentials s]
  by (auto simp: metrics_endpoint_def in_session_def bind_state_def lift_result_def read_db_def split: prod.splits sum.splits)

lemma put_http_db [simp]: "st_db (as_auth (nd_app (put_http p st))) = st_db (as_auth (nd_app st))"
  by (simp add: put_http_def)

end
