(* ===== verification/Sessions.thy ===== *)
theory Sessions
  imports Op_Logic
begin

text \<open>
  The end of a session on the whole node: after a logout no sequence of calls, whatever they do to the cache that the
  denylist shares with the HTTP clients, brings the tokens back.
\<close>

section \<open>Properties of the cache\<close>

text \<open>\<open>in_cache Q\<close>: the property \<open>Q\<close> of the cache that holds the denylist.\<close>

definition in_cache :: "('c \<Rightarrow> bool) \<Rightarrow> ('n, 'c) auth_state \<Rightarrow> bool" where
  "in_cache Q st = Q (st_denylist st)"

lemma in_cache_rollback: "survives_rollback (in_cache Q)"
  by (simp add: survives_rollback_def in_cache_def)

lemma stays_quiet: "(\<And>st. st_denylist (snd (op st)) = st_denylist st) \<Longrightarrow> stays (in_cache Q) op"
  unfolding stable_def in_cache_def by (metis snd_conv)

lemma stays_database [stable_rules]:
  "stays (in_cache Q) (on_db g)" "stays (in_cache Q) (write_user h)" "stays (in_cache Q) (send_mail env t s b)"
  "stays (in_cache Q) (add_audit amb actor action ip)" "stays (in_cache Q) (add_history row)"
  by (auto simp: stable_def in_cache_def on_db_def write_user_def send_mail_def add_audit_def add_history_def split: prod.splits)


section \<open>One call\<close>

text \<open>
  What a call at the moment \<open>amb\<close> may do to the denylist without losing \<open>Q\<close>: look tokens up, and revoke any token
  that decodes.
\<close>

definition harmless :: "('n, 'c) auth_env \<Rightarrow> ambient \<Rightarrow> ('c \<Rightarrow> bool) \<Rightarrow> bool" where
  "harmless aenv amb Q \<longleftrightarrow>
     (\<forall>q c. Q c \<longrightarrow> Q (snd (is_revoked (ae_cache aenv) (tick amb) q c)))
     \<and> (\<forall>token ty q c. decode_token (ae_jwt aenv) (utc_timestamp (now_us amb)) token ty (ae_settings aenv) = Inr q \<longrightarrow>
          Q c \<longrightarrow> Q (revoke (ae_cache aenv) (wall amb) (tick amb) q c))"

lemma decode_Inr: "decode aenv amb token ty = Inr q \<longleftrightarrow>
    decode_token (ae_jwt aenv) (utc_timestamp (now_us amb)) token ty (ae_settings aenv) = Inr q"
  by (auto simp: decode_def split: sum.split exn.split)

lemma denylisted_stays: "harmless aenv amb Q \<Longrightarrow> stays (in_cache Q) (denylisted aenv amb q)"
  unfolding stable_def denylisted_def harmless_def in_cache_def by (auto split: prod.splits) (metis snd_conv)

lemma deny_stays:
  "harmless aenv amb Q \<Longrightarrow> decode_token (ae_jwt aenv) (utc_timestamp (now_us amb)) token ty (ae_settings aenv) = Inr q
   \<Longrightarrow> stays (in_cache Q) (deny aenv amb q)"
  by (auto simp: stable_def deny_def harmless_def in_cache_def)

lemma access_payload_stable:
  assumes "harmless aenv amb Q"
  shows "stable (in_cache Q) (get_access_payload aenv amb cred)
    (\<lambda>q. \<exists>token. decode_token (ae_jwt aenv) (utc_timestamp (now_us amb)) token Access (ae_settings aenv) = Inr q)"
proof -
  have "stays (in_cache Q) (get_access_payload aenv amb cred)"
    unfolding get_access_payload_def
    by (cases cred) (auto intro!: stable_rules denylisted_stays [OF assms])
  then show ?thesis
    using get_access_payload_Inr decode_Inr unfolding stable_def by metis
qed

lemma current_user_stays: "harmless aenv amb Q \<Longrightarrow> stays (in_cache Q) (get_current_user aenv amb cred)"
  unfolding get_current_user_def
  by (rule stable_bind [OF access_payload_stable]) (auto intro!: stable_rules)

lemma optional_user_stays: "stays (in_cache Q) (get_optional_user aenv amb cred)"
  by (rule stays_quiet) (simp add: get_optional_user_quiet)

lemma send_verification_stays: "stays (in_cache Q) (send_verification aenv amb u)"
  unfolding send_verification_def by (intro stable_rules)

lemma register_stays: "stays (in_cache Q) (register aenv amb email password name)"
proof -
  have "stays (in_cache Q) (bind_state (on_db g) (\<lambda>user. bind_state (send_verification aenv amb user) (\<lambda>_. return_state user)))" for g
    by (intro stable_rules send_verification_stays)
  then show ?thesis by (auto simp: stable_def register_def)
qed

lemma logout_stays:
  assumes "harmless aenv amb Q" "decode_token (ae_jwt aenv) (utc_timestamp (now_us amb)) token Access (ae_settings aenv) = Inr q"
  shows "stays (in_cache Q) (logout aenv amb q rt)"
proof -
  have "stays (in_cache Q) (case decode_token (ae_jwt aenv) (utc_timestamp (now_us amb)) t Refresh (ae_settings aenv) of
             Inr p \<Rightarrow> deny aenv amb p
           | Inl (TokenError m) \<Rightarrow> return_state ()
           | Inl e \<Rightarrow> raise_state e)" for t
    by (auto split: sum.split exn.split intro!: stable_rules deny_stays [OF assms(1)])
  then show ?thesis
    unfolding logout_def by (intro stays_bind deny_stays [OF assms] stays_option stays_if stays_pure)
qed

lemmas service_stays = register_stays current_user_stays optional_user_stays send_verification_stays denylisted_stays

lemma service_ops_stay:
  assumes "harmless aenv amb Q"
  shows "stays (in_cache Q) (authenticate aenv amb email password)" "stays (in_cache Q) (refresh aenv amb token)"
    "stays (in_cache Q) (verify_email aenv amb token)" "stays (in_cache Q) (resend_verification aenv amb email)"
    "stays (in_cache Q) (request_password_reset aenv amb email)" "stays (in_cache Q) (reset_password aenv amb token password)"
  unfolding authenticate_def refresh_def verify_email_def resend_verification_def request_password_reset_def reset_password_def
  by (intro stable_rules service_stays assms)+

text \<open>A call of one of the two HTTP clients from the world of the node.\<close>

definition client_call :: "('n, 'c, 'l, 's) node_env \<Rightarrow> ('c, 's) http_state \<Rightarrow> ('c, 's) http_state \<Rightarrow> bool" where
  "client_call env s s' \<longleftrightarrow>
     (\<exists>hc url params ttl r. hc \<in> {wp_http (ne_weather env), cp_http (ne_currency env)} \<and> get_json (ne_http env) hc url params ttl s = (r, s'))"

lemma client_callI:
  "get_json (ne_http env) (wp_http (ne_weather env)) url params ttl s = (r, s') \<Longrightarrow> client_call env s s'"
  "get_json (ne_http env) (cp_http (ne_currency env)) url params ttl s = (r, s') \<Longrightarrow> client_call env s s'"
  unfolding client_call_def by blast+

lemma limited_state:
  "limited env amb request h (l, s) = (r, l', s') \<Longrightarrow> s' = s \<or> s' = snd (h s)"
  by (auto simp: limited_def split: prod.splits sum.splits)

lemma get_weather_client:
  "get_weather app (ne_http env) (ne_weather env) amb request la lo d (l, s) = (r, l', s') \<Longrightarrow> s' = s \<or> client_call env s s'"
  unfolding get_weather_def
  by (drule limited_state)
     (auto simp: map_outcome_def forecast_def fetch_then_def Let_def split: sum.splits prod.splits intro: client_callI)

lemma convert_currency_client:
  "convert_currency app (ne_http env) (ne_currency env) amb request b q x (l, s) = (r, l', s') \<Longrightarrow> s' = s \<or> client_call env s s'"
  unfolding convert_currency_def
  by (drule limited_state)
     (auto simp: map_outcome_def convert_def fetch_then_def Let_def split: sum.splits prod.splits intro: client_callI)

lemma denylist_put_http [simp]: "st_denylist (as_auth (nd_app (put_http p st))) = st_cache (snd p)"
  by (simp add: put_http_def)

lemma metrics_stays: "harmless aenv amb Q \<Longrightarrow> in_cache Q s \<Longrightarrow> in_cache Q (snd (metrics_endpoint aenv amb cred s))"
  unfolding metrics_endpoint_def
  by (rule in_session_stays [OF in_cache_rollback]) (intro stable_rules current_user_stays)

lemmas call_stays = on_app_stays [where Q = "in_cache Q" for Q, OF in_cache_rollback, rotated 2]

lemma run_call_stays:
  assumes h: "harmless (app_auth (ne_app env)) amb Q"
    and http: "\<And>s s'. client_call env s s' \<Longrightarrow> st_world s = nd_world st \<Longrightarrow> Q (st_cache s) \<Longrightarrow> Q (st_cache s')"
    and run: "run_call env amb request cred c st = (out, st')" and Q: "in_cache Q (as_auth (nd_app st))"
  shows "in_cache Q (as_auth (nd_app st'))"
proof (cases c)
  case AdminMetricsCall
  then show ?thesis
    using run metrics_stays [OF h Q, of cred]
    by (auto simp: run_call_def on_app_def map_outcome_def Let_def split: prod.splits)
next
  case (LogoutCall rt)
  have "stays (in_cache Q) (bind_state (get_access_payload (app_auth (ne_app env)) amb cred) (\<lambda>p.
      bind_state (logout (app_auth (ne_app env)) amb p rt) (\<lambda>_. bind_state (lift_result (subject_uuid p)) (\<lambda>i.
      bind_state (add_audit amb (Some i) ''user.logout'' (auth_client_ip (ne_app env) request)) (\<lambda>_. return_state \<lparr>mr_message = ''logged out''\<rparr>)))))"
    by (rule stable_bind [OF access_payload_stable [OF h]]) (auto intro!: stable_rules logout_stays [OF h])
  then show ?thesis
    using run Q by (auto simp: LogoutCall run_call_def logout_endpoint_def Let_def elim!: call_stays)
next
  case (WeatherCall la lo d)
  then show ?thesis
    using run Q http
    by (auto simp: run_call_def http_part_def map_outcome_def in_cache_def Let_def split: prod.splits dest!: get_weather_client)
next
  case (CurrencyCall b q x)
  then show ?thesis
    using run Q http
    by (auto simp: run_call_def http_part_def map_outcome_def in_cache_def Let_def split: prod.splits dest!: convert_currency_client)
next
  case (FlightsCall t0 t1 q)
  have "stays (in_cache Q) (search_flights_handler (ne_flights env) amb t0 t1 q user)" for user
    unfolding search_flights_handler_def by (intro stable_rules)
  then show ?thesis
    using run Q by (auto simp: FlightsCall run_call_def search_flights_def Let_def intro!: stable_rules optional_user_stays elim!: call_stays)
qed (use run Q in \<open>auto simp: run_call_def Let_def map_outcome_def endpoint_defs register_endpoint_def split: prod.splits
       intro!: stable_rules service_stays service_ops_stay h elim!: call_stays\<close>)


section \<open>Many calls\<close>

text \<open>
  A node whose collaborators all use the in-process cache, and a token whose id no other token carries.
\<close>

definition one_cache :: "('n, memory_cache, 'l, 's) node_env \<Rightarrow> bool" where
  "one_cache env \<longleftrightarrow> ae_cache (app_auth (ne_app env)) = memory_cache_ops
     \<and> hc_cache (wp_http (ne_weather env)) = Some memory_cache_ops \<and> hc_cache (cp_http (ne_currency env)) = Some memory_cache_ops"

definition unique_id :: "('n, 'c) auth_env \<Rightarrow> payload \<Rightarrow> bool" where
  "unique_id aenv p \<longleftrightarrow> (\<forall>t token ty q. decode_token (ae_jwt aenv) t token ty (ae_settings aenv) = Inr q \<longrightarrow>
     map_option claim_str (jti_of q) = map_option claim_str (jti_of p) \<longrightarrow> q = p)"

text \<open>The clocks from a moment to a later one, for a token with expiry \<open>e\<close>.\<close>

definition earlier :: "ambient \<Rightarrow> ambient \<Rightarrow> int \<Rightarrow> bool" where
  "earlier amb later e \<longleftrightarrow> clocks_advance (wall amb) (tick amb) (wall later) (tick later) \<and> 0 \<le> wall amb
     \<and> covers_expiry (wall amb) (tick amb) e"

text \<open>
  What may happen on the node before the moment \<open>later\<close>: any call, and any change of the database by another
  process.
\<close>

inductive before ::
  "('n, memory_cache, 'l, 's) node_env \<Rightarrow> ambient \<Rightarrow> int set \<Rightarrow> ('n, memory_cache, 'l, 's) node_state
   \<Rightarrow> ('n, memory_cache, 'l, 's) node_state \<Rightarrow> bool" for env later es where
  Call: "run_call env amb request cred c st = (out, st') \<Longrightarrow> \<forall>e \<in> es. earlier amb later e \<Longrightarrow>
    env_monotonic (ne_http env) (nd_world st) \<le> tick later \<Longrightarrow> before env later es st st'"
| Elsewhere: "before env later es st (st\<lparr>nd_app := (nd_app st)\<lparr>as_auth := (as_auth (nd_app st))\<lparr>st_db := db\<rparr>\<rparr>\<rparr>)"

abbreviation node_cache :: "('n, 'c, 'l, 's) node_state \<Rightarrow> 'c" where
  "node_cache st \<equiv> st_denylist (as_auth (nd_app st))"

lemma client_call_view:
  assumes "one_cache env" "client_call env s s'" "env_monotonic (ne_http env) (st_world s) \<le> t"
  shows "cache_view (st_cache s') t (revoked_key j) = cache_view (st_cache s) t (revoked_key j)"
proof -
  obtain hc url params ttl r where g: "hc \<in> {wp_http (ne_weather env), cp_http (ne_currency env)}"
      "get_json (ne_http env) hc url params ttl s = (r, s')"
    using assms(2) unfolding client_call_def by blast
  have "hc_cache hc = Some memory_cache_ops" using g(1) assms(1) by (auto simp: one_cache_def)
  then show ?thesis
    using g(2) assms(3) unfolding memory_cache_ops_def
    by (intro mem.view_get_json_other) (auto dest: cache_key_not_revoked)
qed

lemma before_denied:
  assumes "before env later es st st'" "one_cache env" "unique_id (app_auth (ne_app env)) p" "e \<in> es"
    and p: "jti_of p = Some j" "dict_get p ''exp'' = Some (JInt e)" "wall later < of_int e"
    and "cache_view (node_cache st) (tick later) (revoked_key j) \<noteq> None"
  shows "cache_view (node_cache st') (tick later) (revoked_key j) \<noteq> None"
  using assms(1,8)
proof cases
  case (Call amb request cred c out)
  let ?Q = "\<lambda>c. cache_view c (tick later) (revoked_key j) \<noteq> None" and ?aenv = "app_auth (ne_app env)"
  have e: "earlier amb later e" using Call(2) assms(4) by blast
  have cache: "ae_cache ?aenv = memory_cache_ops" using assms(2) by (simp add: one_cache_def)
  have "harmless ?aenv amb ?Q"
    unfolding harmless_def cache
  proof (intro conjI allI impI)
    fix q c assume "?Q c"
    then show "?Q (snd (is_revoked memory_cache_ops (tick amb) q c))"
      using denylist_step_view [OF p, of "tick later" "LookUp (tick amb) q" c] e by (simp add: earlier_def clocks_advance_def)
  next
    fix token ty q c
    assume q: "decode_token (ae_jwt ?aenv) (utc_timestamp (now_us amb)) token ty (ae_settings ?aenv) = Inr q" and "?Q c"
    have "op_before p e (wall later) (tick later) (RevokeToken (wall amb) (tick amb) q)"
      using assms(3) q e unfolding unique_id_def earlier_def by auto
    then show "?Q (revoke memory_cache_ops (wall amb) (tick amb) q c)"
      using denylist_step_view [OF p _ \<open>?Q c\<close>] by fastforce
  qed
  then show ?thesis
    using run_call_stays [of env amb ?Q st request cred c out st'] Call(1,3) assms(8) client_call_view [OF assms(2)]
    unfolding in_cache_def by metis
qed simp

lemma before_all_denied:
  assumes "(before env later es)\<^sup>*\<^sup>* st st'" "one_cache env" "unique_id (app_auth (ne_app env)) p" "e \<in> es"
    and "jti_of p = Some j" "dict_get p ''exp'' = Some (JInt e)" "wall later < of_int e"
    and "cache_view (node_cache st) (tick later) (revoked_key j) \<noteq> None"
  shows "cache_view (node_cache st') (tick later) (revoked_key j) \<noteq> None"
  using assms(1,8)
proof (induction rule: rtranclp_induct)
  case (step y z)
  from before_denied [OF step.hyps(2) assms(2-7) step.IH [OF step.prems]] show ?case .
qed simp

lemma endpoint_run: "endpoint env amb request h st = (Inr v, st') \<Longrightarrow> in_session h (as_auth st) = (Inr v, as_auth st')"
  by (auto simp: endpoint_def split: prod.splits sum.splits)

text \<open>A logout that is answered puts both tokens on the denylist.\<close>

lemma logout_call_denies:
  assumes "run_call env amb request (Some act) (LogoutCall (Some rt)) st = (Returned v, st1)" "one_cache env" "rt \<noteq> []"
    and "decode_token (ae_jwt (app_auth (ne_app env))) (utc_timestamp (now_us amb)) act Access (ae_settings (app_auth (ne_app env))) = Inr p"
    and "decode_token (ae_jwt (app_auth (ne_app env))) (utc_timestamp (now_us amb)) rt Refresh (ae_settings (app_auth (ne_app env))) = Inr q"
  shows "\<exists>c. node_cache st1 = revoke memory_cache_ops (wall amb) (tick amb) q (revoke memory_cache_ops (wall amb) (tick amb) p c)"
proof -
  let ?aenv = "app_auth (ne_app env)"
  have cache: "ae_cache ?aenv = memory_cache_ops" using assms(2) by (simp add: one_cache_def)
  obtain x where "logout_endpoint (ne_app env) amb request (Some act) (Some rt) (nd_app st) = (Inr x, nd_app st1)"
    using assms(1) by (auto simp: run_call_def on_app_def map_outcome_def outcome_of_def Let_def split: prod.splits sum.splits)
  then obtain p' s where g: "get_access_payload ?aenv amb (Some act) (as_auth (nd_app st)) = (Inr p', s)"
    and rest: "bind_state (logout ?aenv amb p' (Some rt)) (\<lambda>_. bind_state (lift_result (subject_uuid p')) (\<lambda>i.
       bind_state (add_audit amb (Some i) ''user.logout'' (auth_client_ip (ne_app env) request))
         (\<lambda>_. return_state \<lparr>mr_message = ''logged out''\<rparr>))) s = (Inr x, as_auth (nd_app st1))"
    unfolding logout_endpoint_def by (blast dest!: endpoint_run in_session_guard(1) [OF _ refl])
  have "p' = p" using get_access_payload_Inr [OF g] assms(4) decode_Inr by force
  have "st_denylist s' = st_denylist (snd (logout ?aenv amb p' (Some rt) s))"
    if "bind_state (logout ?aenv amb p' (Some rt)) (\<lambda>_. bind_state (lift_result (subject_uuid p')) (\<lambda>i.
       bind_state (add_audit amb (Some i) ''user.logout'' (auth_client_ip (ne_app env) request))
         (\<lambda>_. return_state \<lparr>mr_message = ''logged out''\<rparr>))) s = (Inr x, s')" for s'
    using that by (auto simp: bind_state_def lift_result_def add_audit_def return_state_def split: sum.splits prod.splits)
  from this [OF rest] show ?thesis using logout_denylist [OF cache assms(3,5), of p' s] \<open>p' = p\<close> by auto
qed

text \<open>No protected endpoint returns to a token that is on the denylist.\<close>

lemma denied_call_fails:
  assumes "one_cache env" "decode (app_auth (ne_app env)) later act Access = Inr p" "jti_of p = Some j"
    and "cache_view (node_cache st) (tick later) (revoked_key j) \<noteq> None"
    and "endpoint_access (call_endpoint c) \<in> {AccessPayload, CurrentUser, AdminUser}"
  shows "run_call env later request (Some act) c st \<noteq> (Returned v, st')"
proof
  let ?aenv = "app_auth (ne_app env)"
  assume run: "run_call env later request (Some act) c st = (Returned v, st')"
  have "fst (is_revoked memory_cache_ops (tick later) p (node_cache st))"
    using assms(3,4) mem.is_revoked_view [OF assms(3)] by (simp add: memory_cache_ops_def)
  then obtain s where g: "get_access_payload ?aenv later (Some act) (as_auth (nd_app st))
      = (Inl (app_error AuthenticationError ''this session has been revoked''), s)"
    using access_rejected [OF assms(2)] assms(1) by (auto simp: one_cache_def)
  then have "get_current_user ?aenv later (Some act) (as_auth (nd_app st)) = (Inl (app_error AuthenticationError ''this session has been revoked''), s)"
    by (simp add: get_current_user_def bind_state_def)
  with g run_call_guarded [OF run] assms(5) show False by (auto simp: guard_passed_def)
qed

lemma expired_call_fails:
  assumes "decode (app_auth (ne_app env)) later act Access = Inl e"
    and "endpoint_access (call_endpoint c) \<in> {AccessPayload, CurrentUser, AdminUser}"
  shows "run_call env later request (Some act) c st \<noteq> (Returned v, st')"
proof
  assume run: "run_call env later request (Some act) c st = (Returned v, st')"
  have "get_access_payload (app_auth (ne_app env)) later (Some act) s = (Inl e, s)"
    "get_current_user (app_auth (ne_app env)) later (Some act) s = (Inl e, s)" for s
    using assms(1) by (simp_all add: get_access_payload_def get_current_user_def bind_state_def lift_result_def)
  with run_call_guarded [OF run] assms(2) show False by (auto simp: guard_passed_def)
qed

lemma refresh_call_returned:
  assumes "run_call env later request cred (RefreshCall rt) st = (Returned v, st')"
  shows "\<exists>x s'. refresh (app_auth (ne_app env)) later rt (as_auth (nd_app st)) = (Inr x, s')"
  using assms
  by (auto simp: run_call_def refresh_endpoint_def Let_def nonempty_token_def bind_state_def lift_result_def
      dest!: on_app_returned endpoint_returned split: if_splits)
     (auto simp: in_session_def bind_state_def lift_result_def split: prod.splits sum.splits if_splits)

section \<open>Properties\<close>

lemma denied_after_logout:
  assumes "one_cache env" "(before env later es)\<^sup>*\<^sup>* st1 st2" "{ea, er} \<subseteq> es"
    and c: "node_cache st1 = revoke memory_cache_ops (wall amb) (tick amb) q (revoke memory_cache_ops (wall amb) (tick amb) p c)"
    and "unique_id (app_auth (ne_app env)) p" "unique_id (app_auth (ne_app env)) q" "earlier amb later ea" "earlier amb later er"
    and p: "jti_of p = Some ja" "dict_get p ''exp'' = Some (JInt ea)" and q: "jti_of q = Some jr" "dict_get q ''exp'' = Some (JInt er)"
    and "claim_str ja \<noteq> claim_str jr"
  shows "wall later < of_int ea \<Longrightarrow> cache_view (node_cache st2) (tick later) (revoked_key ja) \<noteq> None"
    and "wall later < of_int er \<Longrightarrow> cache_view (node_cache st2) (tick later) (revoked_key jr) \<noteq> None"
proof -
  assume w: "wall later < of_int ea"
  have "cache_view (revoke memory_cache_ops (wall amb) (tick amb) p c) (tick later) (revoked_key ja) \<noteq> None"
    using revoke_view [OF p _ _ w] assms(7) by (simp add: earlier_def)
  moreover have "op_before p ea (wall later) (tick later) (RevokeToken (wall amb) (tick amb) q)"
    using p q assms(13) by simp
  ultimately have "cache_view (node_cache st1) (tick later) (revoked_key ja) \<noteq> None"
    using denylist_step_view [OF p w, of "tick later" "RevokeToken (wall amb) (tick amb) q"] c by fastforce
  then show "cache_view (node_cache st2) (tick later) (revoked_key ja) \<noteq> None"
    using before_all_denied [OF assms(2,1,5) _ p w] assms(3) by blast
next
  assume w: "wall later < of_int er"
  have "cache_view (node_cache st1) (tick later) (revoked_key jr) \<noteq> None"
    using revoke_view [OF q _ _ w] assms(8) c by (simp add: earlier_def)
  then show "cache_view (node_cache st2) (tick later) (revoked_key jr) \<noteq> None"
    using before_all_denied [OF assms(2,1,6) _ q w] assms(3) by blast
qed

text \<open>No refresh call returns to a token that is on the denylist or has expired.\<close>

lemma refresh_call_fails:
  assumes "one_cache env" "aenv = app_auth (ne_app env)"
    and "decode aenv later rt Refresh = Inr q \<Longrightarrow> jti_of q = Some j \<and> cache_view (node_cache st) (tick later) (revoked_key j) \<noteq> None"
    and "decode aenv later rt Refresh = Inr q \<or> (\<exists>e. decode aenv later rt Refresh = Inl e)"
  shows "run_call env later request cred (RefreshCall rt) st \<noteq> (Returned w, st')"
proof -
  have "\<exists>e s. refresh aenv later rt (as_auth (nd_app st)) = (Inl e, s)"
  proof (cases "decode aenv later rt Refresh = Inr q")
    case True
    then have "fst (is_revoked memory_cache_ops (tick later) q (node_cache st))"
      using assms(3) mem.is_revoked_view [of q j] by (simp add: memory_cache_ops_def)
    then show ?thesis using refresh_rejected [OF True, of "as_auth (nd_app st)"] assms(1,2) by (auto simp: one_cache_def)
  next
    case False
    then obtain e where "decode aenv later rt Refresh = Inl e" using assms(4) by blast
    then show ?thesis by (simp add: refresh_def bind_state_def lift_result_def)
  qed
  then show ?thesis using refresh_call_returned assms(2) by fastforce
qed


section \<open>An example\<close>

lemma example_earlier:
  assumes "0 \<le> s" "s \<le> t" "s < e" "e < 2 ^ 53" shows "earlier (example_ambient s) (example_ambient t) e"
  using assms fl_of_int [of e]
  by (simp add: earlier_def clocks_advance_def covers_expiry_def example_ambient_def py_trunc_def fadd_def)

lemma example_unique_id: "unique_id session_env session_access" "unique_id session_env session_refresh"
proof -
  have "q \<in> {session_access, session_refresh}"
    if "decode_token (ae_jwt session_env) t token ty (ae_settings session_env) = Inr q" for t token ty q
  proof -
    have "jwt_decode (table_lib [session_access, session_refresh]) t token (secret_key default_settings) [jwt_algorithm default_settings] = Inr q"
      using decode_token_Inr [OF that] by (simp add: session_env_fields)
    then have "length token < 2" "q = [session_access, session_refresh] ! length token"
      by (auto simp: table_lib_def Let_def split: if_splits option.splits json.splits)
    then show ?thesis by (auto simp: less_2_cases_iff)
  qed
  moreover have "jti_of session_access = Some (JStr ''a'')" "jti_of session_refresh = Some (JStr ''b'')"
    by (simp_all add: jti_of_def session_access_def session_refresh_def account_claims_def token_claims_def)
  ultimately show "unique_id session_env session_access" "unique_id session_env session_refresh"
    unfolding unique_id_def by fastforce+
qed

lemma example_one_cache: "one_cache example_node"
  by (simp add: one_cache_def example_node_def example_app_def session_env_fields make_weather_provider_def
      make_currency_provider_def script_client_def ResilientHttpClient_def)

lemma example_logout:
  "\<exists>v st1. run_call example_node (example_ambient 1100) example_caller (Some []) (LogoutCall (Some ''x'')) (example_node_state codes)
     = (Returned v, st1)"
proof -
  have "\<exists>st. logout session_env (example_ambient 1100) session_access (Some ''x'') example_state = (Inr (), st)"
    using decode_account_token(2) [OF session_reads_back(2) [unfolded session_refresh_def] session_range(2)]
      session_tokens
    by (auto simp: logout_def bind_state_def deny_def return_state_def raise_state_def split: sum.splits exn.splits dest: decode_token_Inl)
  then show ?thesis
    using session_access_payload
    by (auto simp: run_call_def on_app_def logout_endpoint_def endpoint_def example_node_def example_app_def example_node_state_def
        example_app_state_def enforce_rate_limit_def in_session_def bind_state_def lift_result_def add_audit_def return_state_def
        map_outcome_def outcome_of_def Let_def InMemoryRateLimiter_def check_def sweep_def session_access_def)
qed


end
