(* ===== verification/Service.thy ===== *)
theory Service
  imports Op_Logic Price_Monitor Workers
begin

text \<open>
  The service over time: any sequence of calls on a node, interleaved with runs of the price monitor and of the audit
  clean-up on the same database, and what stays true throughout.
\<close>

section \<open>Steps\<close>

text \<open>A call is a request to one of the endpoints that write, or leaves the database alone.\<close>

lemma run_call_app_step:
  assumes "run_call env amb request credentials c st = (out, st')"
  shows "app_step (ne_app env) (nd_app st) (nd_app st') \<or> st_db (as_auth (nd_app st')) = st_db (as_auth (nd_app st))"
proof (cases "c = AdminMetricsCall")
  case True
  then show ?thesis
    using assms metrics_quiet [of "app_auth (ne_app env)" amb credentials "as_auth (nd_app st)"]
    by (auto simp: run_call_def on_app_def map_outcome_def Let_def split: prod.splits)
next
  case False
  with assms show ?thesis
    by (cases c)
       (auto simp: run_call_def Let_def map_outcome_def split: prod.splits dest!: on_app_run intro: app_step.intros)
qed

lemma run_call_evolves:
  assumes "run_call env amb request credentials c st = (out, st')" "db_ok (st_db (as_auth (nd_app st)))"
  shows "evolves (st_db (as_auth (nd_app st))) (st_db (as_auth (nd_app st')))"
  using run_call_app_step [OF assms(1)] app_step_evolves evolves_refl assms(2) by metis

lemma deactivate_evolves: "db_ok db \<Longrightarrow> evolves db (deactivate t a db)"
proof -
  assume ok: "db_ok db"
  have same: "map a_id (price_alerts (deactivate t a db)) = map a_id (price_alerts db)" "users (deactivate t a db) = users db"
    "map a_user_id (price_alerts (deactivate t a db)) = map a_user_id (price_alerts db)"
    by (simp_all add: deactivate_def triggered_row_def)
  have owner: "list_all (\<lambda>b. a_user_id b \<in> U) bs \<longleftrightarrow> set (map a_user_id bs) \<subseteq> U" for U bs by (auto simp: list_all_iff)
  have "db_ok (deactivate t a db)" using ok unfolding db_ok_def owner same .
  then show ?thesis by (simp add: evolves_def deactivate_def admins_def)
qed

lemma check_alert_db:
  "check_alert providers send t alert st = (r, st') \<Longrightarrow> ms_db st' = ms_db st \<or> ms_db st' = deactivate t alert (ms_db st)"
  by (auto simp: check_alert_def bind_state_def lift_result_def return_state_def notify_def
      split: prod.splits sum.splits option.splits if_splits)

lemma check_alert_evolves:
  "check_alert providers send t alert st = (r, st') \<Longrightarrow> db_ok (ms_db st) \<Longrightarrow> evolves (ms_db st) (ms_db st')"
  using check_alert_db deactivate_evolves evolves_refl by metis

lemma check_all_evolves:
  "check_all providers send t alerts k st = (r, st') \<Longrightarrow> db_ok (ms_db st) \<Longrightarrow> evolves (ms_db st) (ms_db st')"
proof (induction alerts arbitrary: k st)
  case (Cons a alerts)
  obtain x s where x: "check_alert providers send t a st = (x, s)" by fastforce
  note first = check_alert_evolves [OF x Cons.prems(2)]
  show ?case
  proof (cases x)
    case (Inr b)
    then show ?thesis
      using Cons.prems(1) Cons.IH [of "if b then k + 1 else k" s] first x
      by (auto simp: bind_state_def evolves_def intro: evolves_trans [unfolded evolves_def])
  qed (use Cons.prems(1) first x in \<open>simp add: bind_state_def\<close>)
qed (simp add: evolves_refl)

lemma monitor_prices_evolves:
  assumes "monitor_prices providers send t st = (r, st')" "db_ok (ms_db st)"
  shows "evolves (ms_db st) (ms_db st')"
proof -
  obtain x s where x: "check_all providers send t (list_active (ms_db st)) 0 st = (x, s)" by fastforce
  show ?thesis
    using assms check_all_evolves [OF x] evolves_refl
    by (auto simp: monitor_prices_def run_once_def x bind_state_def return_state_def Let_def split: sum.splits prod.splits)
qed

text \<open>
  A step of the service: a call that the predicate admits, a run of the price monitor with the flight providers of the node
  and any notifier, or a clean-up of the audit log, if the flag allows it.
\<close>

inductive service_step ::
  "bool \<Rightarrow> (http_request \<Rightarrow> api_call \<Rightarrow> bool) \<Rightarrow> ('n, 'c, 'l, 's) node_env \<Rightarrow> ('n, 'c, 'l, 's) node_state \<Rightarrow> ('n, 'c, 'l, 's) node_state \<Rightarrow> bool"
  for clean and ok and env :: "('n, 'c, 'l, 's) node_env" where
  Call: "ok request c \<Longrightarrow> run_call env amb request credentials c st = (out, st') \<Longrightarrow> service_step clean ok env st st'"
| Monitor: "monitor_prices (ne_flights env) send t \<lparr>ms_db = st_db (as_auth (nd_app st)), ms_mail = (mail :: 'n)\<rparr> = (r, ms) \<Longrightarrow>
    service_step clean ok env st (st\<lparr>nd_app := (nd_app st)\<lparr>as_auth := (as_auth (nd_app st))\<lparr>st_db := ms_db ms\<rparr>\<rparr>\<rparr>)"
| Cleanup: "clean \<Longrightarrow> cleanup_audit_log t days (st_db (as_auth (nd_app st))) = (n, db) \<Longrightarrow>
    service_step clean ok env st (st\<lparr>nd_app := (nd_app st)\<lparr>as_auth := (as_auth (nd_app st))\<lparr>st_db := db\<rparr>\<rparr>\<rparr>)"

text \<open>What every step keeps of the database, with the audit log only where no clean-up runs.\<close>

definition keeps :: "bool \<Rightarrow> database \<Rightarrow> database \<Rightarrow> bool" where
  "keeps clean db db' \<longleftrightarrow> db_ok db' \<and> admins db' \<subseteq> admins db \<and> prefix (map u_id (users db)) (map u_id (users db'))
     \<and> (clean \<or> prefix (audit_log db) (audit_log db'))"

lemma keeps_trans: "keeps clean a b \<Longrightarrow> keeps clean b c \<Longrightarrow> keeps clean a c"
  by (auto simp: keeps_def)

lemma evolves_keeps: "evolves a b \<Longrightarrow> keeps clean a b"
  by (simp add: evolves_def keeps_def)

lemma service_step_keeps:
  "service_step clean ok env st st' \<Longrightarrow> db_ok (node_db st) \<Longrightarrow> keeps clean (node_db st) (node_db st')"
proof (induction rule: service_step.induct)
  case (Call request c amb credentials st out st')
  then show ?case by (intro evolves_keeps run_call_evolves)
next
  case (Monitor send t st mail r ms)
  then show ?case using monitor_prices_evolves [OF Monitor(1)] by (simp add: evolves_keeps)
next
  case (Cleanup t days st n db)
  have "users db = users (node_db st)" using Cleanup(2) by (auto simp: cleanup_audit_log_def split: sum.splits)
  then show ?case
    using Cleanup cleanup_ok [of "node_db st" t days] by (simp add: keeps_def admins_def)
qed

lemma service_keeps:
  "(service_step clean ok env)\<^sup>*\<^sup>* st st' \<Longrightarrow> db_ok (node_db st) \<Longrightarrow> keeps clean (node_db st) (node_db st')"
proof (induction rule: rtranclp_induct)
  case (step y z)
  then have "keeps clean (node_db st) (node_db y)" by simp
  moreover from this have "keeps clean (node_db y) (node_db z)"
    using service_step_keeps [OF step.hyps(2)] by (simp add: keeps_def)
  ultimately show ?case by (rule keeps_trans)
qed (simp add: keeps_def)

end
