(* ===== verification/Storage.thy ===== *)
theory Storage
  imports Migration Schemas
begin

text \<open>
  Whether the values that request validation accepts fit the columns of \<^verbatim>\<open>app/db/models.py\<close>
  in which they are stored.  \<open>String(n)\<close> holds at most \<open>n\<close> characters and \<open>Integer\<close> is the 32-bit
  integer of PostgreSQL, the database of the deployment.
\<close>

definition column_type_of :: "orm_class \<Rightarrow> string \<Rightarrow> column_type option" where
  "column_type_of c name = map_option c_type (List.find (\<lambda>k. c_name k = name) (t_columns (table_of c)))"

definition text_fits :: "orm_class \<Rightarrow> string \<Rightarrow> string \<Rightarrow> bool" where
  "text_fits c name v = (case column_type_of c name of Some (String n) \<Rightarrow> length v \<le> n | _ \<Rightarrow> False)"

definition int_fits :: "orm_class \<Rightarrow> string \<Rightarrow> int \<Rightarrow> bool" where
  "int_fits c name v = (case column_type_of c name of Some Integer \<Rightarrow> - (2 ^ 31) \<le> v \<and> v < 2 ^ 31 | _ \<Rightarrow> False)"

lemma alert_columns:
  "column_type_of orm_PriceAlert ''origin'' = Some (String 3)"
  "column_type_of orm_PriceAlert ''destination'' = Some (String 3)"
  "column_type_of orm_PriceAlert ''departure_date'' = Some (String 10)"
  "column_type_of orm_PriceAlert ''currency'' = Some (String 3)"
  "column_type_of orm_PriceAlert ''target_amount_minor'' = Some Integer"
  "column_type_of orm_User ''full_name'' = Some (String 200)"
  by code_simp+

lemma iso_date_length: "is_iso_date_shape s \<Longrightarrow> length s = 10"
  by (simp add: is_iso_date_shape_def)

lemma length_str_strip: "length (str_strip s) \<le> length s"
  unfolding str_strip_def by (metis length_dropWhile_le length_rev order_trans)

lemma strip_name_length: "max_len 200 v = Inr w \<Longrightarrow> strip_name w = Some n \<Longrightarrow> length n \<le> 200"
  by (cases v) (auto simp: max_len_def strip_name_def Let_def not_less intro: order_trans [OF length_str_strip] split: if_splits)

lemma register_name_length:
  assumes "validate_register validate_email email password full_name = Inr reg" "reg_full_name reg = Some n"
  shows "length n \<le> 200"
proof (cases "max_len 200 full_name")
  case (Inr w)
  then have "strip_name w = Some n"
    using assms by (cases "validate_email email"; cases "strong_password password") (auto simp: validate_register_def)
  then show ?thesis using Inr by (blast intro: strip_name_length)
qed (use assms in \<open>cases "validate_email email"; cases "strong_password password"; simp add: validate_register_def\<close>)



end
