(* ===== verification/Stored_Rows.thy ===== *)
theory Stored_Rows
  imports Service Storage
begin

text \<open>
  The types of the stored rows: every text in the database fits the \<open>String(n)\<close> of its column in
  \<^verbatim>\<open>app/db/models.py\<close>, however requests, price monitor runs and audit clean-ups interleave.
\<close>

section \<open>Rows that fit their tables\<close>

definition opt_text_fits :: "orm_class \<Rightarrow> string \<Rightarrow> string option \<Rightarrow> bool" where
  "opt_text_fits c name v = (case v of None \<Rightarrow> True | Some t \<Rightarrow> text_fits c name t)"

definition user_fits :: "User \<Rightarrow> bool" where
  "user_fits u \<longleftrightarrow> text_fits orm_User ''email'' (u_email u) \<and> text_fits orm_User ''hashed_password'' (u_hashed_password u)
     \<and> opt_text_fits orm_User ''full_name'' (u_full_name u)"

definition alert_fits :: "PriceAlert \<Rightarrow> bool" where
  "alert_fits a \<longleftrightarrow> text_fits orm_PriceAlert ''origin'' (a_origin a) \<and> text_fits orm_PriceAlert ''destination'' (a_destination a)
     \<and> text_fits orm_PriceAlert ''departure_date'' (a_departure_date a) \<and> text_fits orm_PriceAlert ''currency'' (a_currency a)"

definition history_fits :: "SearchHistory \<Rightarrow> bool" where
  "history_fits h \<longleftrightarrow> text_fits orm_SearchHistory ''origin'' (s_origin h) \<and> text_fits orm_SearchHistory ''destination'' (s_destination h)
     \<and> text_fits orm_SearchHistory ''departure_date'' (s_departure_date h)"

definition audit_fits :: "AuditLog \<Rightarrow> bool" where
  "audit_fits l \<longleftrightarrow> text_fits orm_AuditLog ''action'' (l_action l) \<and> text_fits orm_AuditLog ''detail'' (l_detail l)
     \<and> opt_text_fits orm_AuditLog ''ip_address'' (l_ip_address l)"

definition rows_fit :: "database \<Rightarrow> bool" where
  "rows_fit db \<longleftrightarrow> list_all user_fits (users db) \<and> list_all alert_fits (price_alerts db)
     \<and> list_all history_fits (search_history db) \<and> list_all audit_fits (audit_log db)"

lemma row_columns:
  "column_type_of orm_User ''email'' = Some (String 320)"
  "column_type_of orm_User ''hashed_password'' = Some (String 255)"
  "column_type_of orm_SearchHistory ''origin'' = Some (String 3)"
  "column_type_of orm_SearchHistory ''destination'' = Some (String 3)"
  "column_type_of orm_SearchHistory ''departure_date'' = Some (String 10)"
  "column_type_of orm_AuditLog ''action'' = Some (String 64)"
  "column_type_of orm_AuditLog ''detail'' = Some (String 500)"
  "column_type_of orm_AuditLog ''ip_address'' = Some (String 45)"
  by code_simp+

lemma user_fits_iff:
  "user_fits u \<longleftrightarrow> length (u_email u) \<le> 320 \<and> length (u_hashed_password u) \<le> 255 \<and> (\<forall>n. u_full_name u = Some n \<longrightarrow> length n \<le> 200)"
  by (auto simp: user_fits_def opt_text_fits_def text_fits_def row_columns alert_columns split: option.split)

lemma alert_fits_iff:
  "alert_fits a \<longleftrightarrow> length (a_origin a) \<le> 3 \<and> length (a_destination a) \<le> 3 \<and> length (a_departure_date a) \<le> 10 \<and> length (a_currency a) \<le> 3"
  by (simp add: alert_fits_def text_fits_def alert_columns)

lemma history_fits_iff:
  "history_fits h \<longleftrightarrow> length (s_origin h) \<le> 3 \<and> length (s_destination h) \<le> 3 \<and> length (s_departure_date h) \<le> 10"
  by (simp add: history_fits_def text_fits_def row_columns)

lemma audit_fits_iff:
  "audit_fits l \<longleftrightarrow> length (l_action l) \<le> 64 \<and> length (l_detail l) \<le> 500 \<and> (\<forall>a. l_ip_address l = Some a \<longrightarrow> length a \<le> 45)"
  by (auto simp: audit_fits_def opt_text_fits_def text_fits_def row_columns split: option.split)

lemma isoformat_length: "valid_date d \<Longrightarrow> length (date_isoformat d) = 10"
proof -
  assume d: "valid_date d"
  have "days_in_month (year d) (month d) \<le> 31" by (auto simp: days_in_month_def)
  with d have "length (zero_pad 4 (year d)) = 4" "length (zero_pad 2 (month d)) = 2" "length (zero_pad 2 (day d)) = 2"
    by (simp_all add: valid_date_def length_zero_pad)
  then show ?thesis by (simp add: date_isoformat_def)
qed


section \<open>Operations keep the rows in shape\<close>

definition fits :: "('n, 'c) auth_state \<Rightarrow> bool" where
  "fits st = rows_fit (st_db st)"

lemma fits_rollback: "survives_rollback fits"
  by (simp add: survives_rollback_def fits_def)

lemma fits_quiet: "(\<And>st. st_db (snd (op st)) = st_db st) \<Longrightarrow> stays fits op"
  unfolding stable_def fits_def by (metis snd_conv)

lemma fits_send_mail [stable_rules]: "stays fits (send_mail env t s b)"
  and fits_denylisted [stable_rules]: "stays fits (denylisted env amb p)"
  and fits_deny [stable_rules]: "stays fits (deny env amb p)"
  by (rule fits_quiet, simp add: deny_def denylisted_def split_beta)+

text \<open>An account read from the database fits.\<close>

lemma found_by_id: "stable fits (read_db (\<lambda>db. Inr (get_by_id i db))) (\<lambda>found. \<forall>u. found = Some u \<longrightarrow> user_fits u)"
  by (rule stable_read) (auto simp: fits_def rows_fit_def get_by_id_def list_all_iff find_Some_iff)

lemma found_by_email: "stable fits (read_db (get_by_email e)) (\<lambda>found. \<forall>u. found = Some u \<longrightarrow> user_fits u)"
proof (rule stable_read, intro allI impI)
  fix st :: "('a, 'b) auth_state" and v u assume "fits st" "get_by_email e (st_db st) = Inr v" "v = Some u"
  then have "filter (\<lambda>u. u_email u = str_lower e) (users (st_db st)) = [u]"
    by (auto simp: get_by_email_def scalar_one_or_none_def split: list.splits)
  then have "u \<in> set (users (st_db st))" by (metis filter_is_subset list.set_intros(1) subsetD)
  with \<open>fits st\<close> show "user_fits u" by (auto simp: fits_def rows_fit_def list_all_iff)
qed

lemma fits_flush: "rows_fit db \<Longrightarrow> user_fits u \<Longrightarrow> rows_fit (flush_user t u db)"
  by (auto simp: rows_fit_def flush_user_def list_all_iff user_fits_iff)

lemma fits_update_password:
  "user_fits u \<Longrightarrow> length h \<le> 255 \<Longrightarrow> stays fits (write_user (update_password t u h))"
  by (auto simp: stable_def fits_def write_user_def update_password_def Let_def split: if_splits
      intro!: fits_flush simp: user_fits_iff)

lemma fits_mark_verified: "user_fits u \<Longrightarrow> stays fits (write_user (mark_verified t u))"
  by (auto simp: stable_def fits_def write_user_def mark_verified_def Let_def split: if_splits
      intro!: fits_flush simp: user_fits_iff)

lemma fits_create_user:
  assumes "length e \<le> 320" "length h \<le> 255" "\<And>n. name = Some n \<Longrightarrow> length n \<le> 200"
  shows "stays fits (on_db (create_user i t e h name USER))"
  using assms
  by (auto simp: stable_def fits_def on_db_def create_user_def Let_def rows_fit_def user_fits_iff split: prod.splits if_splits)

lemma fits_create_alert:
  assumes "length a \<le> 3" "length b \<le> 3" "length d \<le> 10" "length cur \<le> 3"
  shows "stays fits (on_db (create_alert_row i t uid a b d target cur chan))"
  using assms
  by (auto simp: stable_def fits_def on_db_def create_alert_row_def Let_def rows_fit_def alert_fits_iff split: prod.splits if_splits)

lemma fits_delete_alert [stable_rules]: "stays fits (on_db (\<lambda>db. (Inr (), delete_alert_row a db)))"
  by (auto simp: stable_def fits_def on_db_def delete_alert_row_def rows_fit_def list_all_iff)

lemma fits_add_audit:
  assumes "length action \<le> 64" "\<And>a. ip = Some a \<Longrightarrow> length a \<le> 45"
  shows "stays fits (add_audit amb actor action ip)"
  using assms by (auto simp: stable_def fits_def add_audit_def rows_fit_def audit_fits_iff)

lemma fits_add_history: "history_fits row \<Longrightarrow> stays fits (add_history row)"
  by (auto simp: stable_def fits_def add_history_def rows_fit_def)


section \<open>Calls keep the rows in shape\<close>

text \<open>
  What the libraries document: the e-mail validator returns addresses of at most 254 characters, and the encoded
  Argon2 hash with the parameters of the service has at most 255.
\<close>

definition short_values :: "('n, 'c, 'l, 's) node_env \<Rightarrow> bool" where
  "short_values env \<longleftrightarrow> (\<forall>e v. app_validate_email (ne_app env) e = Inr v \<longrightarrow> length v \<le> 254)
     \<and> (\<forall>salt pw. length (hash_password (ae_hasher (app_auth (ne_app env))) salt pw) \<le> 255)"

text \<open>The caller's address as text has at most 45 characters, and a date parameter is a date of the calendar.\<close>

definition typed_request :: "('n, 'c, 'l, 's) node_env \<Rightarrow> http_request \<Rightarrow> bool" where
  "typed_request env request \<longleftrightarrow> (\<forall>a. client_ip (app_proxy_trust (ne_app env)) request = Some a \<longrightarrow> length a \<le> 45)"

definition typed_call :: "api_call \<Rightarrow> bool" where
  "typed_call c \<longleftrightarrow> (\<forall>t0 t1 q. c = FlightsCall t0 t1 q \<longrightarrow> valid_date (rq_departure_date q))"

lemma fits_access_payload: "stays fits (get_access_payload aenv amb cred)"
  by (rule fits_quiet) (rule get_access_payload_quiet)

lemma fits_current_user: "stays fits (get_current_user aenv amb cred)"
  by (rule fits_quiet) (rule get_current_user_quiet)

lemma fits_optional_user: "stays fits (get_optional_user aenv amb cred)"
  by (rule fits_quiet) (simp add: get_optional_user_quiet)

lemma fits_send_verification: "stays fits (send_verification aenv amb u)"
  by (rule fits_quiet) simp

lemma fits_quiet_ops: "stays fits (refresh aenv amb token)" "stays fits (request_password_reset aenv amb email)" "stays fits (logout aenv amb p rt)"
  by (rule fits_quiet, rule refresh_quiet request_password_reset_quiet logout_quiet)+

lemmas fits_ops = fits_access_payload fits_current_user fits_optional_user fits_send_verification fits_quiet_ops

lemma fits_register:
  assumes "length email \<le> 320" "\<And>salt pw. length (hash_password (ae_hasher aenv) salt pw) \<le> 255" "\<And>n. name = Some n \<Longrightarrow> length n \<le> 200"
  shows "stays fits (register aenv amb email password name)"
proof -
  have "stays fits (bind_state (on_db (create_user (new_uuid amb) (now_us amb) email
         (hash_password (ae_hasher aenv) (fresh_salt amb) password) name USER))
       (\<lambda>user. bind_state (send_verification aenv amb user) (\<lambda>_. return_state user)))"
    by (intro stable_rules fits_create_user fits_send_verification assms)
  then show ?thesis by (auto simp: stable_def register_def)
qed

lemma fits_account_ops:
  assumes "\<And>salt pw. length (hash_password (ae_hasher aenv) salt pw) \<le> 255"
  shows "stays fits (authenticate aenv amb email password)" "stays fits (reset_password aenv amb token password)"
    "stays fits (verify_email aenv amb token)" "stays fits (resend_verification aenv amb email)"
proof -
  note user = fits_update_password [OF _ assms] fits_mark_verified
  show "stays fits (authenticate aenv amb email password)"
    unfolding authenticate_def
    by (rule stable_bind [OF found_by_email]) (auto intro!: stable_rules user split: option.split)
  show "stays fits (reset_password aenv amb token password)"
    unfolding reset_password_def
    by ((rule stays_bind [OF stays_pure(3)])+, rule stable_bind [OF found_by_id]) (auto intro!: stable_rules user split: option.split)
  show "stays fits (verify_email aenv amb token)"
    unfolding verify_email_def
    by ((rule stays_bind [OF stays_pure(3)])+, rule stable_bind [OF found_by_id]) (auto intro!: stable_rules user split: option.split)
  show "stays fits (resend_verification aenv amb email)"
    unfolding resend_verification_def by (intro stable_rules fits_send_verification)
qed

lemma search_flights_fits:
  assumes "flight_request_errors q = []" "valid_date (rq_departure_date q)"
  shows "stays fits (search_flights_handler providers amb t0 t1 q user)"
proof -
  have "history_fits (history_row amb t0 t1 u q res)" for u res
    using assms isoformat_length [OF assms(2)]
    by (simp add: history_fits_iff history_row_fields flight_request_errors_def IATA_shape_def) (simp add: history_row_def)
  then show ?thesis
    unfolding search_flights_handler_def by (intro stable_rules fits_add_history)
qed

lemmas call_fits = on_app_stays [where Q = fits, OF fits_rollback, rotated 2]

lemma fits_register_handler:
  assumes "\<And>e v. validate e = Inr v \<Longrightarrow> length v \<le> 320" "\<And>salt pw. length (hash_password (ae_hasher aenv) salt pw) \<le> 255"
    and "\<And>a. ip = Some a \<Longrightarrow> length a \<le> 45"
  shows "stays fits (bind_state (lift_result (validate_register validate email password name)) (\<lambda>p.
     bind_state (register aenv amb (reg_email p) (reg_password p) (reg_full_name p)) (\<lambda>user.
     bind_state (add_audit amb (Some (u_id user)) ''user.register'' ip) (\<lambda>_. return_state (user_out user)))))"
proof -
  have "length (reg_email p) \<le> 320 \<and> (\<forall>n. reg_full_name p = Some n \<longrightarrow> length n \<le> 200)"
    if "validate_register validate email password name = Inr p" for p
    using that register_name_length [OF that] assms(1) by (fastforce simp: validate_register_def split: sum.splits)
  then show ?thesis
    by (intro stable_bind [OF stable_lift]) (auto intro!: stable_rules fits_register fits_add_audit assms)
qed

lemma fits_create_alert_handler:
  "stays fits (bind_state (get_current_user aenv amb cred) (\<lambda>user.
     bind_state (lift_result (validate_alert orig dest dep target cur chan)) (\<lambda>p.
       if str_upper (pac_origin p) = str_upper (pac_destination p) then raise_state e
       else bind_state (on_db (create_alert_row i t (u_id user) (str_upper (pac_origin p)) (str_upper (pac_destination p))
          (pac_departure_date p) (pac_target_amount_minor p) (str_upper (pac_currency p)) (if pac_channel p = ''email'' then EMAIL else PUSH)))
          (\<lambda>alert. return_state (alert_out alert)))))"
proof -
  have row: "stays fits (on_db (create_alert_row i t uid (str_upper (pac_origin p)) (str_upper (pac_destination p)) (pac_departure_date p)
      (pac_target_amount_minor p) (str_upper (pac_currency p)) ch))"
    if "validate_alert orig dest dep target cur chan = Inr p" for p uid ch
    using validate_alert_Inr [OF that] iso_date_length [of "pac_departure_date p"] by (intro fits_create_alert) simp_all
  show ?thesis
    by (intro stays_bind fits_current_user stable_bind [OF stable_lift]) (auto intro!: stable_rules row)
qed

lemma fits_search_handler:
  assumes "valid_date (rq_departure_date q)"
  shows "stays fits (bind_state (get_optional_user aenv amb cred) (\<lambda>user.
     bind_state (lift_result (raise_errors (flight_request_errors q))) (\<lambda>_. search_flights_handler providers amb t0 t1 q user)))"
  using assms
  by (intro stays_bind fits_optional_user stable_bind [OF stable_lift [where R = "\<lambda>_. flight_request_errors q = []"]])
     (auto simp: raise_errors_iff intro!: search_flights_fits)

lemma run_call_fits:
  assumes lib: "short_values env" and req: "typed_request env request" "typed_call c"
    and run: "run_call env amb request cred c st = (out, st')" and fit: "fits (as_auth (nd_app st))"
  shows "fits (as_auth (nd_app st'))"
proof -
  have mail: "length v \<le> 320" if "app_validate_email (ne_app env) e = Inr v" for e v
    using lib that by (fastforce simp: short_values_def)
  have hash: "length (hash_password (ae_hasher (app_auth (ne_app env))) salt pw) \<le> 255" for salt pw
    using lib by (simp add: short_values_def)
  have ip: "length a \<le> 45" if "auth_client_ip (ne_app env) request = Some a" for a
    using req(1) that by (simp add: typed_request_def auth_client_ip_def)
  note audit = fits_add_audit [of _ "auth_client_ip (ne_app env) request", OF _ ip]
  note handlers = fits_register_handler [OF mail hash ip] fits_create_alert_handler fits_search_handler
  have stored: "call_endpoint c \<notin> {E_admin_metrics, E_get_weather, E_convert_currency} \<Longrightarrow> ?thesis"
    using run fit req(2)
    by (cases c)
       (auto simp: run_call_def Let_def map_outcome_def endpoint_defs typed_call_def split: prod.splits
         intro!: stable_rules fits_ops fits_account_ops hash audit handlers elim!: call_fits)
  have "st_db (as_auth (nd_app st')) = st_db (as_auth (nd_app st))"
    if "call_endpoint c \<in> {E_admin_metrics, E_get_weather, E_convert_currency}"
    using that run metrics_quiet [of "app_auth (ne_app env)" amb cred "as_auth (nd_app st)"]
    by (cases c) (auto simp: run_call_def on_app_def map_outcome_def Let_def split: prod.splits)
  then show ?thesis using stored fit unfolding fits_def by metis
qed


section \<open>Steps\<close>

lemma deactivate_fits: "rows_fit db \<Longrightarrow> rows_fit (deactivate t a db)"
  by (auto simp: rows_fit_def deactivate_def triggered_row_def list_all_iff alert_fits_iff)

lemma check_all_fits: "check_all providers send t alerts k st = (r, st') \<Longrightarrow> rows_fit (ms_db st) \<Longrightarrow> rows_fit (ms_db st')"
proof (induction alerts arbitrary: k st)
  case (Cons a alerts)
  obtain x s where x: "check_alert providers send t a st = (x, s)" by fastforce
  have "rows_fit (ms_db s)" using check_alert_db [OF x] Cons.prems(2) deactivate_fits by auto
  with Cons.prems(1) Cons.IH [of _ s] x show ?case by (cases x) (auto simp: bind_state_def)
qed simp

lemma monitor_prices_fits:
  assumes "monitor_prices providers send t st = (r, st')" "rows_fit (ms_db st)" shows "rows_fit (ms_db st')"
proof -
  obtain x s where x: "check_all providers send t (list_active (ms_db st)) 0 st = (x, s)" by fastforce
  show ?thesis
    using assms check_all_fits [OF x]
    by (auto simp: monitor_prices_def run_once_def x bind_state_def return_state_def Let_def split: sum.splits prod.splits)
qed

lemma service_step_fits:
  "service_step clean (\<lambda>q c. typed_request env q \<and> typed_call c) env st st' \<Longrightarrow> short_values env \<Longrightarrow> rows_fit (node_db st)
   \<Longrightarrow> rows_fit (node_db st')"
proof (induction rule: service_step.induct)
  case (Call request c amb credentials st out st')
  then show ?case using run_call_fits [of env request c] unfolding fits_def by blast
next
  case (Monitor send t st mail r ms)
  then show ?case using monitor_prices_fits [OF Monitor(1)] by simp
next
  case (Cleanup t days st n db)
  then show ?case by (auto simp: cleanup_audit_log_def rows_fit_def list_all_iff split: sum.splits)
qed


text \<open>The example node with a hasher of short hashes and a validator of short addresses.\<close>

definition short_node :: "(mail list, memory_cache, limiter, script_world) node_env" where
  "short_node = example_node\<lparr>ne_app := example_app
     \<lparr>app_auth := session_env\<lparr>ae_hasher := (ae_hasher session_env)\<lparr>ph_hash := (\<lambda>salt p. take 255 (''hash:'' @ p))\<rparr>\<rparr>,
      app_validate_email := (\<lambda>e. if length e \<le> 254 then Inr e else Inl (ValueError ''The email address is too long''))\<rparr>\<rparr>"


end
