(* ===== verification/Api_Reports.thy ===== *)
theory Api_Reports
  imports Op_Logic
begin

text \<open>
  What the hotel search (\<^verbatim>\<open>app/api/v1/hotels.py\<close>) and the admin dashboard
  (\<^verbatim>\<open>app/api/v1/admin.py\<close>) report: the contract of the hotel endpoint on every outcome, and the
  exactness of the counts and of the ten most searched routes.
\<close>

section \<open>The hotel endpoint\<close>

text \<open>What the caller asked for, of a hotel in the response.\<close>

definition wanted_hotel :: "hotel_request \<Rightarrow> HotelOfferOut \<Rightarrow> bool" where
  "wanted_hotel q h \<longleftrightarrow>
     (\<forall>m. hq_max_price q = Some m \<longrightarrow> mo_amount_minor (ho_price_per_night h) \<le> m)
     \<and> (\<forall>m. hq_min_rating q = Some m \<longrightarrow> m \<le> ho_rating h)
     \<and> (\<forall>as. hq_amenities q = Some as \<longrightarrow> str_lower ` set as \<subseteq> set (ho_amenities h))"

lemma wanted_hotel_matches: "hotel_matches (hotel_filters q) (hotel r) \<Longrightarrow> wanted_hotel q (hotel_offer_out r)"
  by (auto simp: wanted_hotel_def hotel_offer_out_def hotel_filters_def hotel_matches_iff money_out_def Let_def)

lemma hotel_search_page:
  assumes "1 \<le> n"
  shows "int (length (hotel_items (hotel_search providers query key fo n cursor))) \<le> n"
    and "r \<in> set (hotel_items (hotel_search providers query key (Some fs) n cursor)) \<Longrightarrow> hotel_matches fs (hotel r)"
    and "hotel_has_more (hotel_search providers query key fo n cursor)
      \<longleftrightarrow> hotel_next_cursor (hotel_search providers query key fo n cursor) \<noteq> None"
proof -
  show "int (length (hotel_items (hotel_search providers query key fo n cursor))) \<le> n"
    using assms by (simp add: hotel_search_eq Let_def paginate_page)
  show "hotel_has_more (hotel_search providers query key fo n cursor)
      \<longleftrightarrow> hotel_next_cursor (hotel_search providers query key fo n cursor) \<noteq> None"
    unfolding hotel_search_eq Let_def HotelResult.simps paginate_more(2) ..
  assume "r \<in> set (hotel_items (hotel_search providers query key (Some fs) n cursor))"
  then have "r \<in> set (ranked_hotel_offers providers query (Some fs))"
    using paginate_subset by (fastforce simp: hotel_search_eq Let_def)
  then show "hotel_matches fs (hotel r)"
    unfolding ranked_hotel_offers_def by (auto dest: hotel_rank_entry(1) simp: effective_hotel_filters_def)
qed

definition limit_answer :: "('n, 'c, 'l) app_env \<Rightarrow> ambient \<Rightarrow> http_request \<Rightarrow> 'l \<Rightarrow> int result \<times> 'l" where
  "limit_answer env amb request = enforce_rate_limit (app_check env) (app_limit_of env) (app_proxy_trust env) (tick amb) request"

text \<open>
  C36: the hotel search endpoint.  It always answers.  A page comes only from a request that the rate limiter admits, whose
  parameters meet their constraints and whose check-out is after its check-in; it lists at most \<open>limit\<close> hotels, each
  within the price and rating limits of the caller and with all wanted amenities, and offers a cursor exactly when there is
  more.  A request with a check-out on or before its check-in is refused with \<open>AppError\<close>, one with a parameter
  out of range with the list of its violations, in this order after the rate limit.
\<close>

theorem hotel_search_contract:
  assumes "search_hotels env providers amb request q (l, u) = (out, l', u')"
  shows "l' = snd (limit_answer env amb request l)
    \<and> (case out of
         Returned resp \<Rightarrow> (\<exists>remaining. fst (limit_answer env amb request l) = Inr remaining)
           \<and> hotel_request_errors q = [] \<and> 0 < days_between (hq_check_in q) (hq_check_out q)
           \<and> int (length (hr_data resp)) \<le> hq_limit q \<and> list_all (wanted_hotel q) (hr_data resp)
           \<and> (pi_has_more (hr_page resp) \<longleftrightarrow> pi_next_cursor (hr_page resp) \<noteq> None)
           \<and> (sm_degraded (hr_meta resp) \<longleftrightarrow> (\<exists>p \<in> set providers. is_failure (hp_search p (hotel_query q))))
       | Raised e \<Rightarrow>
           (case fst (limit_answer env amb request l) of
              Inl refused \<Rightarrow> e = refused
            | Inr _ \<Rightarrow>
                if hotel_request_errors q \<noteq> [] then e = RequestValidationError (hotel_request_errors q)
                else days_between (hq_check_in q) (hq_check_out q) \<le> 0
                  \<and> e = app_error AppError ''check-out must be after check-in'')
       | Aborted \<Rightarrow> False)"
proof -
  obtain a l2 where lim: "limit_answer env amb request l = (a, l2)" by fastforce
  let ?res = "hotel_search providers (hotel_query q) (hq_sort q) (Some (hotel_filters q)) (hq_limit q) (hq_cursor q)"
  have out: "l' = l2" "out = (case a of Inl e \<Rightarrow> Raised e | Inr _ \<Rightarrow> outcome_of (search_hotels_handler providers q))"
    using assms lim by (auto simp: search_hotels_def limited_def limit_answer_def split: sum.splits)
  have "1 \<le> hq_limit q" if "hotel_request_errors q = []" using that by (simp add: hotel_request_errors_def)
  then have "int (length (hr_data (hotel_response ?res))) \<le> hq_limit q \<and> list_all (wanted_hotel q) (hr_data (hotel_response ?res))
      \<and> (pi_has_more (hr_page (hotel_response ?res)) \<longleftrightarrow> pi_next_cursor (hr_page (hotel_response ?res)) \<noteq> None)"
    if "hotel_request_errors q = []"
    using that hotel_search_page wanted_hotel_matches by (simp add: hotel_response_def list_all_iff)
  moreover have "sm_degraded (hr_meta (hotel_response ?res)) \<longleftrightarrow> (\<exists>p \<in> set providers. is_failure (hp_search p (hotel_query q)))"
    by (simp add: hotel_response_def meta_out_def hotel_search_eq Let_def)
  ultimately show ?thesis
    using out lim by (auto simp: search_hotels_handler_def raise_errors_def outcome_of_def split: sum.splits if_splits)
qed

definition example_hotel_request :: hotel_request where
  "example_hotel_request = \<lparr>hq_city = ''Rome'', hq_check_in = Date 2026 8 10, hq_check_out = Date 2026 8 10,
     hq_guests = 2, hq_sort = HOTEL_BEST, hq_max_price = None, hq_min_rating = None, hq_amenities = None,
     hq_limit = 20, hq_cursor = None\<rparr>"

theorem hotel_search_contract_witness:
  "\<exists>l'. search_hotels example_app example_hotel_providers (example_ambient 1100)
      \<lparr>req_client = Some ''8.8.8.8'', req_headers = []\<rparr> example_hotel_request (InMemoryRateLimiter 120 60 0, ())
    = (Raised (app_error AppError ''check-out must be after check-in''), l', ())"
proof -
  let ?request = "\<lparr>req_client = Some ''8.8.8.8'', req_headers = []\<rparr>"
  obtain out l' v where d: "search_hotels example_app example_hotel_providers (example_ambient 1100) ?request
      example_hotel_request (InMemoryRateLimiter 120 60 0, ()) = (out, l', v)"
    using prod_cases3 by blast
  have "\<exists>r. fst (limit_answer example_app (example_ambient 1100) ?request (InMemoryRateLimiter 120 60 0)) = Inr r"
    by (simp add: limit_answer_def example_app_def enforce_first)
  moreover have "hotel_request_errors example_hotel_request = []"
    by (simp add: hotel_request_errors_def example_hotel_request_def)
  moreover have "days_between (hq_check_in example_hotel_request) (hq_check_out example_hotel_request) = 0"
    by (simp add: example_hotel_request_def days_between_def)
  ultimately show ?thesis using hotel_search_contract [OF d] d by (cases out) auto
qed


section \<open>The dashboard\<close>

text \<open>The routes of the search history and how often each was searched.\<close>

definition searched :: "database \<Rightarrow> (string \<times> string) set" where
  "searched db = (\<lambda>s. (s_origin s, s_destination s)) ` set (search_history db)"

definition searches_of :: "database \<Rightarrow> string \<times> string \<Rightarrow> int" where
  "searches_of db route = int (length (filter (\<lambda>s. (s_origin s, s_destination s) = route) (search_history db)))"

lemma route_counts_eq:
  "\<exists>routes. distinct routes \<and> set routes = searched db
    \<and> route_counts (search_history db) = map (\<lambda>r. (r, searches_of db r)) routes"
  by (rule exI [of _ "rev (remdups (rev (map (\<lambda>s. (s_origin s, s_destination s)) (search_history db))))"])
     (simp add: route_counts_def searches_of_def searched_def Let_def)

lemma sort_key_map: "sort_key f (map g xs) = map g (sort_key (f \<circ> g) xs)"
proof -
  have "insort_key f (g x) (map g ys) = map g (insort_key (f \<circ> g) x ys)" for x ys
    by (induction ys) simp_all
  then show ?thesis by (induction xs) (simp_all add: sort_key_def)
qed

text \<open>A prefix of a list sorted by a key: what is left out has no smaller key.\<close>

lemma take_sort_key:
  fixes f :: "'a \<Rightarrow> int"
  assumes "distinct xs"
  shows "distinct (take n (sort_key f xs))" and "length (take n (sort_key f xs)) = min n (card (set xs))"
    and "sorted (map f (take n (sort_key f xs)))"
    and "\<lbrakk>x \<in> set (take n (sort_key f xs)); y \<in> set xs; y \<notin> set (take n (sort_key f xs))\<rbrakk> \<Longrightarrow> f x \<le> f y"
proof -
  let ?s = "sort_key f xs"
  show "distinct (take n ?s)" "length (take n ?s) = min n (card (set xs))" "sorted (map f (take n ?s))"
    using assms by (simp_all add: distinct_card min_def take_map [symmetric] sorted_wrt_take)
  have "sorted (map f (take n ?s @ drop n ?s))" by simp
  then have le: "f x \<le> f y" if "x \<in> set (take n ?s)" "y \<in> set (drop n ?s)" for x y
    using that unfolding map_append sorted_append by auto
  have "set xs = set (take n ?s) \<union> set (drop n ?s)" by (metis append_take_drop_id set_append set_sort)
  then show "f x \<le> f y" if "x \<in> set (take n ?s)" "y \<in> set xs" "y \<notin> set (take n ?s)"
    using that le by blast
qed

lemma sorted_map_uminus: "sorted (map (\<lambda>x. - f x) xs) \<longleftrightarrow> sorted (rev (map f xs))" for f :: "'a \<Rightarrow> int"
  by (simp add: sorted_wrt_rev sorted_wrt_map)

lemma metrics_answer:
  assumes "metrics_endpoint env amb credentials st = (Inr m, st')"
  obtains user where "fst (get_current_user env amb credentials st) = Inr user" "u_role user = ADMIN"
    "total_users m = int (length (users (st_db st)))" "total_searches m = int (length (search_history (st_db st)))"
    "active_alerts m = int (length (filter a_is_active (price_alerts (st_db st))))"
    "popular_routes m = map (\<lambda>((origin, destination), n). (origin @ ''-'' @ destination, n))
       (take 10 (sort_key (\<lambda>(r, n). - n) (route_counts (search_history (st_db st)))))"
proof -
  obtain u s where u: "get_current_user env amb credentials st = (u, s)" by fastforce
  then have "st_db s = st_db st" using get_current_user_quiet [of env amb credentials st] by simp
  then show thesis
    using assms u that
    by (auto simp: metrics_endpoint_def in_session_def bind_state_def lift_result_def read_db_def require_admin_def
        split: sum.splits if_splits)
qed

text \<open>
  C37: the dashboard reports exactly the database.  When the endpoint answers, the caller's token is that of an active
  administrator, the database is unchanged, the three totals are the numbers of accounts, searches and active alerts, and
  the popular routes are at most ten different searched routes, all of them when there are no more than ten, each with the exact number of its
  searches, in descending order, such that no route left out was searched more often than a listed one.
\<close>

theorem dashboard_exact:
  assumes "metrics_endpoint env amb credentials st = (Inr m, st')"
  shows "(\<exists>user. fst (get_current_user env amb credentials st) = Inr user \<and> u_role user = ADMIN)
    \<and> st_db st' = st_db st
    \<and> total_users m = int (length (users (st_db st)))
    \<and> total_searches m = int (length (search_history (st_db st)))
    \<and> active_alerts m = int (card {i. i < length (price_alerts (st_db st)) \<and> a_is_active (price_alerts (st_db st) ! i)})
    \<and> (\<exists>routes. distinct routes \<and> set routes \<subseteq> searched (st_db st)
         \<and> length routes = min 10 (card (searched (st_db st)))
         \<and> popular_routes m = map (\<lambda>r. (fst r @ ''-'' @ snd r, searches_of (st_db st) r)) routes
         \<and> sorted (rev (map (searches_of (st_db st)) routes))
         \<and> (\<forall>listed \<in> set routes. \<forall>other \<in> searched (st_db st) - set routes.
              searches_of (st_db st) other \<le> searches_of (st_db st) listed))"
proof -
  obtain user where user: "fst (get_current_user env amb credentials st) = Inr user" "u_role user = ADMIN"
    and m: "total_users m = int (length (users (st_db st)))" "total_searches m = int (length (search_history (st_db st)))"
      "active_alerts m = int (length (filter a_is_active (price_alerts (st_db st))))"
      "popular_routes m = map (\<lambda>((origin, destination), n). (origin @ ''-'' @ destination, n))
         (take 10 (sort_key (\<lambda>(r, n). - n) (route_counts (search_history (st_db st)))))"
    using assms by (rule metrics_answer)
  obtain routes where routes: "distinct routes" "set routes = searched (st_db st)"
    and counts: "route_counts (search_history (st_db st)) = map (\<lambda>r. (r, searches_of (st_db st) r)) routes"
    using route_counts_eq by blast
  let ?key = "\<lambda>r. - searches_of (st_db st) r"
  note top = take_sort_key [OF routes(1), where f = ?key and n = 10]
  have "popular_routes m = map (\<lambda>r. (fst r @ ''-'' @ snd r, searches_of (st_db st) r)) (take 10 (sort_key ?key routes))"
    by (simp add: m(4) counts sort_key_map take_map comp_def case_prod_unfold)
  moreover have "set (take 10 (sort_key ?key routes)) \<subseteq> searched (st_db st)"
    using routes(2) by (metis set_sort set_take_subset)
  moreover have "sorted (rev (map (searches_of (st_db st)) (take 10 (sort_key ?key routes))))"
    using top(3) by (simp add: sorted_map_uminus)
  moreover have "length (filter a_is_active (price_alerts (st_db st)))
      = card {i. i < length (price_alerts (st_db st)) \<and> a_is_active (price_alerts (st_db st) ! i)}"
    by (rule length_filter_conv_card)
  ultimately show ?thesis
    using user m(1-3) top routes(2) metrics_quiet [of env amb credentials st] assms
    by (intro conjI exI [of _ "take 10 (sort_key ?key routes)"]) auto
qed

text \<open>Three searches over two routes, and an administrator who looks at them.\<close>

definition example_history :: "string \<Rightarrow> SearchHistory" where
  "example_history airport = \<lparr>s_id = 1, s_user_id = 7, s_origin = ''THR'', s_destination = airport,
     s_departure_date = ''2026-08-10'', s_result_count = 4, s_latency_ms = 12, s_created_at = 0\<rparr>"

definition dashboard_state :: "(mail list, memory_cache) auth_state" where
  "dashboard_state = example_state\<lparr>st_db := empty_database\<lparr>users := [example_user\<lparr>u_role := ADMIN\<rparr>],
     search_history := map example_history [''IST'', ''DXB'', ''DXB'']\<rparr>\<rparr>"

lemma dashboard_user:
  "get_current_user session_env (example_ambient 1100) (Some []) dashboard_state
    = (Inr (example_user\<lparr>u_role := ADMIN\<rparr>), dashboard_state)"
proof -
  have "get_access_payload session_env (example_ambient 1100) (Some []) dashboard_state = (Inr session_access, dashboard_state)"
    using session_decodes [of 1100]
    by (simp add: get_access_payload_def denylisted_def bind_state_def lift_result_def return_state_def is_revoked_def
        session_env_fields memory_cache_ops_def cache_get_def example_state_def dashboard_state_def split: option.split)
  moreover have "subject_uuid session_access = Inr (u_id example_user)" by (simp add: session_access_def)
  ultimately show ?thesis
    by (simp add: get_current_user_def bind_state_def lift_result_def read_db_def return_state_def get_by_id_def
        dashboard_state_def example_user_def)
qed

theorem dashboard_exact_witness:
  "\<exists>m st'. metrics_endpoint session_env (example_ambient 1100) (Some []) dashboard_state = (Inr m, st')
    \<and> total_users m = 1 \<and> total_searches m = 3 \<and> set (popular_routes m) = {(''THR-DXB'', 2), (''THR-IST'', 1)}"
proof -
  have db: "searched (st_db dashboard_state) = {(''THR'', ''IST''), (''THR'', ''DXB'')}"
    "searches_of (st_db dashboard_state) (''THR'', ''IST'') = 1" "searches_of (st_db dashboard_state) (''THR'', ''DXB'') = 2"
    by (simp_all add: searched_def searches_of_def dashboard_state_def example_history_def)
  obtain m st' where m: "metrics_endpoint session_env (example_ambient 1100) (Some []) dashboard_state = (Inr m, st')"
    by (simp add: metrics_endpoint_def in_session_def bind_state_def lift_result_def dashboard_user require_admin_def read_db_def)
  from dashboard_exact [OF m] obtain routes where r: "distinct routes" "set routes \<subseteq> searched (st_db dashboard_state)"
    "length routes = min 10 (card (searched (st_db dashboard_state)))"
    "popular_routes m = map (\<lambda>r. (fst r @ ''-'' @ snd r, searches_of (st_db dashboard_state) r)) routes" by blast
  then have "set routes = searched (st_db dashboard_state)"
    by (intro card_subset_eq) (simp_all add: db distinct_card)
  then have "set (popular_routes m) = {(''THR-DXB'', 2), (''THR-IST'', 1)}" by (auto simp: r(4) db)
  moreover have "length (users (st_db dashboard_state)) = 1" "length (search_history (st_db dashboard_state)) = 3"
    by (simp_all add: dashboard_state_def)
  ultimately show ?thesis using dashboard_exact [OF m] m by simp
qed

end
