(* ===== verification/Privacy.thy ===== *)
theory Privacy
  imports Op_Logic
begin

text \<open>
  Isolation of the accounts: two nodes whose databases differ only in the price alerts of other accounts, in the search
  history and in the audit log answer one account alike, and nothing this account does touches the alerts of others.
  The proof is a relational logic over the operations: \<open>alike V op R\<close> runs \<open>op\<close> in two states that \<open>V\<close> relates.
\<close>

section \<open>Running an operation in two states\<close>

type_synonym ('n, 'c) view = "('n, 'c) auth_state \<Rightarrow> ('n, 'c) auth_state \<Rightarrow> bool"

definition alike :: "('n, 'c) view \<Rightarrow> ('n, 'c, 'a) auth_op \<Rightarrow> ('a \<Rightarrow> bool) \<Rightarrow> bool" where
  "alike V op R \<longleftrightarrow> (\<forall>s t. V s t \<longrightarrow>
     fst (op s) = fst (op t) \<and> V (snd (op s)) (snd (op t)) \<and> (\<forall>v. fst (op s) = Inr v \<longrightarrow> R v))"

abbreviation same :: "('n, 'c) view \<Rightarrow> ('n, 'c, 'a) auth_op \<Rightarrow> bool" where
  "same V op \<equiv> alike V op (\<lambda>v. True)"

named_theorems alike_rules \<open>rules for operations that two related states answer alike\<close>

lemma alikeI:
  "(\<And>s t. V s t \<Longrightarrow> fst (op s) = fst (op t) \<and> V (snd (op s)) (snd (op t)) \<and> (\<forall>v. fst (op s) = Inr v \<longrightarrow> R v))
   \<Longrightarrow> alike V op R"
  unfolding alike_def by blast

lemma alikeD:
  assumes "alike V op R" "V s t"
  shows "fst (op s) = fst (op t)" "V (snd (op s)) (snd (op t))" "fst (op s) = Inr v \<Longrightarrow> R v"
  using assms unfolding alike_def by blast+

lemma alike_bind:
  assumes "alike V m R" "\<And>v. R v \<Longrightarrow> alike V (f v) S" shows "alike V (bind_state m f) S"
proof (rule alikeI)
  fix s t assume "V s t"
  note m = alikeD [OF assms(1) this]
  obtain x s' t' where st: "m s = (x, s')" "m t = (x, t')" using m(1) by (metis prod.collapse)
  show "fst (bind_state m f s) = fst (bind_state m f t) \<and> V (snd (bind_state m f s)) (snd (bind_state m f t))
      \<and> (\<forall>v. fst (bind_state m f s) = Inr v \<longrightarrow> S v)"
  proof (cases x)
    case (Inr v)
    then have "alike V (f v) S" using m(3) st(1) assms(2) by simp
    moreover have "V s' t'" using m(2) st by simp
    ultimately show ?thesis using st Inr alikeD [of V "f v" S s' t'] by (simp add: bind_state_def)
  qed (use st m(2) in \<open>simp add: bind_state_def\<close>)
qed

lemma same_bind [alike_rules]: "same V m \<Longrightarrow> (\<And>v. same V (f v)) \<Longrightarrow> same V (bind_state m f)"
  by (rule alike_bind)

lemma same_pure [alike_rules]: "same V (return_state v)" "same V (raise_state e)" "same V (lift_result r)"
  by (simp_all add: alike_def return_state_def raise_state_def lift_result_def)

lemma alike_lift: "(\<And>v. r = Inr v \<Longrightarrow> R v) \<Longrightarrow> alike V (lift_result r) R"
  by (simp add: alike_def lift_result_def)

lemma alike_read: "(\<And>s t. V s t \<Longrightarrow> f (st_db s) = f (st_db t)) \<Longrightarrow> same V (read_db f)"
  by (simp add: alike_def read_db_def)

lemma same_if [alike_rules]: "(b \<Longrightarrow> same V x) \<Longrightarrow> (\<not> b \<Longrightarrow> same V y) \<Longrightarrow> same V (if b then x else y)"
  by simp

lemma same_option [alike_rules]:
  "same V x \<Longrightarrow> (\<And>v. o' = Some v \<Longrightarrow> same V (y v)) \<Longrightarrow> same V (case o' of None \<Rightarrow> x | Some v \<Rightarrow> y v)"
  by (cases o') simp_all

lemma same_in_session:
  assumes "same V op" and rollback: "\<And>s t s' t'. V s t \<Longrightarrow> V s' t' \<Longrightarrow> V (s'\<lparr>st_db := st_db s\<rparr>) (t'\<lparr>st_db := st_db t\<rparr>)"
  shows "same V (in_session op)"
proof (rule alikeI)
  fix s t assume st: "V s t"
  note op = alikeD [OF assms(1) this]
  obtain x s' t' where "op s = (x, s')" "op t = (x, t')" using op(1) by (metis prod.collapse)
  then show "fst (in_session op s) = fst (in_session op t) \<and> V (snd (in_session op s)) (snd (in_session op t))
      \<and> (\<forall>v. fst (in_session op s) = Inr v \<longrightarrow> True)"
    using op(2) rollback [OF st] by (cases x) (simp_all add: in_session_def)
qed


section \<open>What an account can see\<close>

definition own :: "uuid \<Rightarrow> database \<Rightarrow> PriceAlert list" where
  "own me db = filter (\<lambda>a. a_user_id a = me) (price_alerts db)"

definition others :: "uuid \<Rightarrow> database \<Rightarrow> PriceAlert list" where
  "others me db = filter (\<lambda>a. a_user_id a \<noteq> me) (price_alerts db)"

text \<open>
  Related states: the same accounts, own alerts, sent mail and denylist.  The alerts of others are \<open>os\<close> and \<open>ot\<close>, whatever
  these are; their ids are neither those of own alerts nor in \<open>fresh\<close>, the ids still to be drawn.
\<close>

definition apart :: "uuid set \<Rightarrow> PriceAlert list \<Rightarrow> PriceAlert list \<Rightarrow> bool" where
  "apart fresh foreign mine \<longleftrightarrow> a_id ` set foreign \<inter> (fresh \<union> a_id ` set mine) = {}"

definition view :: "uuid \<Rightarrow> uuid set \<Rightarrow> PriceAlert list \<Rightarrow> PriceAlert list \<Rightarrow> ('n, 'c) view" where
  "view me fresh os ot s t \<longleftrightarrow> st_mail s = st_mail t \<and> st_denylist s = st_denylist t
     \<and> users (st_db s) = users (st_db t) \<and> own me (st_db s) = own me (st_db t)
     \<and> others me (st_db s) = os \<and> others me (st_db t) = ot
     \<and> apart fresh (os @ ot) (own me (st_db t))"

lemma view_rollback:
  "view me fresh os ot s t \<Longrightarrow> view me fresh os ot s' t' \<Longrightarrow> view me fresh os ot (s'\<lparr>st_db := st_db s\<rparr>) (t'\<lparr>st_db := st_db t\<rparr>)"
  unfolding view_def by auto

text \<open>Operations that look at the accounts only, and change nothing but the accounts and what is hidden.\<close>

lemma view_read_users:
  assumes "\<And>db db'. users db = users db' \<Longrightarrow> f db = f db'" shows "same (view me fresh os ot) (read_db f)"
  by (rule alike_read, rule assms) (simp add: view_def)

lemma view_accounts [alike_rules]:
  "same (view me fresh os ot) (read_db (get_by_email e))" "same (view me fresh os ot) (read_db (\<lambda>db. Inr (get_by_id i db)))"
  by (rule view_read_users, simp add: get_by_email_def get_by_id_def)+

lemma view_send [alike_rules]: "same (view me fresh os ot) (send_mail aenv a b c)"
  by (rule alikeI) (auto simp: view_def send_mail_def split: prod.splits)

lemma view_denylist [alike_rules]:
  "same (view me fresh os ot) (denylisted aenv amb p)" "same (view me fresh os ot) (deny aenv amb p)"
  by (rule alikeI, auto simp: view_def denylisted_def deny_def split: prod.splits)+

lemma view_write_user:
  assumes "\<And>db. price_alerts (snd (f db)) = price_alerts db"
    and "\<And>db db'. users db = users db' \<Longrightarrow> fst (f db) = fst (f db') \<and> users (snd (f db)) = users (snd (f db'))"
  shows "same (view me fresh os ot) (write_user f)"
proof (rule alikeI)
  fix s t assume "view me fresh os ot s t"
  with assms(1) assms(2) [of "st_db s" "st_db t"]
  show "fst (write_user f s) = fst (write_user f t) \<and> view me fresh os ot (snd (write_user f s)) (snd (write_user f t))
      \<and> (\<forall>v. fst (write_user f s) = Inr v \<longrightarrow> True)"
    by (auto simp: view_def write_user_def own_def others_def split_beta)
qed

lemma view_updates [alike_rules]:
  "same (view me fresh os ot) (write_user (mark_verified t u))" "same (view me fresh os ot) (write_user (update_password t u h))"
  by (rule view_write_user; simp add: mark_verified_def update_password_def flush_user_def Let_def)+

lemma view_hidden [alike_rules]:
  "same (view me fresh os ot) (add_audit amb actor act ip)" "same (view me fresh os ot) (add_history row)"
  by (rule alikeI, auto simp: view_def add_audit_def add_history_def own_def others_def)+

lemma view_create_user [alike_rules]: "same (view me fresh os ot) (on_db (create_user i t_us email h n r))"
  by (rule alikeI) (auto simp: view_def on_db_def create_user_def own_def others_def Let_def)



section \<open>Operations\<close>

lemma view_register [alike_rules]: "same (view me fresh os ot) (register aenv amb email password name)"
proof -
  have create: "same (view me fresh os ot) (bind_state
      (on_db (create_user (new_uuid amb) (now_us amb) email (hash_password (ae_hasher aenv) (fresh_salt amb) password) name USER))
      (\<lambda>user. bind_state (send_verification aenv amb user) (\<lambda>_. return_state user)))"
    unfolding send_verification_def by (intro alike_rules)
  show ?thesis
  proof (rule alikeI)
    fix s t :: "('a, 'b) auth_state" assume "view me fresh os ot s t"
    moreover from this have "exists_by_email email (st_db s) \<longleftrightarrow> exists_by_email email (st_db t)"
      by (simp add: view_def exists_by_email_def)
    ultimately show "fst (register aenv amb email password name s) = fst (register aenv amb email password name t)
        \<and> view me fresh os ot (snd (register aenv amb email password name s)) (snd (register aenv amb email password name t))
        \<and> (\<forall>v. fst (register aenv amb email password name s) = Inr v \<longrightarrow> True)"
      using alikeD [OF create, of s t] by (simp add: register_def)
  qed
qed

lemma view_account_ops [alike_rules]:
  "same (view me fresh os ot) (authenticate aenv amb email password)"
  "same (view me fresh os ot) (refresh aenv amb token)"
  "same (view me fresh os ot) (verify_email aenv amb token)"
  "same (view me fresh os ot) (resend_verification aenv amb email)"
  "same (view me fresh os ot) (request_password_reset aenv amb email)"
  "same (view me fresh os ot) (reset_password aenv amb token password)"
  by (unfold authenticate_def refresh_def verify_email_def resend_verification_def send_verification_def
      request_password_reset_def reset_password_def; intro alike_rules)+

lemma view_logout [alike_rules]: "same (view me fresh os ot) (logout aenv amb p rt)"
  unfolding logout_def by (intro alike_rules) (auto intro!: alike_rules split: sum.split exn.split)

lemma view_guards [alike_rules]:
  "same (view me fresh os ot) (get_access_payload aenv amb cred)"
  "same (view me fresh os ot) (get_current_user aenv amb cred)"
  "same (view me fresh os ot) (get_optional_user aenv amb cred)"
  unfolding get_current_user_def get_optional_user_def get_access_payload_def
  by (auto intro!: alike_rules split: option.split sum.split exn.split)

text \<open>A caller whose token, if it is one, names the account \<open>me\<close>.\<close>

definition acts_as :: "('n, 'c) auth_env \<Rightarrow> ambient \<Rightarrow> string option \<Rightarrow> uuid \<Rightarrow> bool" where
  "acts_as aenv amb cred me \<longleftrightarrow>
     (\<forall>token p i. cred = Some token \<longrightarrow> decode aenv amb token Access = Inr p \<longrightarrow> subject_uuid p = Inr i \<longrightarrow> i = me)"

lemma current_user_id:
  assumes "acts_as aenv amb cred me"
  shows "alike (view me fresh os ot) (get_current_user aenv amb cred) (\<lambda>u. u_id u = me)"
proof -
  have "u_id u = me" if "fst (get_current_user aenv amb cred s) = Inr u" for u s
    using that assms
    by (auto simp: get_current_user_def get_access_payload_def bind_state_def lift_result_def read_db_def get_by_id_def
        acts_as_def return_state_def raise_state_def find_Some_iff split: option.splits prod.splits sum.splits if_splits)
  then show ?thesis using view_guards(2) [of me fresh os ot aenv amb cred] unfolding alike_def by blast
qed

text \<open>The alerts of the account itself.\<close>

lemma view_own_alerts:
  "same (view me fresh os ot) (read_db (\<lambda>db. Inr (map alert_out (list_for_user me db))))"
  "same (view me fresh os ot) (read_db (get_owned i me))"
proof -
  have "get_owned i me db = scalar_one_or_none (filter (\<lambda>a. a_id a = i) (own me db))" for i db
    by (simp add: get_owned_def own_def conj_commute)
  then show "same (view me fresh os ot) (read_db (\<lambda>db. Inr (map alert_out (list_for_user me db))))"
    "same (view me fresh os ot) (read_db (get_owned i me))"
    by (auto intro!: alike_read simp: view_def list_for_user_def own_def [symmetric])
qed

text \<open>The two lists make up the table, so what is done to it is what is done to them.\<close>

lemma alerts_parts: "set (price_alerts db) = set (own me db) \<union> set (others me db)"
  by (auto simp: own_def others_def)

lemma apart_fresh: "apart fresh foreign mine \<Longrightarrow> i \<in> fresh \<Longrightarrow> a \<in> set foreign \<Longrightarrow> a_id a \<noteq> i"
  by (auto simp: apart_def)

lemma apart_mine: "apart fresh foreign mine \<Longrightarrow> m \<in> set mine \<Longrightarrow> a \<in> set foreign \<Longrightarrow> a_id a \<noteq> a_id m"
  unfolding apart_def by blast

lemma view_create_alert:
  assumes "i \<in> fresh"
  shows "same (view me fresh os ot) (on_db (create_alert_row i t_us me orig dest dep target cur chan))"
proof (rule alikeI)
  fix s t assume v: "view me fresh os ot s t"
  let ?new = "\<lambda>db. fst (create_alert_row i t_us me orig dest dep target cur chan db)"
  have ex: "list_ex (\<lambda>a. a_id a = i) (price_alerts (st_db r)) \<longleftrightarrow> list_ex (\<lambda>a. a_id a = i) (own me (st_db r))"
    if "r = s \<or> r = t" for r
    using that v apart_fresh [OF _ assms, of "os @ ot"] unfolding list_ex_iff alerts_parts [of _ me] view_def by auto
  have eq: "own me (st_db s) = own me (st_db t)" using v by (simp add: view_def)
  show "fst (on_db (create_alert_row i t_us me orig dest dep target cur chan) s)
      = fst (on_db (create_alert_row i t_us me orig dest dep target cur chan) t)
    \<and> view me fresh os ot (snd (on_db (create_alert_row i t_us me orig dest dep target cur chan) s))
       (snd (on_db (create_alert_row i t_us me orig dest dep target cur chan) t))
    \<and> (\<forall>v. fst (on_db (create_alert_row i t_us me orig dest dep target cur chan) s) = Inr v \<longrightarrow> True)"
  proof (cases "list_ex (\<lambda>a. a_id a = i) (own me (st_db t))")
    case True
    then show ?thesis using v ex eq by (simp add: on_db_def create_alert_row_def Let_def)
  next
    case False
    have "own me (db\<lparr>price_alerts := price_alerts db @ [a]\<rparr>) = own me db @ [a]"
      "others me (db\<lparr>price_alerts := price_alerts db @ [a]\<rparr>) = others me db" if "a_user_id a = me" for db a
      using that by (simp_all add: own_def others_def)
    then show ?thesis
      using False v ex eq assms by (auto simp: on_db_def create_alert_row_def Let_def view_def apart_def)
  qed
qed

lemma delete_parts:
  assumes "a_user_id alert = me" and "\<And>a. a \<in> set (others me db) \<Longrightarrow> a_id a \<noteq> a_id alert"
  shows "own me (delete_alert_row alert db) = filter (\<lambda>a. a_id a \<noteq> a_id alert) (own me db)"
    and "others me (delete_alert_row alert db) = others me db"
  using assms(2) by (auto simp: own_def others_def delete_alert_row_def conj_commute intro: filter_cong)

lemma get_owned_own: "get_owned i me db = Inr (Some alert) \<Longrightarrow> alert \<in> set (own me db)"
proof -
  assume "get_owned i me db = Inr (Some alert)"
  then have "filter (\<lambda>a. a_id a = i \<and> a_user_id a = me) (price_alerts db) = [alert]"
    by (auto simp: get_owned_def scalar_one_or_none_def split: list.splits)
  then have "alert \<in> set (filter (\<lambda>a. a_id a = i \<and> a_user_id a = me) (price_alerts db))" by simp
  then show ?thesis by (simp add: own_def)
qed

lemma view_delete_alert:
  "same (view me fresh os ot) (bind_state (read_db (get_owned i me)) (\<lambda>found.
     case found of None \<Rightarrow> raise_state e | Some alert \<Rightarrow> on_db (\<lambda>db. (Inr (), delete_alert_row alert db))))"
proof (rule alikeI)
  fix s t assume v: "view me fresh os ot s t"
  let ?op = "bind_state (read_db (get_owned i me)) (\<lambda>found.
     case found of None \<Rightarrow> raise_state e | Some alert \<Rightarrow> on_db (\<lambda>db. (Inr (), delete_alert_row alert db)))"
  have eq: "get_owned i me (st_db s) = get_owned i me (st_db t)" using alikeD(1) [OF view_own_alerts(2) v, of i] by (simp add: read_db_def)
  show "fst (?op s) = fst (?op t) \<and> view me fresh os ot (snd (?op s)) (snd (?op t)) \<and> (\<forall>v. fst (?op s) = Inr v \<longrightarrow> True)"
  proof (cases "\<exists>alert. get_owned i me (st_db t) = Inr (Some alert)")
    case True
    then obtain alert where a: "get_owned i me (st_db t) = Inr (Some alert)" by blast
    then have "alert \<in> set (own me (st_db t))" by (rule get_owned_own)
    moreover have apart: "apart fresh (os @ ot) (own me (st_db t))" using v by (auto simp: view_def)
    ultimately have foreign: "a_id a \<noteq> a_id alert" if "a \<in> set (others me (st_db s)) \<union> set (others me (st_db t))" for a
      using that v apart_mine [of fresh "os @ ot" "own me (st_db t)" alert a] by (auto simp: view_def)
    have "a_user_id alert = me" using \<open>alert \<in> set (own me (st_db t))\<close> by (simp add: own_def)
    then have "own me (delete_alert_row alert (st_db r)) = filter (\<lambda>a. a_id a \<noteq> a_id alert) (own me (st_db r))
        \<and> others me (delete_alert_row alert (st_db r)) = others me (st_db r)" if "r = s \<or> r = t" for r
      using that foreign by (intro conjI delete_parts) auto
    moreover have "users (delete_alert_row alert db) = users db" for db by (simp add: delete_alert_row_def)
    moreover have "apart fresh (os @ ot) mine \<Longrightarrow> apart fresh (os @ ot) (filter f mine)" for f mine by (auto simp: apart_def)
    ultimately have "view me fresh os ot (s\<lparr>st_db := delete_alert_row alert (st_db s)\<rparr>) (t\<lparr>st_db := delete_alert_row alert (st_db t)\<rparr>)"
      using v apart unfolding view_def by simp
    then show ?thesis using a eq by (simp add: bind_state_def read_db_def on_db_def)
  next
    case False
    then show ?thesis using v eq
      by (auto simp: bind_state_def read_db_def raise_state_def split: sum.splits option.splits)
  qed
qed



section \<open>Calls\<close>

definition node_view ::
  "uuid \<Rightarrow> uuid set \<Rightarrow> PriceAlert list \<Rightarrow> PriceAlert list \<Rightarrow> ('n, 'c, 'l, 's) node_state \<Rightarrow> ('n, 'c, 'l, 's) node_state \<Rightarrow> bool" where
  "node_view me fresh os ot x y \<longleftrightarrow> view me fresh os ot (as_auth (nd_app x)) (as_auth (nd_app y))
     \<and> as_limiter (nd_app x) = as_limiter (nd_app y) \<and> nd_weather x = nd_weather y \<and> nd_currency x = nd_currency y
     \<and> nd_world x = nd_world y"

text \<open>A step of the node that answers both states alike.\<close>

definition node_alike :: "uuid \<Rightarrow> uuid set \<Rightarrow> PriceAlert list \<Rightarrow> PriceAlert list
    \<Rightarrow> (('n, 'c, 'l, 's) node_state \<Rightarrow> reply outcome \<times> ('n, 'c, 'l, 's) node_state) \<Rightarrow> bool" where
  "node_alike me fresh os ot f \<longleftrightarrow>
     (\<forall>x y. node_view me fresh os ot x y \<longrightarrow> fst (f x) = fst (f y) \<and> node_view me fresh os ot (snd (f x)) (snd (f y)))"

lemma node_alike_endpoint:
  assumes "same (view me fresh os ot) h"
  shows "node_alike me fresh os ot (on_app wrap (endpoint env amb request h))"
proof (unfold node_alike_def, intro allI impI)
  fix x y :: "('a, 'b, 'd, 'e) node_state" assume v: "node_view me fresh os ot x y"
  have h: "same (view me fresh os ot) (in_session h)" using assms view_rollback by (rule same_in_session)
  have s: "view me fresh os ot (as_auth (nd_app x)) (as_auth (nd_app y))" using v by (simp add: node_view_def)
  obtain r a b where "in_session h (as_auth (nd_app x)) = (r, a)" "in_session h (as_auth (nd_app y)) = (r, b)"
    "view me fresh os ot a b"
    using alikeD(1,2) [OF h s] by (metis prod.collapse)
  then show "fst (on_app wrap (endpoint env amb request h) x) = fst (on_app wrap (endpoint env amb request h) y)
      \<and> node_view me fresh os ot (snd (on_app wrap (endpoint env amb request h) x)) (snd (on_app wrap (endpoint env amb request h) y))"
    using v by (auto simp: on_app_def map_outcome_def endpoint_def node_view_def split: prod.splits sum.splits)
qed

lemma node_alike_client:
  assumes "\<And>x y. node_view me fresh os ot x y \<Longrightarrow> part x = part y"
    and "\<And>p x y. node_view me fresh os ot x y \<Longrightarrow> node_view me fresh os ot (put p x) (put p y)"
  shows "node_alike me fresh os ot (\<lambda>x. case f (part x) of (r, p) \<Rightarrow> map_outcome wrap (r, put p x))"
  using assms unfolding node_alike_def map_outcome_def by (auto split: prod.splits)

lemma node_alike_plain:
  "node_alike me fresh os ot (\<lambda>x. (r, x))" "node_alike me fresh os ot (\<lambda>x. map_outcome wrap (r1, x))"
  "node_alike me fresh os ot (\<lambda>x. case f (as_limiter (nd_app x), ()) of
     (r, l, u) \<Rightarrow> map_outcome wrap2 (r, x\<lparr>nd_app := (nd_app x)\<lparr>as_limiter := l\<rparr>\<rparr>))"
  unfolding node_alike_def map_outcome_def node_view_def by (auto split: prod.splits)

lemma node_view_http:
  "node_view me fresh os ot x y \<Longrightarrow> http_part (nd_weather x) x = http_part (nd_weather y) y"
  "node_view me fresh os ot x y \<Longrightarrow> http_part (nd_currency x) x = http_part (nd_currency y) y"
  "node_view me fresh os ot x y \<Longrightarrow>
    node_view me fresh os ot ((put_http p x)\<lparr>nd_weather := st_breaker (snd p)\<rparr>) ((put_http p y)\<lparr>nd_weather := st_breaker (snd p)\<rparr>)"
  "node_view me fresh os ot x y \<Longrightarrow>
    node_view me fresh os ot ((put_http p x)\<lparr>nd_currency := st_breaker (snd p)\<rparr>) ((put_http p y)\<lparr>nd_currency := st_breaker (snd p)\<rparr>)"
  by (simp_all add: node_view_def view_def http_part_def put_http_def)

lemma view_handlers:
  assumes "acts_as aenv amb cred me" "new_uuid amb \<in> fresh"
  shows "same (view me fresh os ot) (bind_state (get_current_user aenv amb cred) (\<lambda>user. bind_state (lift_result body) (\<lambda>p.
      if str_upper (pac_origin p) = str_upper (pac_destination p) then raise_state e
      else bind_state (on_db (create_alert_row (new_uuid amb) t_us (u_id user) (str_upper (pac_origin p)) (str_upper (pac_destination p))
        (pac_departure_date p) (pac_target_amount_minor p) (str_upper (pac_currency p))
        (if pac_channel p = ''email'' then EMAIL else PUSH))) (\<lambda>alert. return_state (alert_out alert)))))"
    and "same (view me fresh os ot) (bind_state (get_current_user aenv amb cred) (\<lambda>user.
      read_db (\<lambda>db. Inr (map alert_out (list_for_user (u_id user) db)))))"
    and "same (view me fresh os ot) (bind_state (get_current_user aenv amb cred) (\<lambda>user. case parsed of
      None \<Rightarrow> raise_state e
    | Some i \<Rightarrow> bind_state (read_db (get_owned i (u_id user))) (\<lambda>found. case found of
        None \<Rightarrow> raise_state e' | Some alert \<Rightarrow> on_db (\<lambda>db. (Inr (), delete_alert_row alert db)))))"
  by (rule alike_bind [OF current_user_id [OF assms(1)]];
      auto intro!: alike_rules view_own_alerts view_create_alert [OF assms(2)] view_delete_alert split: option.split)+

lemma view_search [alike_rules]: "same (view me fresh os ot) (search_flights_handler providers amb t0 t1 q user)"
  unfolding search_flights_handler_def by (intro alike_rules)

lemma run_call_alike:
  assumes "acts_as (app_auth (ne_app env)) amb cred me" "new_uuid amb \<in> fresh" "call_endpoint c \<noteq> E_admin_metrics"
  shows "node_alike me fresh os ot (run_call env amb request cred c)"
proof -
  note client = node_alike_client [OF node_view_http(1,3)] node_alike_client [OF node_view_http(2,4)]
  note handlers = view_handlers [OF assms(1,2)]
  show ?thesis
    using assms(3)
    by (cases c)
       (auto simp: run_call_def [abs_def] Let_def endpoint_defs
         intro!: node_alike_endpoint node_alike_plain alike_rules handlers client)
qed



section \<open>Isolation\<close>

text \<open>A sequence of calls on the node, each at its moment, with its credentials.\<close>

type_synonym visit = "ambient \<times> http_request \<times> string option \<times> api_call"

fun visit_all :: "('n, 'c, 'l, 's) node_env \<Rightarrow> visit list \<Rightarrow> ('n, 'c, 'l, 's) node_state
    \<Rightarrow> reply outcome list \<times> ('n, 'c, 'l, 's) node_state" where
  "visit_all env [] st = ([], st)"
| "visit_all env ((amb, request, cred, c) # vs) st =
     (case run_call env amb request cred c st of (out, st') \<Rightarrow>
        (case visit_all env vs st' of (outs, st'') \<Rightarrow> (out # outs, st'')))"

text \<open>Calls that an account makes itself, or nobody: any call but the dashboard of the administrators.\<close>

definition own_visit :: "('n, 'c, 'l, 's) node_env \<Rightarrow> uuid \<Rightarrow> uuid set \<Rightarrow> visit \<Rightarrow> bool" where
  "own_visit env me fresh = (\<lambda>(amb, request, cred, c).
     acts_as (app_auth (ne_app env)) amb cred me \<and> new_uuid amb \<in> fresh \<and> call_endpoint c \<noteq> E_admin_metrics)"

lemma visit_all_alike:
  "node_view me fresh os ot x y \<Longrightarrow> list_all (own_visit env me fresh) visits \<Longrightarrow>
   fst (visit_all env visits x) = fst (visit_all env visits y)
   \<and> node_view me fresh os ot (snd (visit_all env visits x)) (snd (visit_all env visits y))"
proof (induction visits arbitrary: x y)
  case (Cons v vs)
  obtain amb request cred c where v: "v = (amb, request, cred, c)" by (cases v)
  have "node_alike me fresh os ot (run_call env amb request cred c)"
    using Cons.prems(2) v by (intro run_call_alike) (simp_all add: own_visit_def)
  then obtain out x' y' where "run_call env amb request cred c x = (out, x')" "run_call env amb request cred c y = (out, y')"
    "node_view me fresh os ot x' y'"
    using Cons.prems(1) unfolding node_alike_def by (metis prod.collapse)
  with Cons.IH [of x' y'] Cons.prems(2) show ?case by (simp add: v split_beta)
qed simp

lemma parts_apart:
  assumes "db_ok db" shows "a_id ` set (others me db) \<inter> a_id ` set (own me db) = {}"
  using assms by (fastforce simp: db_ok_def distinct_map inj_on_def own_def others_def)


text \<open>Two accounts; the second has an alert or not, and the first looks at its own.\<close>

definition neighbour :: User where
  "neighbour = example_user\<lparr>u_id := 8, u_email := ''bob@x.org''\<rparr>"

definition neighbour_alert :: PriceAlert where
  "neighbour_alert = \<lparr>a_id = 1, a_user_id = 8, a_origin = ''THR'', a_destination = ''IST'', a_departure_date = ''2026-08-10'',
     a_target_amount_minor = 10000, a_currency = ''USD'', a_channel = EMAIL, a_is_active = True, a_triggered_at = None,
     a_created_at = 0, a_updated_at = 0\<rparr>"

definition two_accounts :: "PriceAlert list \<Rightarrow> database" where
  "two_accounts alerts = empty_database\<lparr>users := [example_user, neighbour], price_alerts := alerts\<rparr>"

definition two_accounts_node :: "PriceAlert list \<Rightarrow> (mail list, memory_cache, limiter, script_world) node_state" where
  "two_accounts_node alerts = (example_node_state [])\<lparr>nd_app := example_app_state\<lparr>as_auth := example_state\<lparr>st_db := two_accounts alerts\<rparr>\<rparr>\<rparr>"


end
