(* ===== verification/Middleware.thy ===== *)
theory Middleware
  imports Client_Ip
begin

text \<open>
  The HTTP shell of the application: \<^verbatim>\<open>app/core/middleware.py\<close>, \<^verbatim>\<open>app/core/metrics.py\<close>,
  the request id processor of \<^verbatim>\<open>app/core/logging.py\<close> and the order in which
  \<^verbatim>\<open>app/main.py\<close> stacks them.  A handler gets the value of \<open>request_id_ctx\<close>, the request and a
  state, and returns a response or raises.  Header names are lower case, as Starlette stores them.
\<close>

section \<open>Requests, responses and the observable state\<close>

record web_request =
  wq_http :: http_request
  wq_method :: string
  wq_path :: string

record web_response =
  ws_status :: int
  ws_headers :: "(string, string) dict"
  ws_body :: json

record log_event =
  le_event :: string
  le_request_id :: "string option"
  le_method :: string
  le_path :: string
  le_status :: "int option"
  le_client :: "string option"
  le_duration_ms :: pyfloat

text \<open>The log, the two Prometheus collectors and the state of the application behind.\<close>

record 'a shell =
  sh_log :: "log_event list"
  sh_requests_total :: "((string \<times> string \<times> int), int) dict"
  sh_latency :: "((string \<times> string) \<times> pyfloat) list"
  sh_app :: 'a

type_synonym 'a handler = "string option \<Rightarrow> web_request \<Rightarrow> 'a shell \<Rightarrow> web_response result \<times> 'a shell"

text \<open>
  What a request meets: the monotonic timer, the id that \<open>uuid4().hex\<close> yields for it, the proxy trust of
  the container (\<open>None\<close> before start-up) and the path template of the route that the router matched.
\<close>

record 'a shell_env =
  se_timer :: "'a shell \<Rightarrow> pyfloat"
  se_fresh_id :: string
  se_trust :: "proxy_trust option"
  se_route :: "web_request \<Rightarrow> string option"


section \<open>Logging\<close>

text \<open>The processor \<open>_add_request_id\<close> stamps the id that the context variable holds, if any.\<close>

definition add_request_id :: "string option \<Rightarrow> log_event \<Rightarrow> log_event" where
  "add_request_id ctx e = (case ctx of None \<Rightarrow> e | Some i \<Rightarrow> e\<lparr>le_request_id := Some i\<rparr>)"

definition emit :: "string option \<Rightarrow> log_event \<Rightarrow> 'a shell \<Rightarrow> 'a shell" where
  "emit ctx e s = s\<lparr>sh_log := sh_log s @ [add_request_id ctx e]\<rparr>"

definition elapsed_ms :: "pyfloat \<Rightarrow> pyfloat \<Rightarrow> pyfloat" where
  "elapsed_ms start stop = py_round 2 (fmul (fsub stop start) 1000)"


section \<open>Request context\<close>

definition REQUEST_ID_HEADER :: string where "REQUEST_ID_HEADER = ''x-request-id''"

definition shell_client_ip :: "proxy_trust option \<Rightarrow> web_request \<Rightarrow> string option" where
  "shell_client_ip container request =
     (let trust = (case container of None \<Rightarrow> ProxyTrust [] | Some t \<Rightarrow> t) in client_ip trust (wq_http request))"

definition request_id_of :: "string \<Rightarrow> web_request \<Rightarrow> string" where
  "request_id_of fresh request =
     (case map_of (req_headers (wq_http request)) REQUEST_ID_HEADER of
        None \<Rightarrow> fresh
      | Some incoming \<Rightarrow> if incoming = [] then fresh else incoming)"

text \<open>
  \<open>RequestContextMiddleware.dispatch\<close>.  The context variable holds the id while the inner handler runs and in the
  \<open>except\<close> clause; \<open>finally\<close> resets it to \<open>ctx\<close>, the value outside.
\<close>

definition request_context :: "'a shell_env \<Rightarrow> 'a handler \<Rightarrow> 'a handler" where
  "request_context env call_next ctx request s =
     (let request_id = request_id_of (se_fresh_id env) request; start = se_timer env s
      in case call_next (Some request_id) request s of
           (Inl e, s') \<Rightarrow>
             (Inl e, emit (Some request_id)
                \<lparr>le_event = ''request_failed'', le_request_id = None, le_method = wq_method request,
                 le_path = wq_path request, le_status = None, le_client = None,
                 le_duration_ms = elapsed_ms start (se_timer env s')\<rparr> s')
         | (Inr response, s') \<Rightarrow>
             (Inr (response\<lparr>ws_headers := dict_set REQUEST_ID_HEADER request_id (ws_headers response)\<rparr>),
              emit ctx
                \<lparr>le_event = ''request_completed'', le_request_id = None, le_method = wq_method request,
                 le_path = wq_path request, le_status = Some (ws_status response),
                 le_client = shell_client_ip (se_trust env) request,
                 le_duration_ms = elapsed_ms start (se_timer env s')\<rparr> s'))"


section \<open>Security headers\<close>

definition quoted :: "string \<Rightarrow> string" where "quoted s = [CHR 0x27] @ s @ [CHR 0x27]"

definition SECURITY_HEADERS :: "(string, string) dict" where
  "SECURITY_HEADERS =
     [(''x-content-type-options'', ''nosniff''), (''x-frame-options'', ''DENY''), (''referrer-policy'', ''no-referrer''),
      (''content-security-policy'', ''default-src '' @ quoted ''none'' @ ''; frame-ancestors '' @ quoted ''none''),
      (''permissions-policy'', ''geolocation=(), microphone=(), camera=()'')]"

definition DOCS_CSP :: string where
  "DOCS_CSP =
     ''default-src '' @ quoted ''self'' @ ''; ''
     @ ''script-src '' @ quoted ''self'' @ '' '' @ quoted ''unsafe-inline'' @ '' https://cdn.jsdelivr.net; ''
     @ ''style-src '' @ quoted ''self'' @ '' '' @ quoted ''unsafe-inline'' @ '' https://cdn.jsdelivr.net https://fonts.googleapis.com; ''
     @ ''font-src '' @ quoted ''self'' @ '' https://fonts.gstatic.com; ''
     @ ''img-src '' @ quoted ''self'' @ '' data: https://fastapi.tiangolo.com https://cdn.jsdelivr.net ''
     @ ''https://cdn.redoc.ly; ''
     @ ''worker-src '' @ quoted ''self'' @ '' blob:; ''
     @ ''frame-ancestors '' @ quoted ''none'' @ ''; base-uri '' @ quoted ''none'' @ ''; object-src '' @ quoted ''none''"

definition DOCS_PATHS :: "string list" where
  "DOCS_PATHS = [''/docs'', ''/docs/oauth2-redirect'', ''/redoc'']"

definition header_setdefault :: "string \<Rightarrow> string \<Rightarrow> (string, string) dict \<Rightarrow> (string, string) dict" where
  "header_setdefault k v hs = (case dict_get hs k of None \<Rightarrow> hs @ [(k, v)] | Some _ \<Rightarrow> hs)"

definition add_security_headers :: "string \<Rightarrow> (string, string) dict \<Rightarrow> (string, string) dict" where
  "add_security_headers path hs =
     foldl (\<lambda>h (k, v). header_setdefault k v h)
       (if path \<in> set DOCS_PATHS then header_setdefault ''content-security-policy'' DOCS_CSP hs else hs)
       SECURITY_HEADERS"

definition security_headers :: "'a handler \<Rightarrow> 'a handler" where
  "security_headers call_next ctx request s =
     (case call_next ctx request s of
        (Inl e, s') \<Rightarrow> (Inl e, s')
      | (Inr response, s') \<Rightarrow>
          (Inr (response\<lparr>ws_headers := add_security_headers (wq_path request) (ws_headers response)\<rparr>), s'))"


section \<open>Prometheus\<close>

definition METRICS_PATH :: string where "METRICS_PATH = ''/metrics''"

definition route_template :: "'a shell_env \<Rightarrow> web_request \<Rightarrow> string" where
  "route_template env request = (case se_route env request of None \<Rightarrow> ''unmatched'' | Some p \<Rightarrow> p)"

definition inc_counter :: "'k \<Rightarrow> ('k, int) dict \<Rightarrow> ('k, int) dict" where
  "inc_counter k d = dict_set k ((case dict_get d k of None \<Rightarrow> 0 | Some n \<Rightarrow> n) + 1) d"

definition prometheus :: "'a shell_env \<Rightarrow> 'a handler \<Rightarrow> 'a handler" where
  "prometheus env call_next ctx request s =
     (if wq_path request = METRICS_PATH then call_next ctx request s
      else
        let started = se_timer env s
        in case call_next ctx request s of
             (Inl e, s') \<Rightarrow> (Inl e, s')
           | (Inr response, s') \<Rightarrow>
               let elapsed = fsub (se_timer env s') started; template = route_template env request
               in (Inr response,
                   s'\<lparr>sh_latency := sh_latency s' @ [((wq_method request, template), elapsed)],
                      sh_requests_total := inc_counter (wq_method request, template, ws_status response) (sh_requests_total s')\<rparr>))"

text \<open>The scrape endpoint; \<open>generate_latest\<close> prints the collectors.\<close>

definition metrics_response :: "('a shell \<Rightarrow> string) \<Rightarrow> string \<Rightarrow> 'a handler" where
  "metrics_response generate_latest content_type ctx request s =
     (Inr \<lparr>ws_status = 200, ws_headers = [(''content-type'', content_type)], ws_body = JStr (generate_latest s)\<rparr>, s)"


section \<open>The application\<close>

text \<open>The problem as a response; the \<open>content-length\<close> header is left out.\<close>

definition problem_web :: "problem_response \<Rightarrow> web_response" where
  "problem_web p = \<lparr>ws_status = problem_status p, ws_headers = [(''content-type'', problem_media_type p)],
     ws_body = JObj (problem_body p)\<rparr>"

text \<open>The exception classes with a handler of their own, as opposed to the handler of \<open>Exception\<close>.\<close>

fun has_own_handler :: "exn \<Rightarrow> bool" where
  "has_own_handler (AppExn a) = True"
| "has_own_handler (RequestValidationError es) = True"
| "has_own_handler (HTTPException c d) = True"
| "has_own_handler _ = False"

text \<open>
  Starlette's part is a parameter: the CORS middleware, the inner middleware that renders exceptions
  with the registered handlers, and the outer one that renders everything else with the handler of
  \<open>Exception\<close>.
\<close>

record 'a starlette =
  sl_cors :: "string list \<Rightarrow> bool \<Rightarrow> 'a handler \<Rightarrow> 'a handler"
  sl_exceptions :: "(string option \<Rightarrow> exn \<Rightarrow> web_response) \<Rightarrow> 'a handler \<Rightarrow> 'a handler"
  sl_server_errors :: "(string option \<Rightarrow> exn \<Rightarrow> web_response) \<Rightarrow> 'a handler \<Rightarrow> 'a handler"

definition render :: "string option \<Rightarrow> exn \<Rightarrow> web_response" where
  "render ctx e = problem_web (handle_exception ctx e)"

text \<open>Each \<open>add_middleware\<close> wraps what was added before.\<close>

definition add_middleware :: "('a handler \<Rightarrow> 'a handler) \<Rightarrow> 'a handler \<Rightarrow> 'a handler" where
  "add_middleware m inner = m inner"

definition create_app :: "'a starlette \<Rightarrow> string list \<Rightarrow> bool \<Rightarrow> 'a shell_env \<Rightarrow> 'a handler \<Rightarrow> 'a handler" where
  "create_app fw cors_origins cors_credentials env router =
     sl_server_errors fw render
       (add_middleware (sl_cors fw cors_origins cors_credentials)
       (add_middleware (request_context env)
       (add_middleware (prometheus env)
       (add_middleware security_headers
         (sl_exceptions fw render router)))))"

text \<open>
  What Starlette documents of its three middlewares: a request without an \<open>Origin\<close> header passes the
  CORS middleware untouched; the inner exception middleware answers exactly the exceptions whose class
  has a handler; the outer one answers every other exception with the handler of \<open>Exception\<close>.
\<close>

definition starlette_documented :: "'a starlette \<Rightarrow> bool" where
  "starlette_documented fw \<longleftrightarrow>
     (\<forall>os c h ctx request s. map_of (req_headers (wq_http request)) ''origin'' = None \<longrightarrow>
        sl_cors fw os c h ctx request s = h ctx request s)
     \<and> (\<forall>f h ctx request s. sl_exceptions fw f h ctx request s =
          (case h ctx request s of
             (Inl e, s') \<Rightarrow> ((if has_own_handler e then Inr (f ctx e) else Inl e), s')
           | (Inr r, s') \<Rightarrow> (Inr r, s')))
     \<and> (\<forall>f h ctx request s. sl_server_errors fw f h ctx request s =
          (case h ctx request s of
             (Inl e, s') \<Rightarrow> (Inr (f ctx e), s')
           | (Inr r, s') \<Rightarrow> (Inr r, s')))"


section \<open>Properties\<close>

lemma dict_get_setdefault:
  "dict_get (header_setdefault k v hs) k' = (if k' = k \<and> dict_get hs k = None then Some v else dict_get hs k')"
  by (auto simp: header_setdefault_def map_add_def split: option.split)

lemma add_security_headers_get:
  "dict_get (add_security_headers path hs) k =
     (case dict_get hs k of
        Some v \<Rightarrow> Some v
      | None \<Rightarrow> if k = ''content-security-policy'' \<and> path \<in> set DOCS_PATHS then Some DOCS_CSP
                else dict_get SECURITY_HEADERS k)"
  by (auto simp: add_security_headers_def SECURITY_HEADERS_def dict_get_setdefault split: option.split)

lemma starletteD:
  assumes "starlette_documented fw"
  shows "map_of (req_headers (wq_http request)) ''origin'' = None \<Longrightarrow> sl_cors fw os c h ctx request s = h ctx request s"
    "sl_exceptions fw f h ctx request s =
       (case h ctx request s of
          (Inl e, s') \<Rightarrow> ((if has_own_handler e then Inr (f ctx e) else Inl e), s')
        | (Inr r, s') \<Rightarrow> (Inr r, s'))"
    "sl_server_errors fw f h ctx request s =
       (case h ctx request s of (Inl e, s') \<Rightarrow> (Inr (f ctx e), s') | (Inr r, s') \<Rightarrow> (Inr r, s'))"
  using assms unfolding starlette_documented_def by blast+

section \<open>The stack as a whole\<close>

text \<open>What the middlewares make of a response of the router, and what they note about it.\<close>

definition finish :: "'a shell_env \<Rightarrow> web_request \<Rightarrow> web_response \<Rightarrow> web_response" where
  "finish env request w = w\<lparr>ws_headers := dict_set REQUEST_ID_HEADER (request_id_of (se_fresh_id env) request)
     (add_security_headers (wq_path request) (ws_headers w))\<rparr>"

definition shell_outcome :: "'a shell_env \<Rightarrow> web_request \<Rightarrow> web_response result \<Rightarrow> web_response result" where
  "shell_outcome env request r =
     (case r of
        Inr w \<Rightarrow> Inr (finish env request w)
      | Inl e \<Rightarrow> if has_own_handler e then Inr (finish env request (render (Some (request_id_of (se_fresh_id env) request)) e)) else Inl e)"

definition counted :: "'a shell_env \<Rightarrow> web_request \<Rightarrow> web_response result \<Rightarrow> 'a shell \<Rightarrow> ((string \<times> string \<times> int), int) dict" where
  "counted env request out s =
     (case out of
        Inl e \<Rightarrow> sh_requests_total s
      | Inr w \<Rightarrow> if wq_path request = METRICS_PATH then sh_requests_total s
                 else inc_counter (wq_method request, route_template env request, ws_status w) (sh_requests_total s))"

definition noted :: "'a shell_env \<Rightarrow> web_request \<Rightarrow> web_response result \<Rightarrow> log_event \<Rightarrow> bool" where
  "noted env request out ev \<longleftrightarrow>
     (case out of
        Inl e \<Rightarrow> le_event ev = ''request_failed'' \<and> le_request_id ev = Some (request_id_of (se_fresh_id env) request)
      | Inr w \<Rightarrow> le_event ev = ''request_completed'' \<and> le_status ev = Some (ws_status w) \<and> le_request_id ev = None)"

lemma stack_run:
  assumes "starlette_documented fw"
    and "router (Some (request_id_of (se_fresh_id env) request)) request s = (r, s1)"
  shows "\<exists>s' ev. request_context env (prometheus env (security_headers (sl_exceptions fw render router))) None request s
        = (shell_outcome env request r, s')
    \<and> sh_app s' = sh_app s1 \<and> sh_requests_total s' = counted env request (shell_outcome env request r) s1
    \<and> sh_log s' = sh_log s1 @ [ev] \<and> noted env request (shell_outcome env request r) ev"
proof -
  let ?id = "request_id_of (se_fresh_id env) request" and ?out = "shell_outcome env request r"
  define w where "w = (case r of Inl e \<Rightarrow> render (Some ?id) e | Inr w \<Rightarrow> w)"
  have exc: "sl_exceptions fw render router (Some ?id) request s
      = ((if \<exists>e. r = Inl e \<and> \<not> has_own_handler e then r else Inr w), s1)"
    using assms(2) by (cases r) (simp_all add: starletteD [OF assms(1)] w_def)
  show ?thesis
    by (cases r)
       (auto simp: request_context_def prometheus_def security_headers_def exc emit_def add_request_id_def Let_def w_def
         shell_outcome_def finish_def counted_def noted_def)
qed

lemma create_app_run:
  assumes "starlette_documented fw" and "map_of (req_headers (wq_http request)) ''origin'' = None"
    and "router (Some (request_id_of (se_fresh_id env) request)) request s = (r, s1)"
  shows "\<exists>s' ev. create_app fw os cred env router None request s
        = (Inr (case shell_outcome env request r of Inr w \<Rightarrow> w | Inl e \<Rightarrow> render None e), s')
    \<and> sh_app s' = sh_app s1 \<and> sh_requests_total s' = counted env request (shell_outcome env request r) s1
    \<and> sh_log s' = sh_log s1 @ [ev] \<and> noted env request (shell_outcome env request r) ev"
proof -
  obtain s' ev where st: "request_context env (prometheus env (security_headers (sl_exceptions fw render router))) None request s
        = (shell_outcome env request r, s')"
    "sh_app s' = sh_app s1" "sh_requests_total s' = counted env request (shell_outcome env request r) s1"
    "sh_log s' = sh_log s1 @ [ev]" "noted env request (shell_outcome env request r) ev"
    using stack_run [of fw router env request s r s1] assms(1,3) by blast
  then have "create_app fw os cred env router None request s
      = (Inr (case shell_outcome env request r of Inr w \<Rightarrow> w | Inl e \<Rightarrow> render None e), s')"
    using assms(2) by (simp add: create_app_def add_middleware_def starletteD [OF assms(1)] split: sum.split)
  with st show ?thesis by blast
qed

lemma finish_headers:
  "dict_get (ws_headers (finish env request w)) k =
     (if k = ''x-request-id'' then Some (request_id_of (se_fresh_id env) request)
      else dict_get (add_security_headers (wq_path request) (ws_headers w)) k)"
  "ws_status (finish env request w) = ws_status w" "ws_body (finish env request w) = ws_body w"
  by (simp_all add: finish_def REQUEST_ID_HEADER_def)

lemma finish_security:
  "dict_get SECURITY_HEADERS k \<noteq> None \<Longrightarrow> dict_get (ws_headers (finish env request w)) k \<noteq> None"
  by (cases "k = ''x-request-id''") (auto simp: finish_headers add_security_headers_get split: option.split)

lemma problem_trace:
  assumes "dict_get (err_extra a) ''trace_id'' = None"
  shows "\<exists>body. ws_body (render (Some i) (AppExn a)) = JObj body \<and> dict_get body ''trace_id'' = Some (JStr i)"
    and "ws_status (render ctx (AppExn a)) = status_code (err_class a)"
proof -
  have "dict_get (rev (err_extra a)) ''trace_id'' = None" using assms by (simp add: map_of_eq_None_iff)
  then show "\<exists>body. ws_body (render (Some i) (AppExn a)) = JObj body \<and> dict_get body ''trace_id'' = Some (JStr i)"
    by (simp add: render_def problem_web_def handle_exception_def problem_field json_opt_str_def)
  show "ws_status (render ctx (AppExn a)) = status_code (err_class a)"
    by (simp add: render_def problem_web_def handle_exception_def problem_def)
qed



text \<open>The documented behaviour, as a concrete framework for the examples: no cross-origin requests.\<close>

definition plain_starlette :: "'a starlette" where
  "plain_starlette =
     \<lparr>sl_cors = (\<lambda>os c h. h),
      sl_exceptions = (\<lambda>f h ctx request s. case h ctx request s of
          (Inl e, s') \<Rightarrow> ((if has_own_handler e then Inr (f ctx e) else Inl e), s')
        | (Inr r, s') \<Rightarrow> (Inr r, s')),
      sl_server_errors = (\<lambda>f h ctx request s. case h ctx request s of
          (Inl e, s') \<Rightarrow> (Inr (f ctx e), s')
        | (Inr r, s') \<Rightarrow> (Inr r, s'))\<rparr>"

lemma plain_starlette_documented: "starlette_documented plain_starlette"
  by (simp add: starlette_documented_def plain_starlette_def)

definition example_shell_env :: "unit shell_env" where
  "example_shell_env = \<lparr>se_timer = (\<lambda>_. 0), se_fresh_id = ''fresh'', se_trust = None, se_route = (\<lambda>_. None)\<rparr>"

definition example_shell :: "unit shell" where
  "example_shell = \<lparr>sh_log = [], sh_requests_total = [], sh_latency = [], sh_app = ()\<rparr>"

definition example_request :: "string \<Rightarrow> web_request" where
  "example_request path = \<lparr>wq_http = \<lparr>req_client = None, req_headers = [(''x-request-id'', ''abc'')]\<rparr>,
     wq_method = ''GET'', wq_path = path\<rparr>"


text \<open>
  C30: an unexpected exception is rendered outside the middlewares of the application.  The client gets
  the generic 500 problem, without the exception's own message, but the response has neither
  \<open>X-Request-ID\<close> nor any security header, its \<open>trace_id\<close> is null, and the request is missing from
  the request counter; only the log line of the failure carries the request id.
\<close>

theorem unexpected_error_response:
  assumes "starlette_documented fw" and "map_of (req_headers (wq_http request)) ''origin'' = None"
    and "router (Some (request_id_of (se_fresh_id env) request)) request s = (Inl e, s1)" and "\<not> has_own_handler e"
  shows "\<exists>resp s' ev. create_app fw os cred env router None request s = (Inr resp, s')
    \<and> ws_status resp = 500 \<and> dict_get (ws_headers resp) ''x-request-id'' = None
    \<and> (\<forall>k. dict_get SECURITY_HEADERS k \<noteq> None \<longrightarrow> dict_get (ws_headers resp) k = None)
    \<and> (\<exists>body. ws_body resp = JObj body \<and> dict_get body ''trace_id'' = Some JNull
        \<and> dict_get body ''detail'' = Some (JStr ''An unexpected error occurred. The incident has been logged.''))
    \<and> sh_requests_total s' = sh_requests_total s1
    \<and> sh_log s' = sh_log s1 @ [ev] \<and> le_event ev = ''request_failed''
    \<and> le_request_id ev = Some (request_id_of (se_fresh_id env) request)"
proof -
  have h: "handle_exception None e = problem 500 ''internal_error'' ''Internal Server Error''
      ''An unexpected error occurred. The incident has been logged.'' [] None"
    using assms(4) by (cases e) (simp_all add: handle_exception_def)
  have "shell_outcome env request (Inl e) = Inl e" using assms(4) by (simp add: shell_outcome_def)
  with create_app_run [of fw request router env s "Inl e" s1 os cred] assms(1-3)
  have "\<exists>s' ev. create_app fw os cred env router None request s = (Inr (render None e), s')
    \<and> sh_requests_total s' = sh_requests_total s1 \<and> sh_log s' = sh_log s1 @ [ev] \<and> le_event ev = ''request_failed''
    \<and> le_request_id ev = Some (request_id_of (se_fresh_id env) request)"
    by (auto simp: counted_def noted_def)
  then show ?thesis
    by (auto simp: render_def h problem_web_def problem_def json_opt_str_def SECURITY_HEADERS_def)
qed

theorem unexpected_error_response_witness:
  "\<exists>resp s'. create_app plain_starlette [] False example_shell_env
      (\<lambda>ctx request s. (Inl (ValueError ''rate''), s)) None (example_request ''/x'') example_shell = (Inr resp, s')
    \<and> ws_status resp = 500 \<and> dict_get (ws_headers resp) ''x-request-id'' = None \<and> sh_requests_total s' = []"
proof -
  let ?router = "\<lambda>ctx request s. (Inl (ValueError ''rate''), s :: unit shell)"
  have o: "map_of (req_headers (wq_http (example_request ''/x''))) ''origin'' = None"
    by (simp add: example_request_def)
  from unexpected_error_response [OF plain_starlette_documented o, of ?router example_shell_env example_shell
      "ValueError ''rate''" example_shell "[]" False]
  show ?thesis by (auto simp: example_shell_def)
qed

end
