(* ===== verification/Wire.thy ===== *)
theory Wire
  imports Service Middleware
begin

text \<open>
  The service on the wire: a request passes the middlewares of \<open>Middleware\<close>, is routed by the table of \<open>Routing\<close> and runs
  on the node of \<open>Node\<close>, as \<open>create_app\<close> of \<^verbatim>\<open>app/main.py\<close> puts them together.  FastAPI's part, which reads the parameters
  of a call out of a request and writes a reply as a response, is a parameter.
\<close>

section \<open>The framework\<close>

text \<open>
  What FastAPI makes of the parameters of a request: the call, or the errors of parameters that do not have their types,
  which it reports after the dependencies ran, or those of a body that is not JSON, which it reports before.
\<close>

datatype conversion =
  Converted api_call
| BadParameters "(string list option \<times> string option) list"
| Unreadable "(string list option \<times> string option) list"

record 'a web_lib =
  wl_routes :: route_lib
  wl_bearer :: "web_request \<Rightarrow> string option" \<comment> \<open>\<open>HTTPBearer(auto_error=False)\<close>\<close>
  wl_convert :: "route \<Rightarrow> web_request \<Rightarrow> conversion"
  wl_reply :: "int \<Rightarrow> reply \<Rightarrow> web_response"
  wl_other :: "web_request \<Rightarrow> web_response result" \<comment> \<open>documentation pages, redirects, 404 and 405\<close>
  wl_template :: "web_request \<Rightarrow> string option" \<comment> \<open>of the route that \<open>wl_other\<close> found, if any\<close>
  wl_generate_latest :: "'a shell \<Rightarrow> string"
  wl_content_type_latest :: string

definition FRAMEWORK_PATHS :: "string list" where
  "FRAMEWORK_PATHS = [''/openapi.json'', ''/docs'', ''/docs/oauth2-redirect'', ''/redoc'']"

definition web_documented :: "Settings \<Rightarrow> 'a web_lib \<Rightarrow> bool" where
  "web_documented settings lib \<longleftrightarrow>
     (\<forall>rs m p r. rl_resolve (wl_routes lib) rs m p = Some r \<longrightarrow> r \<in> set rs)
     \<and> (\<forall>r request c. wl_convert lib r request = Converted c \<longrightarrow> call_endpoint c = rt_endpoint r)
     \<and> (\<forall>n v. ws_status (wl_reply lib n v) = n)
     \<and> (\<forall>request p. wl_template lib request = Some p \<longrightarrow> p \<in> rt_path ` set (app_routes settings) \<union> set FRAMEWORK_PATHS)"


section \<open>The router\<close>

text \<open>The dependencies of a route beside its rate limit.\<close>

fun resolve_guard :: "access \<Rightarrow> ('n, 'c) auth_env \<Rightarrow> ambient \<Rightarrow> string option \<Rightarrow> ('n, 'c, unit) auth_op" where
  "resolve_guard Anyone aenv amb cred = return_state ()"
| "resolve_guard OptionalUser aenv amb cred = bind_state (get_optional_user aenv amb cred) (\<lambda>_. return_state ())"
| "resolve_guard AccessPayload aenv amb cred = bind_state (get_access_payload aenv amb cred) (\<lambda>_. return_state ())"
| "resolve_guard CurrentUser aenv amb cred = bind_state (get_current_user aenv amb cred) (\<lambda>_. return_state ())"
| "resolve_guard AdminUser aenv amb cred =
     bind_state (get_current_user aenv amb cred) (\<lambda>user. bind_state (lift_result (require_admin user)) (\<lambda>_. return_state ()))"

text \<open>A request with parameters of the wrong type: the dependencies run, the handler does not.\<close>

definition reject_call ::
  "('n, 'c, 'l) app_env \<Rightarrow> ambient \<Rightarrow> http_request \<Rightarrow> string option \<Rightarrow> route \<Rightarrow> (string list option \<times> string option) list
   \<Rightarrow> ('n, 'c, 'l) app_state \<Rightarrow> web_response result \<times> ('n, 'c, 'l) app_state" where
  "reject_call app amb request cred r errors a =
     (let h = bind_state (resolve_guard (rt_access r) (app_auth app) amb cred) (\<lambda>_. raise_state (RequestValidationError errors))
      in if rt_limited r then endpoint app amb request h a
         else (case in_session h (as_auth a) of (x, s) \<Rightarrow> (x, a\<lparr>as_auth := s\<rparr>)))"

type_synonym ('n, 'c, 'l, 's) web_state = "('n, 'c, 'l, 's) node_state shell"

text \<open>A cancelled call has no answer; the value given here for it is not used.\<close>

definition dispatch ::
  "('n, 'c, 'l, 's) node_state web_lib \<Rightarrow> ('n, 'c, 'l, 's) node_env \<Rightarrow> ambient \<Rightarrow> route \<Rightarrow> web_request
   \<Rightarrow> ('n, 'c, 'l, 's) web_state \<Rightarrow> web_response result \<times> ('n, 'c, 'l, 's) web_state" where
  "dispatch lib env amb r request s =
     (case wl_convert lib r request of
        Unreadable errors \<Rightarrow> (Inl (RequestValidationError errors), s)
      | BadParameters errors \<Rightarrow>
          (case reject_call (ne_app env) amb (wq_http request) (wl_bearer lib request) r errors (nd_app (sh_app s)) of
             (x, a) \<Rightarrow> (x, s\<lparr>sh_app := (sh_app s)\<lparr>nd_app := a\<rparr>\<rparr>))
      | Converted c \<Rightarrow>
          (case run_call env amb (wq_http request) (wl_bearer lib request) c (sh_app s) of
             (Returned v, st) \<Rightarrow> (Inr (wl_reply lib (rt_status r) v), s\<lparr>sh_app := st\<rparr>)
           | (Raised e, st) \<Rightarrow> (Inl e, s\<lparr>sh_app := st\<rparr>)
           | (Aborted, st) \<Rightarrow> (Inl (PyError ''CancelledError'' []), s\<lparr>sh_app := st\<rparr>)))"

text \<open>\<open>RedirectResponse(url="/docs")\<close>\<close>

definition root_response :: web_response where
  "root_response = \<lparr>ws_status = 307, ws_headers = [(''location'', ''/docs'')], ws_body = JNull\<rparr>"

definition matched :: "'a web_lib \<Rightarrow> Settings \<Rightarrow> web_request \<Rightarrow> route option" where
  "matched lib settings request = rl_resolve (wl_routes lib) (app_routes settings) (wq_method request) (wq_path request)"

definition node_router ::
  "('n, 'c, 'l, 's) node_state web_lib \<Rightarrow> Settings \<Rightarrow> ('n, 'c, 'l, 's) node_env \<Rightarrow> ambient \<Rightarrow> ('n, 'c, 'l, 's) node_state handler" where
  "node_router lib settings env amb ctx request s =
     (case matched lib settings request of
        None \<Rightarrow> (wl_other lib request, s)
      | Some r \<Rightarrow>
          (case rt_endpoint r of
             E_root \<Rightarrow> (Inr root_response, s)
           | E_metrics_endpoint \<Rightarrow> metrics_response (wl_generate_latest lib) (wl_content_type_latest lib) ctx request s
           | _ \<Rightarrow> dispatch lib env amb r request s))"

definition node_shell ::
  "('n, 'c, 'l, 's) node_state web_lib \<Rightarrow> Settings \<Rightarrow> ('n, 'c, 'l, 's) node_env \<Rightarrow> (('n, 'c, 'l, 's) web_state \<Rightarrow> pyfloat) \<Rightarrow> string
   \<Rightarrow> ('n, 'c, 'l, 's) node_state shell_env" where
  "node_shell lib settings env timer fresh_id =
     \<lparr>se_timer = timer, se_fresh_id = fresh_id, se_trust = Some (app_proxy_trust (ne_app env)),
      se_route = (\<lambda>request. case matched lib settings request of Some r \<Rightarrow> Some (rt_path r) | None \<Rightarrow> wl_template lib request)\<rparr>"

text \<open>The application of \<open>create_app\<close>, at the moment \<open>amb\<close>.\<close>

definition serve ::
  "('n, 'c, 'l, 's) node_state starlette \<Rightarrow> ('n, 'c, 'l, 's) node_state web_lib \<Rightarrow> Settings \<Rightarrow> ('n, 'c, 'l, 's) node_env
   \<Rightarrow> (('n, 'c, 'l, 's) web_state \<Rightarrow> pyfloat) \<Rightarrow> string \<Rightarrow> ambient \<Rightarrow> web_request \<Rightarrow> ('n, 'c, 'l, 's) web_state
   \<Rightarrow> web_response result \<times> ('n, 'c, 'l, 's) web_state" where
  "serve fw lib settings env timer fresh_id amb =
     create_app fw (cors_origins settings) (cors_allow_credentials settings) (node_shell lib settings env timer fresh_id)
       (node_router lib settings env amb) None"



section \<open>Requests to the node\<close>

lemma handled_run:
  assumes "matched lib settings request = Some r" "rt_endpoint r \<notin> {E_root, E_metrics_endpoint}"
    and "wl_convert lib r request = Converted c"
    and "run_call env amb (wq_http request) (wl_bearer lib request) c (sh_app s) = (out, st)"
  shows "node_router lib settings env amb ctx request s =
    ((case out of Returned v \<Rightarrow> Inr (wl_reply lib (rt_status r) v) | Raised e \<Rightarrow> Inl e | Aborted \<Rightarrow> Inl (PyError ''CancelledError'' [])),
     s\<lparr>sh_app := st\<rparr>)"
  using assms by (cases "rt_endpoint r"; cases out) (auto simp: node_router_def dispatch_def)

lemma matched_route: "web_documented settings lib \<Longrightarrow> matched lib settings request = Some r \<Longrightarrow> r \<in> set (app_routes settings)"
  by (auto simp: web_documented_def matched_def)

text \<open>
  C18: from the wire to the node and back.  A request without an \<open>Origin\<close> header that the router matches with the route of an
  endpoint of the API, and whose parameters have their types, is answered, unless it is cancelled, and the node is left
  as the call leaves it.  When the call returns, the response carries the status of the route and the reply, and the
  caller passed the guard that the route declares; when it raises, the response is the problem document of the error, with the
  request id as its trace id exactly when the error is one the application has a handler for.  Both kinds carry the
  request id and the security headers, but for unexpected errors.
\<close>

theorem served_request:
  assumes "starlette_documented fw" and "web_documented settings lib"
    and "map_of (req_headers (wq_http request)) ''origin'' = None"
    and "matched lib settings request = Some r" "rt_endpoint r \<notin> {E_root, E_metrics_endpoint}"
    and "wl_convert lib r request = Converted c"
    and "run_call env amb (wq_http request) (wl_bearer lib request) c (sh_app s) = (out, st)" "out \<noteq> Aborted"
  shows "\<exists>resp s'. serve fw lib settings env timer fresh_id amb request s = (Inr resp, s') \<and> sh_app s' = st
    \<and> (case out of
         Returned v \<Rightarrow> ws_status resp = rt_status r \<and> ws_body resp = ws_body (wl_reply lib (rt_status r) v)
           \<and> guard_passed env amb (wl_bearer lib request) (rt_access r) (sh_app s)
       | Raised e \<Rightarrow> ws_status resp = problem_status (handle_exception None e)
           \<and> ws_body resp = JObj (problem_body (handle_exception
               (if has_own_handler e then Some (request_id_of fresh_id request) else None) e)))
    \<and> ((\<forall>e. out = Raised e \<longrightarrow> has_own_handler e) \<longrightarrow>
         dict_get (ws_headers resp) ''x-request-id'' = Some (request_id_of fresh_id request)
         \<and> (\<forall>k. dict_get SECURITY_HEADERS k \<noteq> None \<longrightarrow> dict_get (ws_headers resp) k \<noteq> None))"
proof -
  let ?shell = "node_shell lib settings env timer fresh_id"
  define res where "res = (case out of Returned v \<Rightarrow> Inr (wl_reply lib (rt_status r) v) | Raised e \<Rightarrow> Inl e
     | Aborted \<Rightarrow> Inl (PyError ''CancelledError'' []))"
  have id: "se_fresh_id ?shell = fresh_id" by (simp add: node_shell_def)
  have run: "node_router lib settings env amb (Some (request_id_of (se_fresh_id ?shell) request)) request s = (res, s\<lparr>sh_app := st\<rparr>)"
    using handled_run [OF assms(4-7)] by (simp add: res_def)
  obtain s' where serve: "serve fw lib settings env timer fresh_id amb request s
      = (Inr (case shell_outcome ?shell request res of Inr w \<Rightarrow> w | Inl e \<Rightarrow> render None e), s')" "sh_app s' = st"
    using create_app_run [of fw request "node_router lib settings env amb" ?shell s res "s\<lparr>sh_app := st\<rparr>"
        "cors_origins settings" "cors_allow_credentials settings"] assms(1,3) run
    by (auto simp: serve_def)
  have status: "problem_status (handle_exception (Some t) e) = problem_status (handle_exception None e)" for t e
    by (cases e) (simp_all add: handle_exception_def problem_def)
  have "guard_passed env amb (wl_bearer lib request) (rt_access r) (sh_app s)" if "out = Returned v" for v
    using run_call_guarded [of env amb "wq_http request" "wl_bearer lib request" c "sh_app s" v st] assms(2,6,7) that
      route_guards(2) [OF matched_route [OF assms(2,4)]] by (simp add: web_documented_def)
  moreover have "ws_status (wl_reply lib n v) = n" for n v using assms(2) by (simp add: web_documented_def)
  ultimately show ?thesis
    using serve assms(8) finish_security [of _ ?shell request]
    by (intro exI [of _ "case shell_outcome ?shell request res of Inr w \<Rightarrow> w | Inl e \<Rightarrow> render None e"] exI [of _ s'])
       (simp add: res_def shell_outcome_def finish_headers id render_def problem_web_def status split: outcome.split)
qed


section \<open>The service over HTTP\<close>

text \<open>
  What Starlette documents of CORS: a preflight request is answered by the middleware itself, any other passes through
  and its response may get further headers.
\<close>

definition cors_documented :: "'a starlette \<Rightarrow> bool" where
  "cors_documented fw \<longleftrightarrow> (\<forall>os c h ctx request s.
     (\<exists>w. sl_cors fw os c h ctx request s = (Inr w, s))
     \<or> (\<exists>f. sl_cors fw os c h ctx request s = (case h ctx request s of (r, s') \<Rightarrow> (map_sum id f r, s'))))"

inductive http_step ::
  "bool \<Rightarrow> ('n, 'c, 'l, 's) node_state starlette \<Rightarrow> ('n, 'c, 'l, 's) node_state web_lib \<Rightarrow> Settings \<Rightarrow> ('n, 'c, 'l, 's) node_env
   \<Rightarrow> ('n, 'c, 'l, 's) web_state \<Rightarrow> ('n, 'c, 'l, 's) web_state \<Rightarrow> bool"
  for clean and fw and lib and settings and env :: "('n, 'c, 'l, 's) node_env" where
  Request: "serve fw lib settings env timer fresh_id amb request s = (out, s') \<Longrightarrow> http_step clean fw lib settings env s s'"
| Task: "service_step clean (\<lambda>_ _. False) env (sh_app s) st \<Longrightarrow> http_step clean fw lib settings env s (s\<lparr>sh_app := st\<rparr>)"

lemma in_session_raises: "in_session (bind_state g (\<lambda>_. raise_state e)) a = (x, a') \<Longrightarrow> st_db a' = st_db a"
  by (auto simp: in_session_def bind_state_def raise_state_def split: prod.splits sum.splits)

lemma reject_call_db: "reject_call app amb request cred r errors a = (x, a') \<Longrightarrow> st_db (as_auth a') = st_db (as_auth a)"
  by (auto simp: reject_call_def endpoint_def Let_def split: prod.splits sum.splits if_splits dest: in_session_raises)

lemma node_router_state:
  assumes "node_router lib settings env amb ctx request s = (out, s')"
  shows "(node_db (sh_app s') = node_db (sh_app s)
      \<or> (\<exists>c x. run_call env amb (wq_http request) (wl_bearer lib request) c (sh_app s) = (x, sh_app s')))
    \<and> sh_requests_total s' = sh_requests_total s"
proof -
  have "(node_db (sh_app s') = node_db (sh_app s)
      \<or> (\<exists>c x. run_call env amb (wq_http request) (wl_bearer lib request) c (sh_app s) = (x, sh_app s')))
    \<and> sh_requests_total s' = sh_requests_total s" if "dispatch lib env amb r request s = (out, s')" for r
    using that by (auto simp: dispatch_def split: conversion.splits prod.splits outcome.splits dest: reject_call_db)
  then show ?thesis
    using assms by (auto simp: node_router_def metrics_response_def split: option.splits endpoint_id.splits)
qed


text \<open>The labels that the request counter can have for the path of a request.\<close>

definition path_labels :: "Settings \<Rightarrow> string set" where
  "path_labels settings = insert ''unmatched'' (rt_path ` set (app_routes settings) \<union> set FRAMEWORK_PATHS)"

lemma route_template_label:
  assumes "web_documented settings lib"
  shows "route_template (node_shell lib settings env timer fresh_id) request \<in> path_labels settings"
  using assms matched_route [OF assms, of request]
  by (auto simp: route_template_def node_shell_def path_labels_def web_documented_def split: option.split)

lemma inc_counter_keys: "dict_get (inc_counter k d) k' = Some n \<Longrightarrow> k' = k \<or> (\<exists>n'. dict_get d k' = Some n')"
  by (auto simp: inc_counter_def split: if_splits)

lemma card_path_labels: "card (path_labels settings) \<le> 26"
proof -
  have "path_labels settings = set (''unmatched'' # map rt_path (app_routes settings) @ FRAMEWORK_PATHS)"
    by (auto simp: path_labels_def)
  moreover have "length (''unmatched'' # map rt_path (app_routes settings) @ FRAMEWORK_PATHS) = 26"
    by (simp add: app_routes_eq router_defs FRAMEWORK_PATHS_def)
  ultimately show ?thesis by (metis card_length)
qed

text \<open>The labels of the counter after \<open>s'\<close> are those before \<open>s\<close> or have a path label of the table.\<close>

definition labels_bounded :: "Settings \<Rightarrow> 'a shell \<Rightarrow> 'a shell \<Rightarrow> bool" where
  "labels_bounded settings s s' \<longleftrightarrow> (\<forall>m p code. dict_get (sh_requests_total s') (m, p, code) \<noteq> None \<longrightarrow>
     p \<in> path_labels settings \<or> dict_get (sh_requests_total s) (m, p, code) \<noteq> None)"

lemma serve_state:
  assumes "starlette_documented fw" "cors_documented fw" "web_documented settings lib"
    and "serve fw lib settings env timer fresh_id amb request s = (out, s')"
  shows "(node_db (sh_app s') = node_db (sh_app s)
      \<or> (\<exists>c x. run_call env amb (wq_http request) (wl_bearer lib request) c (sh_app s) = (x, sh_app s')))
    \<and> labels_bounded settings s s'"
proof -
  let ?shell = "node_shell lib settings env timer fresh_id"
  let ?router = "node_router lib settings env amb"
  let ?stack = "request_context ?shell (prometheus ?shell (security_headers (sl_exceptions fw render ?router)))"
  obtain r s1 where r: "?router (Some (request_id_of (se_fresh_id ?shell) request)) request s = (r, s1)" by fastforce
  obtain s2 where s2: "?stack None request s = (shell_outcome ?shell request r, s2)"
    "sh_app s2 = sh_app s1" "sh_requests_total s2 = counted ?shell request (shell_outcome ?shell request r) s1"
    using stack_run [of fw ?router ?shell request s r s1] assms(1) r by blast
  have "s' = s \<or> s' = s2"
  proof -
    obtain x s3 where x: "sl_cors fw (cors_origins settings) (cors_allow_credentials settings) ?stack None request s = (x, s3)"
      by fastforce
    then have "s3 = s \<or> s3 = s2"
      using assms(2) [unfolded cors_documented_def, rule_format, of "cors_origins settings" "cors_allow_credentials settings" ?stack None request s] s2(1)
      by auto
    moreover have "s' = s3"
      using assms(4) x by (auto simp: serve_def create_app_def add_middleware_def starletteD [OF assms(1)] split: sum.splits)
    ultimately show ?thesis by blast
  qed
  moreover have "labels_bounded settings s s2"
    using node_router_state [OF r] s2(3) route_template_label [OF assms(3)]
    by (auto simp: labels_bounded_def counted_def split: sum.splits if_splits dest!: inc_counter_keys)
  ultimately show ?thesis
    using node_router_state [OF r] s2(2) by (auto simp: labels_bounded_def)
qed

lemma http_step_keeps:
  assumes "http_step clean fw lib settings env s s'"
    and "starlette_documented fw" "cors_documented fw" "web_documented settings lib" and "db_ok (node_db (sh_app s))"
  shows "keeps clean (node_db (sh_app s)) (node_db (sh_app s')) \<and> labels_bounded settings s s'"
  using assms(1)
proof cases
  case (Request timer fresh_id amb request out)
  note state = serve_state [OF assms(2-4) Request]
  then show ?thesis
    using run_call_evolves [of env amb "wq_http request" "wl_bearer lib request" _ "sh_app s" _ "sh_app s'"] assms(5) evolves_refl [of "node_db (sh_app s)"]
    by (metis evolves_keeps)
next
  case (Task st)
  then show ?thesis using service_step_keeps assms(5) by (simp add: labels_bounded_def)
qed

lemma http_keeps:
  assumes "(http_step clean fw lib settings env)\<^sup>*\<^sup>* s s'"
    and "starlette_documented fw" "cors_documented fw" "web_documented settings lib" and "db_ok (node_db (sh_app s))"
  shows "keeps clean (node_db (sh_app s)) (node_db (sh_app s')) \<and> labels_bounded settings s s'"
  using assms(1)
proof (induction rule: rtranclp_induct)
  case base
  then show ?case using assms(5) by (simp add: keeps_def labels_bounded_def)
next
  case (step y z)
  then have "db_ok (node_db (sh_app y))" by (simp add: keeps_def)
  with http_step_keeps [OF step.hyps(2) assms(2-4)] step.IH show ?case
    unfolding labels_bounded_def by (blast intro: keeps_trans)
qed

text \<open>
  C17: the service over HTTP keeps its database in order and its metrics small.  Over every sequence of requests of any kind,
  with any methods, paths, headers, parameters, tokens and moments, answered, refused or failed, and any behaviour of the mail
  server, the hasher, the token library, the limiter, the cache and the providers, interleaved with runs of the price monitor
  and clean-ups of the audit log: ids and lower-cased emails of the accounts stay unique, every price alert belongs to
  an existing account, no account disappears or becomes an administrator; as long as no clean-up runs, entries of the audit
  log are never changed or removed; and whatever paths clients make up, the path label of a request counter is a
  route template of the application, one of the framework's own pages, or \<open>unmatched\<close>.
\<close>

theorem http_service_integrity:
  assumes "starlette_documented fw" and "cors_documented fw" and "web_documented settings lib"
    and "db_ok (node_db (sh_app s))" and "(http_step clean fw lib settings env)\<^sup>*\<^sup>* s s'"
  shows "db_ok (node_db (sh_app s'))
    \<and> prefix (map u_id (users (node_db (sh_app s)))) (map u_id (users (node_db (sh_app s'))))
    \<and> (\<forall>u \<in> set (users (node_db (sh_app s'))). u_role u = ADMIN \<longrightarrow>
         (\<exists>u0 \<in> set (users (node_db (sh_app s))). u_id u0 = u_id u \<and> u_role u0 = ADMIN))
    \<and> (\<not> clean \<longrightarrow> prefix (audit_log (node_db (sh_app s))) (audit_log (node_db (sh_app s'))))
    \<and> (\<forall>m p code. dict_get (sh_requests_total s') (m, p, code) \<noteq> None \<longrightarrow>
         p \<in> path_labels settings \<or> dict_get (sh_requests_total s) (m, p, code) \<noteq> None)
    \<and> card (path_labels settings) \<le> 26"
  using http_keeps [OF assms(5,1-4)] card_path_labels [of settings] by (force simp: keeps_def admins_def labels_bounded_def)


section \<open>An example service\<close>

definition example_web_lib :: "(mail list, memory_cache, limiter, script_world) node_state web_lib" where
  "example_web_lib = \<lparr>wl_routes = example_route_lib, wl_bearer = (\<lambda>_. None),
     wl_convert = (\<lambda>r request. if rt_endpoint r = E_list_alerts then Converted ListAlertsCall else BadParameters []),
     wl_reply = (\<lambda>n v. \<lparr>ws_status = n, ws_headers = [], ws_body = JNull\<rparr>),
     wl_other = (\<lambda>_. Inl (HTTPException 404 ''Not Found'')), wl_template = (\<lambda>_. None), wl_generate_latest = (\<lambda>_. []),
     wl_content_type_latest = ''text/plain''\<rparr>"

lemma example_web_documented: "web_documented settings example_web_lib"
  by (auto simp: web_documented_def example_web_lib_def example_route_lib_def find_Some_iff split: if_splits)

lemma plain_cors_documented: "cors_documented plain_starlette"
proof -
  have "(case h ctx request s of (r, s') \<Rightarrow> (map_sum id (\<lambda>w. w) r, s')) = h ctx request s" for h :: "'a handler" and ctx request s
    by (cases "h ctx request s"; cases "fst (h ctx request s)") auto
  then show ?thesis unfolding cors_documented_def plain_starlette_def by (auto intro: exI [of _ "\<lambda>w. w"])
qed

definition example_web_state :: "(mail list, memory_cache, limiter, script_world) web_state" where
  "example_web_state = \<lparr>sh_log = [], sh_requests_total = [], sh_latency = [], sh_app = example_node_state []\<rparr>"

definition alerts_request :: web_request where
  "alerts_request = \<lparr>wq_http = example_caller, wq_method = ''GET'', wq_path = ''/api/v1/price-alerts''\<rparr>"

lemma alerts_matched: "\<exists>r. matched example_web_lib default_settings alerts_request = Some r \<and> rt_endpoint r = E_list_alerts"
proof -
  have "map_option rt_endpoint (matched example_web_lib default_settings alerts_request) = Some E_list_alerts" by code_simp
  then show ?thesis by auto
qed

theorem served_request_witness:
  "\<exists>resp s'. serve plain_starlette example_web_lib default_settings example_node (\<lambda>_. 0) ''fresh'' (example_ambient 1100)
      alerts_request example_web_state = (Inr resp, s')
    \<and> ws_status resp = 401 \<and> dict_get (ws_headers resp) ''x-request-id'' = Some ''fresh''"
proof -
  obtain r where r: "matched example_web_lib default_settings alerts_request = Some r" "rt_endpoint r = E_list_alerts"
    using alerts_matched by blast
  have origin: "map_of (req_headers (wq_http alerts_request)) ''origin'' = None" by (simp add: alerts_request_def example_caller_def)
  have conv: "wl_convert example_web_lib r alerts_request = Converted ListAlertsCall" by (simp add: example_web_lib_def r(2))
  obtain out st where run: "run_call example_node (example_ambient 1100) (wq_http alerts_request) (wl_bearer example_web_lib alerts_request)
      ListAlertsCall (sh_app example_web_state) = (out, st)" by fastforce
  obtain ans l where a: "limiter_answer example_node (example_ambient 1100) (wq_http alerts_request) (sh_app example_web_state) = (ans, l)" by fastforce
  have "fst (limiter_answer example_node (example_ambient 1100) (wq_http alerts_request) (sh_app example_web_state)) = Inr 119"
    by (simp add: limiter_answer_def example_web_state_def example_node_state_def example_node_def example_app_def
        example_app_state_def enforce_first)
  then have "\<not> isl ans" using a by simp
  then have out: "out = Raised (app_error AuthenticationError ''missing bearer token'')"
    using run_call_no_credentials [OF a, of ListAlertsCall out st] run by (simp add: example_web_lib_def)
  have "request_id_of ''fresh'' alerts_request = ''fresh''"
    by (simp add: request_id_of_def alerts_request_def example_caller_def)
  then show ?thesis
    using served_request [OF plain_starlette_documented example_web_documented origin r(1) _ conv run, of "\<lambda>_. 0" "''fresh''"] r(2) out
    by (auto simp: handle_exception_def problem_def)
qed

theorem http_service_integrity_witness:
  "\<exists>out s'. serve plain_starlette example_web_lib default_settings example_node (\<lambda>_. 0) ''fresh'' (example_ambient 1100)
      alerts_request example_web_state = (out, s')
    \<and> db_ok (node_db (sh_app s')) \<and> (\<forall>m p code. dict_get (sh_requests_total s') (m, p, code) \<noteq> None \<longrightarrow> p \<in> path_labels default_settings)"
proof -
  obtain out s' where d: "serve plain_starlette example_web_lib default_settings example_node (\<lambda>_. 0) ''fresh'' (example_ambient 1100)
      alerts_request example_web_state = (out, s')" by fastforce
  have ok: "db_ok (node_db (sh_app example_web_state))"
    by (simp add: example_web_state_def example_node_state_def example_app_state_def example_db_ok)
  have "(http_step False plain_starlette example_web_lib default_settings example_node)\<^sup>*\<^sup>* example_web_state s'"
    by (rule r_into_rtranclp) (rule http_step.Request [OF d])
  from http_service_integrity [OF plain_starlette_documented plain_cors_documented example_web_documented ok this] d
  show ?thesis by (simp add: example_web_state_def)
qed

end
