(* ===== verification/Spec2Isabelle.thy ===== *)
theory Spec2Isabelle
  imports Lifecycle Sessions Stored_Rows Api_Reports Privacy Wire
begin

text \<open>
  A model of the Smart Travel Aggregator, the FastAPI service under \<^verbatim>\<open>src/app\<close> that merges the offers of
  several travel providers behind one API with accounts, price alerts, caching, circuit breakers and rate
  limiting.

  \<^bold>\<open>The program and its parts.\<close>  A request passes the middlewares of \<^verbatim>\<open>core/middleware.py\<close> and
  \<^verbatim>\<open>core/metrics.py\<close> in the order in which \<^verbatim>\<open>main.py\<close> stacks them, then the dependencies of
  \<^verbatim>\<open>api/deps.py\<close> (rate limit, session, current user), then an endpoint of \<^verbatim>\<open>api/v1\<close>.  The endpoints call
  the services: the aggregation of flights and hotels over provider ports, the authentication service over the
  repositories, the notifier and the token denylist, and the weather and currency adapters over the resilient HTTP
  client, which keeps a circuit breaker and shares the cache with the denylist.  \<^verbatim>\<open>container.py\<close> builds these
  collaborators from the settings; the workers run the price monitor and the audit clean-up on a schedule.

  \<^bold>\<open>Conventions.\<close>  A call that may raise has the type \<open>exn + 'a\<close>; a call that also changes state passes the state
  explicitly and keeps the changes made before an exception (\<open>bind_state\<close>); a dictionary is an association list in
  insertion order; a coroutine runs without interruption between two awaits of a shared lock, and where calls
  overlap (the circuit breaker) their sections are interleaved by a step relation.  Clock readings, fresh
  identifiers and salts are arguments (\<open>ambient\<close>), one instant for each request.

  \<^bold>\<open>The language and its library.\<close>
  \<^item> \<open>Prelude\<close>, \<open>Py_Text\<close>, \<open>Py_Time\<close>, \<open>Py_Uuid\<close>, \<open>Ip_Address\<close>: results, dictionaries, slices, text, integers
    with the limit of 4300 digits, the calendar, \<open>uuid\<close> and \<open>ipaddress\<close>, with their round trips.
  \<^item> \<open>Binary64\<close>: floats as the rationals they denote, each operation rounded to nearest even with gradual underflow;
    the locale \<open>float_rounding\<close> is what the score bounds need of rounding.
  \<^item> \<open>Json_Value\<close>, \<open>Py_Json\<close>, \<open>Py_Repr\<close>, \<open>Json_Text\<close>: JSON values, the operators on them with their exceptions, the
    shortest float printer, and \<open>json.dumps\<close> and \<open>json.loads\<close> with their round trip.
  \<^item> \<open>Py_Sha256\<close>, \<open>Py_Random\<close>: SHA-256, and the methods of \<open>random.Random\<close> over its two primitives.
  \<^item> \<open>Py_ConfigParser\<close>: the options of an INI file with \<open>BasicInterpolation\<close>.

  \<^bold>\<open>The components.\<close>
  \<^item> \<open>App_Errors\<close> (\<^verbatim>\<open>core/errors.py\<close>): the error classes, the problem document and the exception handlers.
  \<^item> \<open>Settings_Model\<close> (\<^verbatim>\<open>core/config.py\<close>), \<open>Client_Ip\<close> (\<^verbatim>\<open>core/client_ip.py\<close>), \<open>Rate_Limit\<close>
    (\<^verbatim>\<open>core/rate_limit.py\<close>), \<open>Security\<close> (\<^verbatim>\<open>core/security.py\<close>): settings and their refusals, the caller behind
    trusted proxies, the two limiters (locale \<open>rate_limiter\<close>), passwords and tokens.
  \<^item> \<open>Domain\<close>, \<open>Pagination\<close>, \<open>Aggregation_Core\<close>, \<open>Flight_Aggregation\<close>, \<open>Hotel_Aggregation\<close> (\<^verbatim>\<open>domain/\<close>,
    \<^verbatim>\<open>services/aggregation.py\<close>, \<^verbatim>\<open>services/hotel_aggregation.py\<close>): money and offers, cursors (locale
    \<open>cursor_codec\<close>), merging, de-duplication (locale \<open>cheapest_offer\<close>), filters, float scores, orders and pages.
  \<^item> \<open>Circuit_Breaker\<close>, \<open>Cache_Store\<close>, \<open>Http_Client\<close>, \<open>Http_Providers\<close> (\<^verbatim>\<open>resilience/\<close>, \<^verbatim>\<open>providers/\<close>): the breaker
    and its interleavings, the caches (locale \<open>ttl_cache\<close>), retries with backoff, the cached requests, and the
    two adapters on payloads of any shape.
  \<^item> \<open>Sample_Providers\<close>, \<open>Container\<close>, \<open>Application\<close> (\<^verbatim>\<open>providers/sample_*.py\<close>, \<^verbatim>\<open>container.py\<close>,
    \<^verbatim>\<open>api/deps.py\<close>): the shipped providers draw for draw, the choice of the backends, and the running node.
  \<^item> \<open>Database\<close>, \<open>Migration\<close>, \<open>Storage\<close>, \<open>Db_Engine\<close> (\<^verbatim>\<open>db/\<close>, \<^verbatim>\<open>repositories/\<close>, \<^verbatim>\<open>prestart.py\<close>,
    \<^verbatim>\<open>src/alembic\<close>): rows with their unique keys, the repository methods, the schema as migration and as models,
    which validated values fit its columns, and the engine, session factory and migration environment.
  \<^item> \<open>Notifications\<close>, \<open>Token_Blocklist\<close>, \<open>Auth_Service\<close>, \<open>Price_Monitor\<close> (\<^verbatim>\<open>services/\<close>) and \<open>Workers\<close>
    (\<^verbatim>\<open>workers/\<close>): mail (locale \<open>notifier\<close>), the denylist, every account use case, the monitor and the clean-up.
  \<^item> \<open>Schemas\<close>, \<open>Api_Deps\<close>, \<open>Api_Accounts\<close>, \<open>Api_Travel\<close>, \<open>Api_Reports\<close>, \<open>Api_Invariants\<close> (\<^verbatim>\<open>schemas/\<close>,
    \<^verbatim>\<open>api/\<close>): request validation, the guards, every handler with its dependencies in the order of their resolution,
    the contracts of the hotel search and of the dashboard, and a Hoare logic for what requests do to the database.
  \<^item> \<open>Routing\<close> (\<^verbatim>\<open>api/v1/router.py\<close>, the routers of \<^verbatim>\<open>api/v1\<close>, \<^verbatim>\<open>main.py\<close>): every route with its method, path,
    status and guards.
  \<^item> \<open>Lifecycle\<close> (\<^verbatim>\<open>core/logging.py\<close>, \<^verbatim>\<open>main.py\<close>, \<^verbatim>\<open>container.py\<close>, \<^verbatim>\<open>workers/\<close>): the cached settings, the logging
    set-up, the lifespan, the release of containers and the configuration of Celery.
  \<^item> \<open>Node\<close>, \<open>Op_Logic\<close>, \<open>Sessions\<close>, \<open>Service\<close>, \<open>Stored_Rows\<close>: the whole node, every endpoint as a \<open>run_call\<close> over one
    state; a logic for what all operations keep; and the steps of calls, price monitor and clean-up, interleaved in
    any order (\<open>service_step\<close>, \<open>before\<close>).
  \<^item> \<open>Privacy\<close>: a relational logic over the operations (\<open>alike\<close>), and what one account can learn of and do to others.
  \<^item> \<open>Middleware\<close> (\<^verbatim>\<open>core/middleware.py\<close>, \<^verbatim>\<open>core/metrics.py\<close>, \<^verbatim>\<open>core/logging.py\<close>, \<^verbatim>\<open>main.py\<close>): the stack around
    the endpoints with headers, log lines, counters and the handler of unexpected exceptions.
  \<^item> \<open>Wire\<close> (\<^verbatim>\<open>main.py\<close>): requests on the wire through middlewares, routing, guards and node (\<open>serve\<close>), and the service
    over HTTP as steps of requests and periodic tasks (\<open>http_step\<close>).

  \<^bold>\<open>What is shown.\<close>  Searches: pages are complete and disjoint, every listed offer is genuine, wanted and the cheapest
  of its kind, scores respect dominance, failing providers degrade a search without losing the others' offers, and
  the shipped application answers.  Resilience: the caches and the sliding-window limiter refine abstract
  specifications and stay bounded, the breaker is closed exactly below its threshold, retries end as documented, a
  cached response is the response, and the cache key is canonical.  Accounts: registration is atomic, verification
  and password resets take effect, a session that was logged out stays ended whatever happens on the node, callers
  cannot be forged and limits not evaded, only its owner deletes an alert, no answer depends on the private rows of other accounts, and unsafe settings are
  refused.  The node: every endpoint has exactly its route and enforces the guards its route declares, a request on the
  wire is answered with the reply or the problem document of its call, and over all interleavings of requests with
  the periodic tasks the database keeps its integrity, its rows their types and the metrics a bounded set of path labels.  Operation: containers are released,
  migrations reach the database of the application.  Errors: malformed payloads, unexpected exceptions, values that
  the schema accepts and a column refuses, URLs that the migration environment refuses.  Where the
  code does something else than its documentation says, the theorem states what it does.

  \<^bold>\<open>Parameters.\<close>  httpx, the Redis client, PyJWT, Argon2, \<open>smtplib\<close>, the e-mail validator, Starlette, FastAPI's conversion of
  parameters and replies, SQLAlchemy's engine, Alembic, the Prometheus printer and the two primitives of \<open>random.Random\<close> are record arguments; what a theorem needs of them is a named
  hypothesis (\<open>jwt_reads_back\<close>, \<open>rng_documented\<close>, \<open>routing_documented\<close>, \<open>web_documented\<close>, \<open>cors_documented\<close>,
  \<open>alembic_documented\<close> and the like), which each witness discharges on a
  concrete instance.

  \<^bold>\<open>Bounds.\<close>  Text is ASCII, except that JSON text covers the code points below 256.  Float overflow is written out
  where a value comes from outside (\<open>Py_Json\<close>) and excluded elsewhere; the sign of a zero is not represented.  Dates
  are in the form YYYY-MM-DD.  There is no fuel: loops are structural recursions or have termination proofs, and the
  rejection loop of \<open>random.Random\<close>, which may run forever, is a partial function that is proved to return.

  \<^bold>\<open>Not modelled.\<close>  FastAPI finds the parameters of a call in the request and converts query parameters and bodies to their
  types before the modelled constraints apply: this conversion is the field \<open>wl_convert\<close> of a parameter of \<open>Wire\<close>.  The
  descriptions that it publishes as OpenAPI have no effect on requests.  What \<open>structlog\<close>, Celery and the browser side of CORS do with the settings they are given is theirs.  The
  protocols of \<^verbatim>\<open>domain/ports.py\<close> for weather and currency have one implementation each, which is used directly.
  Recursion limits and memory are unbounded.

  \<^bold>\<open>To extend.\<close>  A model of the conversion of query parameters in place of \<open>wl_convert\<close>; the node with Redis; and the
  RESP level of the Redis transaction.
\<close>


section \<open>The shipped application\<close>

definition node_admits :: "memory_cache container \<Rightarrow> ambient \<Rightarrow> http_request \<Rightarrow> limiter \<Rightarrow> bool" where
  "node_admits c amb request l = fst (fst (check (tick amb) (caller_identity (ct_proxy_trust c) request) l))"

lemma flight_request_answerable:
  assumes "flight_request_errors q = []" "valid_date (rq_departure_date q)" "year (rq_departure_date q) < 9999"
  shows "answerable (flight_query q)"
  using assms by (simp add: answerable_def flight_query_def flight_request_errors_def IATA_shape_def)

lemma search_flights_anonymous:
  assumes "flight_request_errors q = []" "str_upper (rq_origin q) \<noteq> str_upper (rq_destination q)"
    and "search providers (flight_query q) (rq_sort q) (Some (flight_filters q)) (rq_limit q) (rq_cursor q) = Inr res"
  shows "fst (search_flights env providers amb started ended request None q st)
    = (case enforce_rate_limit (app_check env) (app_limit_of env) (app_proxy_trust env) (tick amb) request (as_limiter st) of
         (Inl e, l) \<Rightarrow> Inl e
       | (Inr remaining, l) \<Rightarrow> Inr (flight_response res))"
  using assms
  by (simp add: search_flights_def endpoint_def in_session_def get_optional_user_def search_flights_handler_def raise_errors_def
      return_state_def split: prod.split sum.split)

text \<open>The page that answers a search on the shipped providers.\<close>

definition shipped_page :: "flight_request \<Rightarrow> FlightSearchResponse \<Rightarrow> bool" where
  "shipped_page q resp \<longleftrightarrow> \<not> sm_degraded (fr_meta resp) \<and> sm_providers_ok (fr_meta resp) = 2
     \<and> int (length (fr_data resp)) \<le> rq_limit q
     \<and> (\<forall>f \<in> set (fr_data resp). fo_origin f = str_upper (rq_origin q)
          \<and> fo_destination f = str_upper (rq_destination q) \<and> 0 \<le> mo_amount_minor (fo_price f))
     \<and> (rq_max_price q = None \<and> rq_max_stops q = None \<and> rq_airlines q = None \<and> \<not> rq_direct_only q
          \<longrightarrow> 1 \<le> sm_total (fr_meta resp))"

lemma shipped_search_page:
  assumes "rng_documented rng" and "flight_request_errors q = []"
    and "valid_date (rq_departure_date q)" "year (rq_departure_date q) < 9999"
  obtains providers res where "ct_flights (node_container rng settings clock_now) = Inr providers"
    and "search providers (flight_query q) (rq_sort q) (Some (flight_filters q)) (rq_limit q) (rq_cursor q) = Inr res"
    and "shipped_page q (flight_response res)"
proof -
  have ans: "answerable (flight_query q)" using assms(2-4) by (rule flight_request_answerable)
  obtain providers res where p: "ct_flights (node_container rng settings clock_now) = Inr providers"
    and res: "search providers (flight_query q) (rq_sort q) (Some (flight_filters q)) (rq_limit q) (rq_cursor q) = Inr res"
    and m: "\<not> degraded (meta res)" "providers_ok (meta res) = 2"
      "\<forall>r \<in> set (items res). valid_flight (flight r) \<and> origin (flight r) = str_upper (rq_origin q)
         \<and> destination (flight r) = str_upper (rq_destination q)"
      "matches (flight_filters q) = (\<lambda>_. True) \<longrightarrow> 1 \<le> total (meta res)"
    using shipped_search_ok [OF assms(1) ans, of settings None memory_cache_ops clock_now "rq_sort q"
        "Some (flight_filters q)" "rq_limit q" "rq_cursor q"]
    by (auto simp: node_container_def flight_query_def effective_filters_def)
  have lim: "1 \<le> rq_limit q" using assms(2) by (simp add: flight_request_errors_def)
  have free: "matches (flight_filters q) = (\<lambda>_. True)"
    if "rq_max_price q = None" "rq_max_stops q = None" "rq_airlines q = None" "\<not> rq_direct_only q"
    using that by (intro ext) (simp add: matches_iff flight_filters_def)
  have "shipped_page q (flight_response res)"
    using m search_limit [OF res lim] free
    by (auto simp: shipped_page_def flight_response_def meta_out_def flight_offer_out_def money_out_def Let_def
        valid_flight_def valid_money_def)
  then show thesis by (rule that [OF p res])
qed



end
